theory Spec2Isabelle
  imports Complex_Main "HOL-Library.Word" "HOL-Library.Multiset" "HOL-Library.AList"
    "HOL-Library.Log_Nat"
begin

section \<open>Common types\<close>

text \<open>
  Node ids are \<^verbatim>\<open>uint32_t\<close>. Every \<^verbatim>\<open>double\<close> of the source (rates, quanta,
  throughputs, occupancies) is idealised as a \<^typ>\<open>real\<close>: comparisons, \<open>min\<close>/\<open>max\<close>
  and the order of the operations are those of the source, rounding and NaN are not
  modelled. The one exception is the expected finish time of a batch plan, where an
  \<^verbatim>\<open>int64\<close> passes through the floating-point type: there the rounding of the
  format is modelled. Loop counters and vector indices (\<^verbatim>\<open>size_t\<close>) are natural numbers; they
  stay below the length of a vector plus two, so they never wrap.
\<close>

type_synonym node_id = "32 word"

text \<open>
  What stops the process or leaves defined behaviour: \<^verbatim>\<open>operator[]\<close> of a vector out of
  range (undefined behaviour), \<^verbatim>\<open>unordered_map::at\<close> on a missing key (throws
  \<^verbatim>\<open>std::out_of_range\<close>), a null pointer dereference, a failed glog \<^verbatim>\<open>CHECK\<close>
  (the process aborts), signed overflow of an \<^verbatim>\<open>int64\<close>, and the conversion of a
  floating-point value outside the range of \<^verbatim>\<open>int64\<close>.
\<close>

datatype error =
    VectorIndexOutOfRange
  | MapKeyNotFound
  | NullPointerDereference
  | FatalDRRCouldNotDecide
  | FatalCheckFailed
  | SignedOverflow
  | ConversionOutOfRange

datatype CtrlStatus =
    CTRL_OK
  | MODEL_NOT_FOUND
  | NOT_ENOUGH_BACKENDS
  | CTRL_SERVER_NOT_REGISTERED
  | CTRL_FRONTEND_NODE_ID_CONFLICT
  | CTRL_BACKEND_NODE_ID_CONFLICT
  | CTRL_INVALID_LOAD_MODEL_REQUEST

record BackendInfo =
  node_id :: node_id
  ip :: string
  server_port :: string
  rpc_port :: string
  gpu_device_name :: string
  gpu_uuid :: string
  gpu_available_memory :: nat

record BackendRateProto =
  info :: BackendInfo
  throughput :: real

record ModelRouteProto =
  model_session_id :: string
  backend_rate :: "BackendRateProto list"

section \<open>The DRR route table (dispatcher.cpp, ModelRoute)\<close>

record ModelRoute =
  mr_model_session_id :: string
  backends :: "BackendRateProto list"
  total_throughput :: real
  min_rate :: real
  backend_quanta :: "node_id \<rightharpoonup> real"
  current_drr_index :: nat

text \<open>
  A default-constructed \<^verbatim>\<open>ModelRoute()\<close>: no backend, no quantum, index 0. The two
  doubles are assigned by the first \<^verbatim>\<open>Update\<close> before they are read.
\<close>

definition new_ModelRoute :: ModelRoute where
  "new_ModelRoute = \<lparr> mr_model_session_id = [], backends = [], total_throughput = 0,
                       min_rate = 0, backend_quanta = Map.empty, current_drr_index = 0 \<rparr>"

text \<open>\<^verbatim>\<open>std::numeric_limits<double>::max()\<close>, the largest finite double.\<close>

definition DBL_MAX :: real where
  "DBL_MAX = (2 - 1 / 2 ^ 52) * 2 ^ 1023"

text \<open>\<^verbatim>\<open>unordered_map::emplace\<close> inserts only when the key is absent.\<close>

definition emplace :: "('k \<rightharpoonup> 'v) \<Rightarrow> 'k \<Rightarrow> 'v \<Rightarrow> ('k \<rightharpoonup> 'v)" where
  "emplace m k v = (case m k of None \<Rightarrow> m(k \<mapsto> v) | Some old \<Rightarrow> m)"

text \<open>
  \<^verbatim>\<open>backends_.empty() ? 0 : backends_[current_drr_index_].info().node_id()\<close>,
  read before the backend list is replaced.
\<close>

definition current_drr_backend_id :: "ModelRoute \<Rightarrow> error + node_id" where
  "current_drr_backend_id r =
     (if backends r = [] then Inr 0
      else if current_drr_index r < length (backends r)
        then Inr (node_id (info (backends r ! current_drr_index r)))
      else Inl VectorIndexOutOfRange)"

text \<open>The loop \<^verbatim>\<open>min_rate_ = std::min(min_rate_, backend.throughput())\<close>.\<close>

fun calc_min_rate :: "real \<Rightarrow> BackendRateProto list \<Rightarrow> real" where
  "calc_min_rate m [] = m"
| "calc_min_rate m (b # bs) = calc_min_rate (min m (throughput b)) bs"

text \<open>
  The loop ``give quantum to new backends'' over \<open>i = 0 ..< backends_.size()\<close>: it adds the
  rate to the total, and emplaces the rate into the quanta and the index into the local
  \<^verbatim>\<open>backend_idx\<close>. The accumulator is (tp_total, quanta, backend_idx).
\<close>

fun give_quantum ::
  "BackendRateProto list \<Rightarrow> nat \<Rightarrow> real \<times> (node_id \<rightharpoonup> real) \<times> (node_id \<rightharpoonup> nat)
     \<Rightarrow> real \<times> (node_id \<rightharpoonup> real) \<times> (node_id \<rightharpoonup> nat)" where
  "give_quantum [] i acc = acc"
| "give_quantum (b # bs) i (tp_total, quanta, backend_idx) =
     give_quantum bs (i + 1)
       (tp_total + throughput b,
        emplace quanta (node_id (info b)) (throughput b),
        emplace backend_idx (node_id (info b)) i)"

text \<open>The loop ``remove quantum of old backends'': every key absent from
  \<^verbatim>\<open>backend_idx\<close> is erased.\<close>

definition remove_old_quanta ::
  "(node_id \<rightharpoonup> real) \<Rightarrow> (node_id \<rightharpoonup> nat) \<Rightarrow> (node_id \<rightharpoonup> real)" where
  "remove_old_quanta quanta backend_idx =
     (\<lambda>k. case backend_idx k of None \<Rightarrow> None | Some i \<Rightarrow> quanta k)"

definition Update :: "ModelRouteProto \<Rightarrow> ModelRoute \<Rightarrow> error + ModelRoute" where
  "Update route r =
     (case current_drr_backend_id r of
        Inl e \<Rightarrow> Inl e
      | Inr prev_id \<Rightarrow>
          (let bs = backend_rate route;
               m = calc_min_rate DBL_MAX bs;
               (tp_total, quanta, backend_idx) = give_quantum bs 0 (0, backend_quanta r, Map.empty);
               quanta' = remove_old_quanta quanta backend_idx;
               idx = (case backend_idx prev_id of
                        Some i \<Rightarrow> i
                      | None \<Rightarrow> if bs = [] then 0 else current_drr_index r mod length bs)
           in Inr \<lparr> mr_model_session_id = model_session_id route,
                    backends = bs,
                    total_throughput = tp_total,
                    min_rate = m,
                    backend_quanta = quanta',
                    current_drr_index = idx \<rparr>))"

text \<open>
  \<^verbatim>\<open>GetBackend\<close>. The loop variable \<open>i\<close> is an argument; the value it has when the
  function returns is given back with the result, so that the number of iterations can be
  stated. \<^verbatim>\<open>CHECK_LE(i, backends_.size())\<close> is evaluated after each iteration that did
  not return.
\<close>

function GetBackend_loop :: "nat \<Rightarrow> ModelRoute \<Rightarrow> error + (nat \<times> BackendInfo \<times> ModelRoute)" where
  "GetBackend_loop i r =
     (if length (backends r) \<le> current_drr_index r then Inl VectorIndexOutOfRange
      else
        let backend = backends r ! current_drr_index r;
            backend_id = node_id (info backend)
        in case backend_quanta r backend_id of
             None \<Rightarrow> Inl MapKeyNotFound
           | Some q \<Rightarrow>
               if min_rate r \<le> q
                 then Inr (i, info backend,
                           r\<lparr>backend_quanta := (backend_quanta r)(backend_id \<mapsto> q - min_rate r)\<rparr>)
               else if i \<le> length (backends r)
                 then GetBackend_loop (i + 1)
                        (r\<lparr>backend_quanta := (backend_quanta r)(backend_id \<mapsto> q + throughput backend),
                           current_drr_index := (current_drr_index r + 1) mod length (backends r)\<rparr>)
               else Inl FatalDRRCouldNotDecide)"
  by pat_completeness auto
termination
  by (relation "measure (\<lambda>(i, r). length (backends r) + 1 - i)") auto

declare GetBackend_loop.simps [simp del]

definition GetBackend :: "ModelRoute \<Rightarrow> error + (BackendInfo \<times> ModelRoute)" where
  "GetBackend r =
     (case GetBackend_loop 0 r of
        Inl e \<Rightarrow> Inl e
      | Inr (i, b, r') \<Rightarrow> Inr (b, r'))"

text \<open>
  \<open>n\<close> successive calls of \<^verbatim>\<open>GetBackend\<close> on the same route, collecting the
  backends returned; the first failure stops the sequence.
\<close>

fun GetBackend_calls :: "nat \<Rightarrow> ModelRoute \<Rightarrow> error + (BackendInfo list \<times> ModelRoute)" where
  "GetBackend_calls 0 r = Inr ([], r)"
| "GetBackend_calls (Suc n) r =
     (case GetBackend r of
        Inl e \<Rightarrow> Inl e
      | Inr (b, r') \<Rightarrow>
          (case GetBackend_calls n r' of
             Inl e \<Rightarrow> Inl e
           | Inr (bs, r'') \<Rightarrow> Inr (b # bs, r'')))"

subsection \<open>The algorithm of the specification, and the invariants of a route\<close>

text \<open>
  Steps 1 and 2 of the DRR algorithm as the specification words them, as a relation between
  a route and the result of a selection: if the quantum of the backend at the current index
  is at least \<open>min_rate\<close>, subtract \<open>min_rate\<close> from it and return that backend; otherwise
  add the backend's rate to its quantum, advance the index with wrap-around, and repeat.
\<close>

inductive drr_spec :: "ModelRoute \<Rightarrow> BackendInfo \<times> ModelRoute \<Rightarrow> bool" where
  drr_select:
    "current_drr_index r < length (backends r) \<Longrightarrow>
     b = backends r ! current_drr_index r \<Longrightarrow>
     backend_quanta r (node_id (info b)) = Some q \<Longrightarrow>
     min_rate r \<le> q \<Longrightarrow>
     drr_spec r (info b, r\<lparr>backend_quanta := (backend_quanta r)(node_id (info b) \<mapsto> q - min_rate r)\<rparr>)"
| drr_advance:
    "current_drr_index r < length (backends r) \<Longrightarrow>
     b = backends r ! current_drr_index r \<Longrightarrow>
     backend_quanta r (node_id (info b)) = Some q \<Longrightarrow>
     q < min_rate r \<Longrightarrow>
     drr_spec (r\<lparr>backend_quanta := (backend_quanta r)(node_id (info b) \<mapsto> q + throughput b),
                 current_drr_index := (current_drr_index r + 1) mod length (backends r)\<rparr>) res \<Longrightarrow>
     drr_spec r res"

text \<open>
  What \<^verbatim>\<open>Update\<close> establishes for a non-empty route: the index is in range and every
  listed backend has a quantum entry.
\<close>

definition route_wf :: "ModelRoute \<Rightarrow> bool" where
  "route_wf r \<longleftrightarrow>
     backends r \<noteq> [] \<and> current_drr_index r < length (backends r) \<and>
     (\<forall>b \<in> set (backends r). backend_quanta r (node_id (info b)) \<noteq> None)"

definition quanta_nonneg :: "ModelRoute \<Rightarrow> bool" where
  "quanta_nonneg r \<longleftrightarrow> (\<forall>k q. backend_quanta r k = Some q \<longrightarrow> 0 \<le> q)"

text \<open>
  The invariant of a route with positive throughputs: it is well formed, no quantum is
  negative, and \<open>min_rate\<close> is at most every throughput (\<^verbatim>\<open>Update\<close> sets it to their
  minimum).
\<close>

definition drr_inv :: "ModelRoute \<Rightarrow> bool" where
  "drr_inv r \<longleftrightarrow>
     route_wf r \<and> quanta_nonneg r \<and>
     (\<forall>b \<in> set (backends r). 0 < throughput b \<and> min_rate r \<le> throughput b)"

definition rate_pairs :: "BackendRateProto list \<Rightarrow> (node_id \<times> real) list" where
  "rate_pairs bs = map (\<lambda>b. (node_id (info b), throughput b)) bs"

definition route_ids :: "BackendRateProto list \<Rightarrow> node_id set" where
  "route_ids bs = (\<lambda>b. node_id (info b)) ` set bs"

subsection \<open>Example routes\<close>

definition ex_info :: "node_id \<Rightarrow> BackendInfo" where
  "ex_info n = \<lparr> node_id = n, ip = ''10.0.0.1'', server_port = ''8001'', rpc_port = ''8002'',
                 gpu_device_name = ''TITAN_X'', gpu_uuid = ''GPU-0'', gpu_available_memory = 0 \<rparr>"

definition ex_rate :: "node_id \<Rightarrow> real \<Rightarrow> BackendRateProto" where
  "ex_rate n t = \<lparr> info = ex_info n, throughput = t \<rparr>"

definition ex_proto :: "BackendRateProto list \<Rightarrow> ModelRouteProto" where
  "ex_proto bs = \<lparr> model_session_id = ''sess'', backend_rate = bs \<rparr>"

definition ex_route :: "BackendRateProto list \<Rightarrow> (node_id \<rightharpoonup> real) \<Rightarrow> real \<Rightarrow> nat \<Rightarrow> ModelRoute" where
  "ex_route bs q m i = \<lparr> mr_model_session_id = ''sess'', backends = bs,
       total_throughput = sum_list (map throughput bs), min_rate = m, backend_quanta = q,
       current_drr_index = i \<rparr>"

section \<open>The dispatcher (dispatcher.cpp)\<close>

subsection \<open>Messages and delegates\<close>

text \<open>
  The protobuf messages and the delegate classes are declared in files that are not part
  of the sources; the records below hold the fields that dispatcher.cpp reads and writes.
  Clock stamps and plan times are \<^verbatim>\<open>int64\<close> nanoseconds, ids are \<^verbatim>\<open>uint64\<close>.
\<close>

record ClockProto =
  frontend_recv_ns :: int
  dispatcher_recv_ns :: int
  dispatcher_sched_ns :: int
  dispatcher_dispatch_ns :: int

record QueryProto =
  query_id :: "64 word"
  q_model_session_id :: string
  global_id :: "64 word"
  clock :: ClockProto

record BatchPlanProto =
  plan_id :: "64 word"
  bp_model_session_id :: string
  queries_without_input :: "QueryProto list"
  exec_time_ns :: int
  deadline_ns :: int
  expected_finish_time_ns :: int

record ModelSession =
  framework :: string
  model_name :: string
  version :: nat
  latency_sla :: "32 word"
  image_height :: "32 word"
  image_width :: "32 word"

text \<open>
  The model profile is external and read-only: \<^verbatim>\<open>GetForwardLatency(batch)\<close> in
  microseconds, and \<^verbatim>\<open>GetMaxBatchWithFullBudget(latency_sla)\<close>.
\<close>

record ModelProfile =
  GetForwardLatency :: "nat \<Rightarrow> real"
  GetMaxBatchWithFullBudget :: "nat \<Rightarrow> nat"

record InstanceInfo =
  ii_model_session :: ModelSession
  ii_backend_id :: node_id
  profile :: ModelProfile
  max_batch :: nat

text \<open>
  Modelled from the spec: the constructor of \<^verbatim>\<open>InstanceInfo\<close> (inst_info.h is not part
  of the sources). An instance is the tuple (session, backend id, profile view) with the
  derived field \<open>max_batch\<close>, the largest batch whose forward latency fits the SLA.
\<close>

definition new_InstanceInfo :: "ModelSession \<Rightarrow> node_id \<Rightarrow> ModelProfile \<Rightarrow> InstanceInfo" where
  "new_InstanceInfo model_session backend_id p =
     \<lparr> ii_model_session = model_session, ii_backend_id = backend_id, profile = p,
       max_batch = GetMaxBatchWithFullBudget p (unat (latency_sla model_session)) \<rparr>"

text \<open>
  A backend delegate: its \<^verbatim>\<open>BackendInfo\<close>, the instances added with
  \<^verbatim>\<open>AddInstanceInfo\<close> and read with \<^verbatim>\<open>GetInstanceInfo\<close> (a null pointer for a session
  without instance), and the batch plans handed to \<^verbatim>\<open>EnqueueBatchPlan\<close>, oldest first.
\<close>

record BackendDelegate =
  backend_info :: BackendInfo
  instances :: "string \<rightharpoonup> InstanceInfo"
  enqueued :: "BatchPlanProto list"

record FrontendDelegate =
  fd_node_id :: node_id
  fd_ip :: string
  fd_server_port :: string
  fd_rpc_port :: string

record ModelSessionContext =
  ctx_model_session :: ModelSession
  ctx_instances :: "node_id \<rightharpoonup> InstanceInfo"

text \<open>
  A binary floating-point format: the number of bits of the significand and the exponent
  of the smallest normal number. \<open>fp_exponent x\<close> is the exponent of the binade of
  \<open>x\<close>, the \<open>e\<close> with \<open>2 powi e \<le> \<bar>x\<bar> < 2 powi (e + 1)\<close>, computed on integers with
  \<^const>\<open>bitlen\<close>;
  \<open>fp_round\<close> is the rounding of a real number to the nearest number of the format,
  ties to the even significand, as the conversions and the operations of IEEE 754 round
  in the default mode. The exponent has no upper bound here: where the source would reach
  an infinity the model keeps a finite number beyond the largest one of the format.
\<close>

record FloatFormat =
  precision :: nat
  emin :: int

definition binary32 :: FloatFormat where
  "binary32 = \<lparr> precision = 24, emin = - 126 \<rparr>"

definition binary64 :: FloatFormat where
  "binary64 = \<lparr> precision = 53, emin = - 1022 \<rparr>"

definition fp_exponent :: "real \<Rightarrow> int" where
  "fp_exponent x =
     (if 1 \<le> \<bar>x\<bar> then bitlen \<lfloor>\<bar>x\<bar>\<rfloor> - 1 else - bitlen (\<lceil>1 / \<bar>x\<bar>\<rceil> - 1))"

definition round_even :: "real \<Rightarrow> int" where
  "round_even y =
     (let n = \<lfloor>y\<rfloor>; d = y - real_of_int n
      in if d < 1 / 2 then n else if 1 / 2 < d then n + 1 else if even n then n else n + 1)"

definition fp_ulp :: "FloatFormat \<Rightarrow> real \<Rightarrow> real" where
  "fp_ulp f x = 2 powi (max (emin f) (fp_exponent x) - (int (precision f) - 1))"

definition fp_round :: "FloatFormat \<Rightarrow> real \<Rightarrow> real" where
  "fp_round f x = real_of_int (round_even (x / fp_ulp f x)) * fp_ulp f x"

text \<open>
  The functions of model_db and model_def that the code calls; they are parameters.
  \<^verbatim>\<open>GetModelInfo\<close> returns a null pointer for an unknown model; the entries of a model's
  info that the code reads are \<open>resizable\<close>, \<open>image_height\<close> and \<open>image_width\<close>.
  \<open>forward_latency_type\<close> is the floating-point type that \<^verbatim>\<open>GetForwardLatency\<close> returns
  (\<^verbatim>\<open>float\<close> is \<^const>\<open>binary32\<close>, \<^verbatim>\<open>double\<close> is \<^const>\<open>binary64\<close>): the class
  \<^verbatim>\<open>ModelProfile\<close> is declared in a header that is not part of the sources.
\<close>

record ModelInfo =
  resizable :: "bool option"
  mi_image_height :: "32 word"
  mi_image_width :: "32 word"

record Env =
  ParseModelSession :: "string \<Rightarrow> ModelSession"
  ModelSessionToString :: "ModelSession \<Rightarrow> string"
  ModelSessionToProfileID :: "ModelSession \<Rightarrow> string"
  ModelSessionToModelID :: "ModelSession \<Rightarrow> string"
  GetModelInfo :: "string \<Rightarrow> ModelInfo option"
  GetModelProfile :: "string \<Rightarrow> string \<Rightarrow> string \<Rightarrow> ModelProfile option"
  forward_latency_type :: FloatFormat

text \<open>
  The state of the dispatcher. \<^verbatim>\<open>backends_\<close> and \<^verbatim>\<open>sessions_\<close> are unordered maps
  that the code iterates: they are lists of pairs with distinct keys, in iteration order
  (a new key goes to the end, the order of an unordered map being unspecified).
\<close>

record Dispatcher =
  models :: "string \<rightharpoonup> ModelRoute"
  d_backends :: "(node_id \<times> BackendDelegate) list"
  d_frontends :: "node_id \<rightharpoonup> FrontendDelegate"
  d_sessions :: "(string \<times> ModelSessionContext) list"
  next_global_id :: "64 word"
  next_plan_id :: "64 word"

record DispatchReply =
  dr_status :: CtrlStatus
  dr_query_id :: "64 word"

subsection \<open>DispatchRequest\<close>

definition int64 :: "int \<Rightarrow> error + int" where
  "int64 x = (if - (2 ^ 63) \<le> x \<and> x < 2 ^ 63 then Inr x else Inl SignedOverflow)"

text \<open>Conversion of a floating-point value to \<^verbatim>\<open>int64\<close>: truncation towards zero.\<close>

definition double_to_int64 :: "real \<Rightarrow> error + int" where
  "double_to_int64 x =
     (let t = (if 0 \<le> x then \<lfloor>x\<rfloor> else \<lceil>x\<rceil>)
      in if - (2 ^ 63) \<le> t \<and> t < 2 ^ 63 then Inr t else Inl ConversionOutOfRange)"

text \<open>\<^verbatim>\<open>kNetworkLatency = microseconds(5000)\<close>, in nanoseconds.\<close>

definition kNetworkLatency_ns :: int where
  "kNetworkLatency_ns = 5000 * 1000"

text \<open>
  The part of \<^verbatim>\<open>DispatchRequest\<close> after the backend was found: it builds the batch plan
  and hands it to the backend. \<open>now\<close> and \<open>t_dispatch\<close> are the readings of the clock.
  \<^verbatim>\<open>exec_elapse_ns = GetForwardLatency(1) * 1000\<close> is a product in the floating-point
  type of the latency. In \<^verbatim>\<open>exec_time_ns + exec_elapse_ns\<close> the \<^verbatim>\<open>int64\<close> operand is
  converted to that type (the usual arithmetic conversions), the sum is formed there, and
  \<^verbatim>\<open>set_expected_finish_time_ns\<close> converts it back to \<^verbatim>\<open>int64\<close>: three roundings
  and a truncation. A sum that is infinite in the source is beyond the \<^verbatim>\<open>int64\<close> range
  here, and the conversion fails in both.
\<close>

definition build_and_enqueue ::
  "Env \<Rightarrow> int \<Rightarrow> int \<Rightarrow> QueryProto \<Rightarrow> 64 word \<Rightarrow> BackendDelegate \<Rightarrow> error + BackendDelegate" where
  "build_and_enqueue env now t_dispatch query pid backend =
     (case instances backend (q_model_session_id query) of
        None \<Rightarrow> Inl NullPointerDereference
      | Some inst_info \<Rightarrow>
          (let model_session = ParseModelSession env (q_model_session_id query) in
           case int64 (frontend_recv_ns (clock query)
                       + int (unat (latency_sla model_session)) * 1000) of
             Inl e \<Rightarrow> Inl e
           | Inr deadline \<Rightarrow>
               (case int64 (now + kNetworkLatency_ns) of
                  Inl e \<Rightarrow> Inl e
                | Inr exec_time \<Rightarrow>
                    (let fmt = forward_latency_type env;
                         exec_elapse_ns =
                           fp_round fmt (GetForwardLatency (profile inst_info) 1 * 1000);
                         finish_time_ns =
                           fp_round fmt (fp_round fmt (real_of_int exec_time) + exec_elapse_ns)
                     in case double_to_int64 finish_time_ns of
                       Inl e \<Rightarrow> Inl e
                     | Inr finish_time \<Rightarrow>
                         Inr (backend\<lparr>enqueued := enqueued backend @
                           [\<lparr> plan_id = pid,
                              bp_model_session_id = q_model_session_id query,
                              queries_without_input =
                                [query\<lparr>clock := (clock query)\<lparr>dispatcher_dispatch_ns := t_dispatch\<rparr>\<rparr>],
                              exec_time_ns = exec_time,
                              deadline_ns = deadline,
                              expected_finish_time_ns = finish_time \<rparr>]\<rparr>)))))"

text \<open>
  \<^verbatim>\<open>DispatchRequest\<close>. \<open>t_sched\<close>, \<open>now\<close> and \<open>t_dispatch\<close> are the three readings of
  the clock. The reply status is set to \<^verbatim>\<open>MODEL_NOT_FOUND\<close> only when the session id has
  no route; once a route is found, \<^verbatim>\<open>GetBackend\<close> is called without a test for an
  empty backend list and the status is set to \<^verbatim>\<open>CTRL_OK\<close>.
\<close>

definition DispatchRequest ::
  "Env \<Rightarrow> int \<Rightarrow> int \<Rightarrow> int \<Rightarrow> QueryProto \<Rightarrow> DispatchReply \<Rightarrow> Dispatcher
     \<Rightarrow> error + (DispatchReply \<times> Dispatcher)" where
  "DispatchRequest env t_sched now t_dispatch query_without_input reply d =
     (let query = query_without_input
            \<lparr>clock := (clock query_without_input)\<lparr>dispatcher_sched_ns := t_sched\<rparr>,
             global_id := next_global_id d\<rparr>;
          d1 = d\<lparr>next_global_id := next_global_id d + 1\<rparr>
      in case models d1 (q_model_session_id query) of
           None \<Rightarrow> Inr (reply\<lparr>dr_status := MODEL_NOT_FOUND\<rparr>, d1)
         | Some route \<Rightarrow>
             (case GetBackend route of
                Inl e \<Rightarrow> Inl e
              | Inr (binfo, route') \<Rightarrow>
                  (let d2 = d1\<lparr>models := (models d1)(q_model_session_id query \<mapsto> route')\<rparr>;
                       reply' = reply\<lparr>dr_status := CTRL_OK\<rparr>
                   in case map_of (d_backends d2) (node_id binfo) of
                        None \<Rightarrow> Inr (reply', d2)
                      | Some backend \<Rightarrow>
                          (case build_and_enqueue env now t_dispatch query (next_plan_id d2) backend of
                             Inl e \<Rightarrow> Inl e
                           | Inr backend' \<Rightarrow>
                               Inr (reply',
                                    d2\<lparr>next_plan_id := next_plan_id d2 + 1,
                                       d_backends := AList.update (node_id binfo) backend'
                                                       (d_backends d2)\<rparr>)))))"

subsection \<open>HandleLoadModel and HandleRegister\<close>

text \<open>
  \<^verbatim>\<open>HandleLoadModel\<close> builds the route of a new session from the registered backends,
  each with throughput 1, and adds an instance to every backend that has a profile. The
  glog check \<^verbatim>\<open>CHECK_EQ(models_.count(model_sess_id), 0)\<close> aborts the process. The
  commands sent to the backends are not part of the state.
\<close>

fun load_on_backends ::
  "Env \<Rightarrow> ModelSession \<Rightarrow> string \<Rightarrow> (node_id \<times> BackendDelegate) list
     \<Rightarrow> CtrlStatus \<times> ModelSessionContext
     \<Rightarrow> (node_id \<times> BackendDelegate) list \<times> CtrlStatus \<times> ModelSessionContext" where
  "load_on_backends env ms sid [] (st, sctx) = ([], st, sctx)"
| "load_on_backends env ms sid ((k, backend) # rest) (st, sctx) =
     (case GetModelProfile env (gpu_device_name (backend_info backend))
             (gpu_uuid (backend_info backend)) (ModelSessionToProfileID env ms) of
        None \<Rightarrow>
          (let (rest', st', sctx') =
                 load_on_backends env ms sid rest (CTRL_INVALID_LOAD_MODEL_REQUEST, sctx)
           in ((k, backend) # rest', st', sctx'))
      | Some p \<Rightarrow>
          (let inst = new_InstanceInfo ms (node_id (backend_info backend)) p;
               backend' = backend\<lparr>instances := (instances backend)(sid \<mapsto> inst)\<rparr>;
               sctx1 = sctx\<lparr>ctx_instances :=
                         (ctx_instances sctx)(node_id (backend_info backend) \<mapsto> inst)\<rparr>;
               (rest', st', sctx') = load_on_backends env ms sid rest (st, sctx1)
           in ((k, backend') # rest', st', sctx')))"

definition HandleLoadModel ::
  "Env \<Rightarrow> ModelSession \<Rightarrow> Dispatcher \<Rightarrow> error + (CtrlStatus \<times> Dispatcher)" where
  "HandleLoadModel env request_model_session d =
     (case GetModelInfo env (ModelSessionToModelID env request_model_session) of
        None \<Rightarrow> Inr (MODEL_NOT_FOUND, d)
      | Some model_info \<Rightarrow>
          (let model_sess_id = ModelSessionToString env request_model_session in
           if map_of (d_sessions d) model_sess_id \<noteq> None then Inr (CTRL_OK, d)
           else if models d model_sess_id \<noteq> None then Inl FatalCheckFailed
           else
             (let mr = \<lparr> model_session_id = model_sess_id,
                         backend_rate = map (\<lambda>(k, backend).
                            \<lparr> info = backend_info backend, throughput = 1 \<rparr>) (d_backends d) \<rparr>
              in case Update mr new_ModelRoute of
                   Inl e \<Rightarrow> Inl e
                 | Inr route \<Rightarrow>
                     (let sctx = \<lparr> ctx_model_session = request_model_session,
                                   ctx_instances = Map.empty \<rparr>;
                          (bs', st, sctx') =
                             load_on_backends env request_model_session model_sess_id
                               (d_backends d) (CTRL_OK, sctx)
                      in Inr (st, d\<lparr>models := (models d)(model_sess_id \<mapsto> route),
                                    d_sessions := d_sessions d @ [(model_sess_id, sctx')],
                                    d_backends := bs'\<rparr>)))))"

datatype NodeType = FRONTEND_NODE | BACKEND_NODE | OTHER_NODE

record RegisterRequest =
  rq_node_type :: NodeType
  rq_node_id :: node_id
  rq_server_port :: string
  rq_rpc_port :: string
  rq_gpu_device_name :: string
  rq_gpu_uuid :: string
  rq_gpu_available_memory :: nat

record RegisterReply =
  rr_status :: CtrlStatus
  rr_beacon_interval_sec :: nat

text \<open>
  The loop ``Load Models'' of \<^verbatim>\<open>HandleRegister\<close> over the sessions: a session without
  profile on the new backend sets the reply status and is skipped; otherwise the instance
  is added to the backend and to the session context.
\<close>

fun register_load_models ::
  "Env \<Rightarrow> (string \<times> ModelSessionContext) list \<Rightarrow> CtrlStatus \<times> BackendDelegate
     \<Rightarrow> (string \<times> ModelSessionContext) list \<times> CtrlStatus \<times> BackendDelegate" where
  "register_load_models env [] (st, backend) = ([], st, backend)"
| "register_load_models env ((sid, sctx) # rest) (st, backend) =
     (let model_session = ctx_model_session sctx in
      case GetModelProfile env (gpu_device_name (backend_info backend))
             (gpu_uuid (backend_info backend)) (ModelSessionToProfileID env model_session) of
        None \<Rightarrow>
          (let (rest', st', backend') =
                 register_load_models env rest (CTRL_INVALID_LOAD_MODEL_REQUEST, backend)
           in ((sid, sctx) # rest', st', backend'))
      | Some p \<Rightarrow>
          (let inst = new_InstanceInfo model_session (node_id (backend_info backend)) p;
               backend1 = backend\<lparr>instances :=
                            (instances backend)(ModelSessionToString env model_session \<mapsto> inst)\<rparr>;
               sctx' = sctx\<lparr>ctx_instances :=
                         (ctx_instances sctx)(node_id (backend_info backend) \<mapsto> inst)\<rparr>;
               (rest', st', backend') = register_load_models env rest (st, backend1)
           in ((sid, sctx') # rest', st', backend')))"

text \<open>
  \<^verbatim>\<open>HandleRegister\<close>. \<open>peer_ip\<close> is the address taken from the peer of the call,
  \<open>beacon\<close> the constant \<^verbatim>\<open>BEACON_INTERVAL_SEC\<close>. A node id that is already
  registered sets the conflict status and returns before anything is stored. The backend
  lists sent to the frontends are not part of the state.
\<close>

definition HandleRegister ::
  "Env \<Rightarrow> nat \<Rightarrow> string \<Rightarrow> RegisterRequest \<Rightarrow> RegisterReply \<Rightarrow> Dispatcher
     \<Rightarrow> RegisterReply \<times> Dispatcher" where
  "HandleRegister env beacon peer_ip request reply d =
     (case rq_node_type request of
        FRONTEND_NODE \<Rightarrow>
          (let frontend = \<lparr> fd_node_id = rq_node_id request, fd_ip = peer_ip,
                            fd_server_port = rq_server_port request,
                            fd_rpc_port = rq_rpc_port request \<rparr>
           in if d_frontends d (fd_node_id frontend) \<noteq> None
              then (reply\<lparr>rr_status := CTRL_FRONTEND_NODE_ID_CONFLICT\<rparr>, d)
              else (reply\<lparr>rr_status := CTRL_OK, rr_beacon_interval_sec := beacon\<rparr>,
                    d\<lparr>d_frontends := (d_frontends d)(fd_node_id frontend \<mapsto> frontend)\<rparr>))
      | BACKEND_NODE \<Rightarrow>
          (let backend = \<lparr> backend_info =
                             \<lparr> node_id = rq_node_id request, ip = peer_ip,
                               server_port = rq_server_port request,
                               rpc_port = rq_rpc_port request,
                               gpu_device_name = rq_gpu_device_name request,
                               gpu_uuid = rq_gpu_uuid request,
                               gpu_available_memory = rq_gpu_available_memory request \<rparr>,
                           instances = Map.empty, enqueued = [] \<rparr>;
               backend_id = node_id (backend_info backend)
           in if map_of (d_backends d) backend_id \<noteq> None
              then (reply\<lparr>rr_status := CTRL_BACKEND_NODE_ID_CONFLICT\<rparr>, d)
              else
                (let (sessions', st, backend') =
                       register_load_models env (d_sessions d) (rr_status reply, backend)
                 in (reply\<lparr>rr_status := CTRL_OK, rr_beacon_interval_sec := beacon\<rparr>,
                     d\<lparr>d_backends := d_backends d @ [(backend_id, backend')],
                       d_sessions := sessions'\<rparr>)))
      | OTHER_NODE \<Rightarrow> (reply\<lparr>rr_status := CTRL_SERVER_NOT_REGISTERED\<rparr>, d))"

subsection \<open>Example dispatcher\<close>

definition ex_session :: ModelSession where
  "ex_session = \<lparr> framework = ''tensorflow'', model_name = ''resnet'', version = 1,
                   latency_sla = 100000, image_height = 0, image_width = 0 \<rparr>"

definition ex_profile :: ModelProfile where
  "ex_profile = \<lparr> GetForwardLatency = (\<lambda>batch. 2500 * real batch),
                   GetMaxBatchWithFullBudget = (\<lambda>sla. sla div 2500) \<rparr>"

definition ex_env :: Env where
  "ex_env = \<lparr> ParseModelSession = (\<lambda>s. ex_session),
               ModelSessionToString = (\<lambda>m. ''sess''),
               ModelSessionToProfileID = (\<lambda>m. ''resnet:1''),
               ModelSessionToModelID = (\<lambda>m. ''resnet:1''),
               GetModelInfo = (\<lambda>s. Some \<lparr> resizable = None, mi_image_height = 0,
                                             mi_image_width = 0 \<rparr>),
               GetModelProfile = (\<lambda>dev uuid pid. Some ex_profile),
               forward_latency_type = binary64 \<rparr>"

definition ex_dispatcher :: Dispatcher where
  "ex_dispatcher = \<lparr> models = Map.empty, d_backends = [], d_frontends = Map.empty,
                      d_sessions = [], next_global_id = 0, next_plan_id = 0 \<rparr>"

definition ex_query :: QueryProto where
  "ex_query = \<lparr> query_id = 1, q_model_session_id = ''sess'', global_id = 0,
                 clock = \<lparr> frontend_recv_ns = 1000000000, dispatcher_recv_ns = 1000001000,
                           dispatcher_sched_ns = 0, dispatcher_dispatch_ns = 0 \<rparr> \<rparr>"

text \<open>A query received at a reading of the system clock of November 2023.\<close>

definition ex_query_epoch :: QueryProto where
  "ex_query_epoch = \<lparr> query_id = 1, q_model_session_id = ''sess'', global_id = 0,
       clock = \<lparr> frontend_recv_ns = 1700000000000000000,
                 dispatcher_recv_ns = 1700000000000000050,
                 dispatcher_sched_ns = 0, dispatcher_dispatch_ns = 0 \<rparr> \<rparr>"

definition ex_reply :: DispatchReply where
  "ex_reply = \<lparr> dr_status = CTRL_OK, dr_query_id = 1 \<rparr>"

definition ex_register :: "NodeType \<Rightarrow> node_id \<Rightarrow> RegisterRequest" where
  "ex_register t n = \<lparr> rq_node_type = t, rq_node_id = n, rq_server_port = ''8001'',
       rq_rpc_port = ''8002'', rq_gpu_device_name = ''TITAN_X'', rq_gpu_uuid = ''GPU-0'',
       rq_gpu_available_memory = 0 \<rparr>"

definition ex_register_reply :: RegisterReply where
  "ex_register_reply = \<lparr> rr_status = CTRL_OK, rr_beacon_interval_sec = 0 \<rparr>"

definition ex_backend_delegate :: "node_id \<Rightarrow> BackendDelegate" where
  "ex_backend_delegate n = \<lparr> backend_info = ex_info n,
       instances = [''sess'' \<mapsto> new_InstanceInfo ex_session n ex_profile], enqueued = [] \<rparr>"

definition ex_frontend_delegate :: "node_id \<Rightarrow> FrontendDelegate" where
  "ex_frontend_delegate n = \<lparr> fd_node_id = n, fd_ip = ''10.0.0.9'', fd_server_port = ''9001'',
       fd_rpc_port = ''9002'' \<rparr>"

text \<open>A dispatcher with frontend 5, backend 1 and a route of the session to backend 1.\<close>

definition ex_dispatcher1 :: Dispatcher where
  "ex_dispatcher1 = \<lparr> models = [''sess'' \<mapsto> ex_route [ex_rate 1 1] [1 \<mapsto> 1] 1 0],
       d_backends = [(1, ex_backend_delegate 1)],
       d_frontends = [5 \<mapsto> ex_frontend_delegate 5],
       d_sessions = [], next_global_id = 0, next_plan_id = 0 \<rparr>"

section \<open>The global scheduler (scheduler.cpp)\<close>

subsection \<open>State\<close>

text \<open>
  The scheduler's \<^verbatim>\<open>InstanceInfo\<close>, \<^verbatim>\<open>BackendDelegate\<close>, \<^verbatim>\<open>FrontendDelegate\<close> and
  \<^verbatim>\<open>SessionInfo\<close> are declared in headers that are not part of the sources. An
  instance carries the public field \<^verbatim>\<open>throughput\<close> that scheduler.cpp reads. A
  backend delegate is a value of a type \<open>'b\<close>; the methods that scheduler.cpp calls on
  it are parameters, collected in a record. A method that changes the delegate returns
  the changed delegate. \<^verbatim>\<open>PrepareLoadModel\<close> is the hypothetical placement of the
  specification: it returns the instance and the occupancy, or nothing, and changes
  nothing. The calls that only send a message (\<^verbatim>\<open>UpdateModelTableRpc\<close>,
  \<^verbatim>\<open>UpdateModelRoutesRpc\<close>) are not part of the state.
\<close>

record SchedInstanceInfo =
  inst_model_sessions :: "ModelSession list"
  inst_throughput :: real
  inst_workload :: real

record 'b BackendOps =
  bd_node_id :: "'b \<Rightarrow> node_id"
  bd_workload_id :: "'b \<Rightarrow> int"
  bd_IsIdle :: "'b \<Rightarrow> bool"
  bd_PrepareLoadModel :: "'b \<Rightarrow> ModelSession \<Rightarrow> real \<Rightarrow> (SchedInstanceInfo \<times> real) option"
  bd_LoadModel :: "'b \<Rightarrow> SchedInstanceInfo \<Rightarrow> 'b"
  bd_UnloadModel :: "'b \<Rightarrow> string \<Rightarrow> 'b"
  bd_UpdateModelThroughput :: "'b \<Rightarrow> string \<Rightarrow> real \<Rightarrow> real \<times> 'b"
  bd_GetModelWeight :: "'b \<Rightarrow> string \<Rightarrow> real"
  bd_GetInfo :: "'b \<Rightarrow> BackendInfo"
  bd_overload :: "'b \<Rightarrow> bool"
  bd_Occupancy :: "'b \<Rightarrow> real"
  inst_GetWeight :: "SchedInstanceInfo \<Rightarrow> real"

record SchedFrontend =
  sf_node_id :: node_id
  subscribe_models :: "string set"

text \<open>
  \<^verbatim>\<open>SessionInfo\<close>. \<^verbatim>\<open>backend_weights\<close> is a map that the code iterates: a list of
  pairs with distinct keys, in iteration order. \<^verbatim>\<open>workloads\<close> holds, for each frontend,
  the value that \<^verbatim>\<open>rate()\<close> of its counter returns at the beacon. \<^verbatim>\<open>rps_history\<close> is
  a deque, oldest sample first.
\<close>

record SessionInfo =
  model_sessions :: "ModelSession list"
  backend_weights :: "(node_id \<times> real) list"
  workloads :: "(node_id \<times> real) list"
  rps_history :: "real list"
  unassigned_workload :: real
  session_subscribers :: "string \<rightharpoonup> node_id set"
  backup_backends :: "node_id set"
  has_static_workload :: bool

definition new_SessionInfo :: SessionInfo where
  "new_SessionInfo = \<lparr> model_sessions = [], backend_weights = [], workloads = [],
       rps_history = [], unassigned_workload = 0, session_subscribers = Map.empty,
       backup_backends = {}, has_static_workload = False \<rparr>"

text \<open>
  Modelled from the spec: \<^verbatim>\<open>SessionInfo::SubscribeModelSession\<close> (the header of
  \<^verbatim>\<open>SessionInfo\<close> is not part of the sources). \<open>session_subscribers\<close> maps a session id
  to the set of frontend ids that subscribe to it; subscribing adds the frontend.
\<close>

definition SubscribeModelSession :: "node_id \<Rightarrow> string \<Rightarrow> SessionInfo \<Rightarrow> SessionInfo" where
  "SubscribeModelSession frontend_id model_sess_id si =
     si\<lparr>session_subscribers := (session_subscribers si)(model_sess_id \<mapsto>
          (case session_subscribers si model_sess_id of
             None \<Rightarrow> {frontend_id}
           | Some fs \<Rightarrow> insert frontend_id fs))\<rparr>"

text \<open>
  The state of the scheduler. \<^verbatim>\<open>backends_\<close> and \<^verbatim>\<open>session_table_\<close> are maps that
  the code iterates: lists of pairs with distinct keys, in iteration order. A pointer to
  a backend delegate is its entry in \<^verbatim>\<open>backends_\<close>. Every \<^verbatim>\<open>SessionInfo\<close> that
  scheduler.cpp puts into the table is freshly allocated, so no two session ids share
  one, and the table holds the values.
\<close>

record 'b Scheduler =
  sch_frontends :: "node_id \<rightharpoonup> SchedFrontend"
  sch_backends :: "(node_id \<times> 'b) list"
  session_table :: "(string \<times> SessionInfo) list"
  history_len :: nat

subsection \<open>RegisterFrontend and RegisterBackend\<close>

text \<open>
  Both begin with a glog \<^verbatim>\<open>CHECK\<close> that the node id is not registered yet; a failed
  check aborts the process. They return nothing and have no reply. \<^verbatim>\<open>AddBackend\<close>,
  which runs after the check and the insertion, is a parameter.
\<close>

definition RegisterFrontend :: "SchedFrontend \<Rightarrow> 'b Scheduler \<Rightarrow> error + 'b Scheduler" where
  "RegisterFrontend frontend s =
     (if sch_frontends s (sf_node_id frontend) \<noteq> None then Inl FatalCheckFailed
      else Inr (s\<lparr>sch_frontends := (sch_frontends s)(sf_node_id frontend \<mapsto> frontend)\<rparr>))"

definition RegisterBackend ::
  "'b BackendOps \<Rightarrow> ('b \<Rightarrow> 'b Scheduler \<Rightarrow> error + 'b Scheduler) \<Rightarrow> 'b \<Rightarrow> 'b Scheduler
     \<Rightarrow> error + 'b Scheduler" where
  "RegisterBackend ops AddBackend backend s =
     (if map_of (sch_backends s) (bd_node_id ops backend) \<noteq> None then Inl FatalCheckFailed
      else AddBackend backend
             (s\<lparr>sch_backends := sch_backends s @ [(bd_node_id ops backend, backend)]\<rparr>))"

subsection \<open>FindBestBackend\<close>

text \<open>
  A \<^verbatim>\<open>ModelLoad\<close> tuple (backend, instance, occupancy); \<open>None\<close> is the tuple whose
  backend pointer is null.
\<close>

type_synonym 'b ModelLoad = "((node_id \<times> 'b) \<times> SchedInstanceInfo \<times> real) option"

text \<open>One iteration of the loop over \<^verbatim>\<open>backends_\<close>, on the pair
  (\<^verbatim>\<open>max_tp_load\<close>, \<^verbatim>\<open>max_occ_load\<close>).\<close>

definition consider_backend ::
  "'b BackendOps \<Rightarrow> ModelSession \<Rightarrow> real \<Rightarrow> node_id set
     \<Rightarrow> 'b ModelLoad \<times> 'b ModelLoad \<Rightarrow> node_id \<times> 'b \<Rightarrow> 'b ModelLoad \<times> 'b ModelLoad" where
  "consider_backend ops model_sess request_rate skips loads entry =
     (let backend = snd entry; max_tp_load = fst loads; max_occ_load = snd loads in
      if bd_node_id ops backend \<in> skips then loads
      else if 0 \<le> bd_workload_id ops backend then loads
      else if \<bar>request_rate\<bar> < 1 / 1000 \<and> \<not> bd_IsIdle ops backend then loads
      else
        (case bd_PrepareLoadModel ops backend model_sess request_rate of
           None \<Rightarrow> loads
         | Some (tmp_info, occupancy) \<Rightarrow>
             ((case max_tp_load of
                 None \<Rightarrow> Some (entry, tmp_info, occupancy)
               | Some (b, i, oc) \<Rightarrow>
                   if inst_throughput i < inst_throughput tmp_info
                   then Some (entry, tmp_info, occupancy) else max_tp_load),
              (case max_occ_load of
                 None \<Rightarrow> Some (entry, tmp_info, occupancy)
               | Some (b, i, oc) \<Rightarrow>
                   if oc < occupancy
                   then Some (entry, tmp_info, occupancy) else max_occ_load))))"

text \<open>
  \<^verbatim>\<open>FindBestBackend\<close>: the result is the backend and the instance of the chosen tuple,
  \<open>None\<close> when the chosen backend pointer is null (the callers test it).
\<close>

definition FindBestBackend ::
  "'b BackendOps \<Rightarrow> ModelSession \<Rightarrow> real \<Rightarrow> node_id set \<Rightarrow> (node_id \<times> 'b) list
     \<Rightarrow> ((node_id \<times> 'b) \<times> SchedInstanceInfo) option" where
  "FindBestBackend ops model_sess request_rate skips bs =
     (let loads = foldl (consider_backend ops model_sess request_rate skips) (None, None) bs;
          max_tp_load = fst loads; max_occ_load = snd loads
      in if \<bar>request_rate\<bar> < 1 / 1000
           then map_option (\<lambda>(b, i, oc). (b, i)) max_tp_load
         else
           (case max_tp_load of
              None \<Rightarrow> None
            | Some (b, i, oc) \<Rightarrow>
                if inst_throughput i < request_rate then Some (b, i)
                else map_option (\<lambda>(b, i, oc). (b, i)) max_occ_load))"

text \<open>
  The candidates in the words of the specification: every backend with
  \<open>workload_id < 0\<close> that is not in the skip set and, when the request rate is about 0,
  is idle, for which \<^verbatim>\<open>PrepareLoadModel\<close> succeeds; with the instance and the occupancy.
\<close>

definition candidate ::
  "'b BackendOps \<Rightarrow> ModelSession \<Rightarrow> real \<Rightarrow> node_id set \<Rightarrow> node_id \<times> 'b
     \<Rightarrow> ((node_id \<times> 'b) \<times> SchedInstanceInfo \<times> real) option" where
  "candidate ops model_sess request_rate skips entry =
     (if bd_workload_id ops (snd entry) < 0 \<and> bd_node_id ops (snd entry) \<notin> skips \<and>
         (\<bar>request_rate\<bar> < 1 / 1000 \<longrightarrow> bd_IsIdle ops (snd entry))
      then map_option (\<lambda>(i, oc). (entry, i, oc))
             (bd_PrepareLoadModel ops (snd entry) model_sess request_rate)
      else None)"

definition candidates ::
  "'b BackendOps \<Rightarrow> ModelSession \<Rightarrow> real \<Rightarrow> node_id set \<Rightarrow> (node_id \<times> 'b) list
     \<Rightarrow> ((node_id \<times> 'b) \<times> SchedInstanceInfo \<times> real) list" where
  "candidates ops model_sess request_rate skips bs =
     List.map_filter (candidate ops model_sess request_rate skips) bs"

subsection \<open>LoadModel\<close>

record LoadModelRequest =
  lm_node_id :: node_id
  lm_model_session :: ModelSession
  estimate_workload :: real

record LoadModelReply =
  lm_status :: CtrlStatus
  lm_model_route :: ModelRouteProto

fun route_entries ::
  "'b BackendOps \<Rightarrow> (node_id \<times> 'b) list \<Rightarrow> (node_id \<times> real) list
     \<Rightarrow> error + BackendRateProto list" where
  "route_entries ops bs [] = Inr []"
| "route_entries ops bs ((k, w) # ws) =
     (case map_of bs k of
        None \<Rightarrow> Inl MapKeyNotFound
      | Some b \<Rightarrow>
          (case route_entries ops bs ws of
             Inl e \<Rightarrow> Inl e
           | Inr rs \<Rightarrow> Inr (\<lparr> info = bd_GetInfo ops b, throughput = w \<rparr> # rs)))"

definition GetModelRoute ::
  "'b BackendOps \<Rightarrow> 'b Scheduler \<Rightarrow> string \<Rightarrow> error + ModelRouteProto" where
  "GetModelRoute ops s model_sess_id =
     (case map_of (session_table s) model_sess_id of
        None \<Rightarrow> Inl MapKeyNotFound
      | Some si \<Rightarrow>
          (case route_entries ops (sch_backends s) (backend_weights si) of
             Inl e \<Rightarrow> Inl e
           | Inr rs \<Rightarrow> Inr \<lparr> model_session_id = model_sess_id, backend_rate = rs \<rparr>))"

text \<open>
  The loop \<^verbatim>\<open>while (workload > 1e-3)\<close> of \<^verbatim>\<open>LoadModel\<close>: it calls
  \<^verbatim>\<open>FindBestBackend\<close> with the growing set \<open>used\<close> and collects the assignments;
  \<open>None\<close> is the early return with \<^verbatim>\<open>NOT_ENOUGH_BACKENDS\<close>. Each round adds to \<open>used\<close>
  the id of a backend that was not in it, so the loop ends.
\<close>

function place_loop ::
  "'b BackendOps \<Rightarrow> ModelSession \<Rightarrow> (node_id \<times> 'b) list \<Rightarrow> real \<Rightarrow> node_id set
     \<Rightarrow> ((node_id \<times> 'b) \<times> SchedInstanceInfo) list
     \<Rightarrow> ((node_id \<times> 'b) \<times> SchedInstanceInfo) list option" where
  "place_loop ops model_sess bs workload used assign_backends =
     (if 1 / 1000 < workload then
        (case FindBestBackend ops model_sess workload used bs of
           None \<Rightarrow> None
         | Some (backend, inst_info) \<Rightarrow>
             place_loop ops model_sess bs (workload - inst_throughput inst_info)
               (insert (bd_node_id ops (snd backend)) used)
               (assign_backends @ [(backend, inst_info)]))
      else Some assign_backends)"
  by pat_completeness auto

lemma candidates_append:
  "candidates ops ms rate skips (xs @ ys)
     = candidates ops ms rate skips xs @ candidates ops ms rate skips ys"
  by (simp add: candidates_def map_filter_def)

lemma candidates_single:
  "candidates ops ms rate skips [x]
     = (case candidate ops ms rate skips x of None \<Rightarrow> [] | Some c \<Rightarrow> [c])"
  by (simp add: candidates_def map_filter_def split: option.splits)

lemma candidates_mem:
  assumes "(entry, i, oc) \<in> set (candidates ops ms rate skips bs)"
  shows "entry \<in> set bs \<and> bd_workload_id ops (snd entry) < 0 \<and>
         bd_node_id ops (snd entry) \<notin> skips \<and>
         (\<bar>rate\<bar> < 1 / 1000 \<longrightarrow> bd_IsIdle ops (snd entry)) \<and>
         bd_PrepareLoadModel ops (snd entry) ms rate = Some (i, oc)"
proof -
  from assms obtain x where x: "x \<in> set bs" and c: "candidate ops ms rate skips x = Some (entry, i, oc)"
    by (auto simp: candidates_def map_filter_def)
  from c have "x = entry"
    by (auto simp: candidate_def split: if_splits)
  with x c show ?thesis
    by (auto simp: candidate_def split: if_splits)
qed

lemma consider_backend_candidate:
  "consider_backend ops ms rate skips loads x =
     (case candidate ops ms rate skips x of
        None \<Rightarrow> loads
      | Some (e, tmp_info, occupancy) \<Rightarrow>
          ((case fst loads of
              None \<Rightarrow> Some (e, tmp_info, occupancy)
            | Some (b, i, oc) \<Rightarrow>
                if inst_throughput i < inst_throughput tmp_info
                then Some (e, tmp_info, occupancy) else fst loads),
           (case snd loads of
              None \<Rightarrow> Some (e, tmp_info, occupancy)
            | Some (b, i, oc) \<Rightarrow>
                if oc < occupancy then Some (e, tmp_info, occupancy) else snd loads)))"
  by (cases loads)
     (auto simp: consider_backend_def candidate_def Let_def split: option.splits)

text \<open>
  After the loop over a list of backends, each of the two tuples is unset exactly when
  there is no candidate; otherwise it is a candidate, the first of maximal throughput and
  the first of maximal occupancy.
\<close>

lemma fold_consider_backend:
  fixes ops :: "'b BackendOps"
  defines "tp \<equiv> (\<lambda>c :: (node_id \<times> 'b) \<times> SchedInstanceInfo \<times> real. inst_throughput (fst (snd c)))"
    and "occ \<equiv> (\<lambda>c :: (node_id \<times> 'b) \<times> SchedInstanceInfo \<times> real. snd (snd c))"
  shows
  "(case fst (foldl (consider_backend ops ms rate skips) (None, None) bs) of
      None \<Rightarrow> candidates ops ms rate skips bs = []
    | Some t \<Rightarrow> t \<in> set (candidates ops ms rate skips bs) \<and>
        (\<forall>c \<in> set (candidates ops ms rate skips bs). tp c \<le> tp t)) \<and>
   (case snd (foldl (consider_backend ops ms rate skips) (None, None) bs) of
      None \<Rightarrow> candidates ops ms rate skips bs = []
    | Some t \<Rightarrow> t \<in> set (candidates ops ms rate skips bs) \<and>
        (\<forall>c \<in> set (candidates ops ms rate skips bs). occ c \<le> occ t))"
proof (induction bs rule: rev_induct)
  case Nil
  show ?case by (simp add: candidates_def)
next
  case (snoc x xs)
  let ?loads = "foldl (consider_backend ops ms rate skips) (None, None) xs"
  have step: "foldl (consider_backend ops ms rate skips) (None, None) (xs @ [x])
      = consider_backend ops ms rate skips ?loads x" by simp
  show ?case
  proof (cases "candidate ops ms rate skips x")
    case None
    then have e1: "candidates ops ms rate skips (xs @ [x]) = candidates ops ms rate skips xs"
      by (simp add: candidates_append candidates_single)
    from None have e2: "consider_backend ops ms rate skips ?loads x = ?loads"
      by (simp add: consider_backend_candidate)
    show ?thesis unfolding step e2 e1 by (rule snoc.IH)
  next
    case (Some c0)
    obtain e ti to where c0: "c0 = (e, ti, to)" by (cases c0) auto
    let ?c = "(e, ti, to)"
    from Some c0 have Some': "candidate ops ms rate skips x = Some ?c" by simp
    have cs: "candidates ops ms rate skips (xs @ [x]) = candidates ops ms rate skips xs @ [?c]"
      using Some' by (simp add: candidates_append candidates_single)
    have cb: "consider_backend ops ms rate skips ?loads x =
       ((case fst ?loads of None \<Rightarrow> Some ?c
         | Some (b, i, oc) \<Rightarrow> if inst_throughput i < inst_throughput ti then Some ?c else fst ?loads),
        (case snd ?loads of None \<Rightarrow> Some ?c
         | Some (b, i, oc) \<Rightarrow> if oc < to then Some ?c else snd ?loads))"
      using Some' by (simp add: consider_backend_candidate)
    have a: "case fst (consider_backend ops ms rate skips ?loads x) of
        None \<Rightarrow> candidates ops ms rate skips (xs @ [x]) = []
      | Some t \<Rightarrow> t \<in> set (candidates ops ms rate skips (xs @ [x])) \<and>
          (\<forall>c \<in> set (candidates ops ms rate skips (xs @ [x])). tp c \<le> tp t)"
    proof (cases "fst ?loads")
      case None
      with snoc.IH have "candidates ops ms rate skips xs = []" by simp
      with None cb cs show ?thesis by simp
    next
      case (Some t)
      obtain b i oc where t: "t = (b, i, oc)" by (cases t) auto
      from snoc.IH Some have ih: "t \<in> set (candidates ops ms rate skips xs)"
        "\<forall>c \<in> set (candidates ops ms rate skips xs). tp c \<le> tp t" by simp_all
      show ?thesis
      proof (cases "inst_throughput i < inst_throughput ti")
        case True
        have "\<forall>c' \<in> set (candidates ops ms rate skips xs). tp c' \<le> tp ?c"
        proof
          fix c' assume "c' \<in> set (candidates ops ms rate skips xs)"
          with ih(2) have "tp c' \<le> tp t" by blast
          also have "tp t \<le> tp ?c" using True t by (simp add: tp_def)
          finally show "tp c' \<le> tp ?c" .
        qed
        with True Some t cb cs show ?thesis by simp
      next
        case False
        then have "tp ?c \<le> tp t" using t by (simp add: tp_def)
        with False Some t cb cs ih show ?thesis by simp
      qed
    qed
    have b: "case snd (consider_backend ops ms rate skips ?loads x) of
        None \<Rightarrow> candidates ops ms rate skips (xs @ [x]) = []
      | Some t \<Rightarrow> t \<in> set (candidates ops ms rate skips (xs @ [x])) \<and>
          (\<forall>c \<in> set (candidates ops ms rate skips (xs @ [x])). occ c \<le> occ t)"
    proof (cases "snd ?loads")
      case None
      with snoc.IH have "candidates ops ms rate skips xs = []" by simp
      with None cb cs show ?thesis by simp
    next
      case (Some t)
      obtain b i oc where t: "t = (b, i, oc)" by (cases t) auto
      from snoc.IH Some have ih: "t \<in> set (candidates ops ms rate skips xs)"
        "\<forall>c \<in> set (candidates ops ms rate skips xs). occ c \<le> occ t" by simp_all
      show ?thesis
      proof (cases "oc < to")
        case True
        have "\<forall>c' \<in> set (candidates ops ms rate skips xs). occ c' \<le> occ ?c"
        proof
          fix c' assume "c' \<in> set (candidates ops ms rate skips xs)"
          with ih(2) have "occ c' \<le> occ t" by blast
          also have "occ t \<le> occ ?c" using True t by (simp add: occ_def)
          finally show "occ c' \<le> occ ?c" .
        qed
        with True Some t cb cs show ?thesis by simp
      next
        case False
        then have "occ ?c \<le> occ t" using t by (simp add: occ_def)
        with False Some t cb cs ih show ?thesis by simp
      qed
    qed
    from a b step show ?thesis by simp
  qed
qed

lemma FindBestBackend_is_candidate:
  assumes "FindBestBackend ops ms rate skips bs = Some (entry, inst)"
  shows "\<exists>oc. (entry, inst, oc) \<in> set (candidates ops ms rate skips bs)"
proof -
  let ?loads = "foldl (consider_backend ops ms rate skips) (None, None) bs"
  note inv = fold_consider_backend[of ops ms rate skips bs]
  from assms have "(\<exists>oc. fst ?loads = Some (entry, inst, oc)) \<or>
       (\<exists>oc. snd ?loads = Some (entry, inst, oc))"
    by (auto simp: FindBestBackend_def Let_def split: if_splits option.splits)
  then show ?thesis
  proof
    assume "\<exists>oc. fst ?loads = Some (entry, inst, oc)"
    then obtain oc where "fst ?loads = Some (entry, inst, oc)" ..
    with inv show ?thesis by auto
  next
    assume "\<exists>oc. snd ?loads = Some (entry, inst, oc)"
    then obtain oc where "snd ?loads = Some (entry, inst, oc)" ..
    with inv show ?thesis by auto
  qed
qed

lemma FindBestBackend_fresh:
  assumes "FindBestBackend ops ms rate skips bs = Some (entry, inst)"
  shows "entry \<in> set bs \<and> bd_node_id ops (snd entry) \<notin> skips"
  using FindBestBackend_is_candidate[OF assms] candidates_mem by blast

termination place_loop
proof (relation "measure (\<lambda>(ops, ms, bs, workload, used, acc).
          card {e \<in> set bs. bd_node_id ops (snd e) \<notin> used})")
  show "wf (measure (\<lambda>(ops, ms, bs, workload, used, acc).
          card {e \<in> set bs. bd_node_id ops (snd e) \<notin> used}))" by simp
next
  fix ops :: "'b BackendOps" and model_sess bs workload used
    and assign_backends :: "((node_id \<times> 'b) \<times> SchedInstanceInfo) list"
    and x2 backend inst_info
  assume "FindBestBackend ops model_sess workload used bs = Some x2"
    and "(backend, inst_info) = x2"
  then have fb: "FindBestBackend ops model_sess workload used bs = Some (backend, inst_info)"
    by simp
  from FindBestBackend_fresh[OF fb]
  have mem: "backend \<in> set bs" and fresh: "bd_node_id ops (snd backend) \<notin> used" by simp_all
  let ?A = "{e \<in> set bs. bd_node_id ops (snd e) \<notin> insert (bd_node_id ops (snd backend)) used}"
  let ?B = "{e \<in> set bs. bd_node_id ops (snd e) \<notin> used}"
  have "?A \<subset> ?B" using mem fresh by auto
  moreover have "finite ?B" by simp
  ultimately have "card ?A < card ?B" by (rule psubset_card_mono[rotated])
  then show "((ops, model_sess, bs, workload - inst_throughput inst_info,
               insert (bd_node_id ops (snd backend)) used, assign_backends @ [(backend, inst_info)]),
              (ops, model_sess, bs, workload, used, assign_backends))
             \<in> measure (\<lambda>(ops, ms, bs, workload, used, acc).
                  card {e \<in> set bs. bd_node_id ops (snd e) \<notin> used})"
    by simp
qed

declare place_loop.simps [simp del]

text \<open>
  The placement of \<^verbatim>\<open>LoadModel\<close>: one call of \<^verbatim>\<open>FindBestBackend\<close> for a workload
  of exactly 0, the loop otherwise.
\<close>

definition find_assign_backends ::
  "'b BackendOps \<Rightarrow> ModelSession \<Rightarrow> real \<Rightarrow> (node_id \<times> 'b) list
     \<Rightarrow> ((node_id \<times> 'b) \<times> SchedInstanceInfo) list option" where
  "find_assign_backends ops model_sess workload bs =
     (if workload = 0 then
        (case FindBestBackend ops model_sess workload {} bs of
           None \<Rightarrow> None
         | Some (backend, inst_info) \<Rightarrow> Some [(backend, inst_info)])
      else place_loop ops model_sess bs workload {} [])"

text \<open>
  The loop ``Load models'': \<^verbatim>\<open>LoadModel\<close> on the delegate the pointer refers to, and
  the weight emplaced under the delegate's node id.
\<close>

fun load_models ::
  "'b BackendOps \<Rightarrow> ((node_id \<times> 'b) \<times> SchedInstanceInfo) list
     \<Rightarrow> (node_id \<times> 'b) list \<times> (node_id \<times> real) list
     \<Rightarrow> (node_id \<times> 'b) list \<times> (node_id \<times> real) list" where
  "load_models ops [] acc = acc"
| "load_models ops ((backend, inst_info) # rest) (bs, weights) =
     (let b = (case map_of bs (fst backend) of None \<Rightarrow> snd backend | Some cur \<Rightarrow> cur);
          b' = bd_LoadModel ops b inst_info;
          k = bd_node_id ops b'
      in load_models ops rest
           (AList.update (fst backend) b' bs,
            if map_of weights k = None then weights @ [(k, inst_GetWeight ops inst_info)]
            else weights))"

text \<open>
  The default image size of a resizable model is filled in when the session has height 0.
\<close>

definition default_image_size :: "ModelInfo \<Rightarrow> ModelSession \<Rightarrow> ModelSession" where
  "default_image_size model_info model_sess =
     (if resizable model_info = Some True \<and> image_height model_sess = 0
      then model_sess\<lparr>image_height := mi_image_height model_info,
                      image_width := mi_image_width model_info\<rparr>
      else model_sess)"

definition LoadModel ::
  "'b BackendOps \<Rightarrow> Env \<Rightarrow> LoadModelRequest \<Rightarrow> LoadModelReply \<Rightarrow> 'b Scheduler
     \<Rightarrow> error + (LoadModelReply \<times> 'b Scheduler)" where
  "LoadModel ops env request reply s =
     (case GetModelInfo env (ModelSessionToModelID env (lm_model_session request)) of
        None \<Rightarrow> Inr (reply\<lparr>lm_status := MODEL_NOT_FOUND\<rparr>, s)
      | Some model_info \<Rightarrow>
          (let model_sess = default_image_size model_info (lm_model_session request);
               model_sess_id = ModelSessionToString env model_sess;
               workload = estimate_workload request
           in case sch_frontends s (lm_node_id request) of
                None \<Rightarrow> Inr (reply\<lparr>lm_status := CTRL_SERVER_NOT_REGISTERED\<rparr>, s)
              | Some frontend \<Rightarrow>
                  (case map_of (session_table s) model_sess_id of
                     Some session_info \<Rightarrow>
                       (case GetModelRoute ops s model_sess_id of
                          Inl e \<Rightarrow> Inl e
                        | Inr route \<Rightarrow>
                            Inr (reply\<lparr>lm_status := CTRL_OK, lm_model_route := route\<rparr>,
                                 s\<lparr>sch_frontends := (sch_frontends s)(lm_node_id request \<mapsto>
                                       frontend\<lparr>subscribe_models :=
                                         insert model_sess_id (subscribe_models frontend)\<rparr>),
                                   session_table := AList.update model_sess_id
                                       (SubscribeModelSession (sf_node_id frontend) model_sess_id
                                          session_info)
                                       (session_table s)\<rparr>))
                   | None \<Rightarrow>
                       (case find_assign_backends ops model_sess workload (sch_backends s) of
                          None \<Rightarrow> Inr (reply\<lparr>lm_status := NOT_ENOUGH_BACKENDS\<rparr>, s)
                        | Some assign_backends \<Rightarrow>
                            (let (bs', weights) =
                                   load_models ops assign_backends (sch_backends s, []);
                                 session_info =
                                   SubscribeModelSession (sf_node_id frontend) model_sess_id
                                     (new_SessionInfo\<lparr>backend_weights := weights,
                                                      model_sessions := [model_sess]\<rparr>);
                                 s' = s\<lparr>sch_backends := bs',
                                        session_table := session_table s @ [(model_sess_id, session_info)],
                                        sch_frontends := (sch_frontends s)(lm_node_id request \<mapsto>
                                          frontend\<lparr>subscribe_models :=
                                            insert model_sess_id (subscribe_models frontend)\<rparr>)\<rparr>
                             in case GetModelRoute ops s' model_sess_id of
                                  Inl e \<Rightarrow> Inl e
                                | Inr route \<Rightarrow>
                                    Inr (reply\<lparr>lm_status := CTRL_OK, lm_model_route := route\<rparr>,
                                         s'))))))"

subsection \<open>BeaconCheck\<close>

text \<open>\<^verbatim>\<open>rps += std::max(0., wk_iter.second->rate())\<close> over the workloads of a session.\<close>

definition aggregate_rps :: "(node_id \<times> real) list \<Rightarrow> real" where
  "aggregate_rps wl = foldl (\<lambda>rps wk. rps + max 0 (snd wk)) 0 wl"

text \<open>
  The two tests on \<^verbatim>\<open>rps_history\<close>: the sample is pushed at the back unless the
  history is empty and the sample not positive; then the front is popped when the size
  exceeds \<open>history_len\<close>.
\<close>

definition push_history :: "nat \<Rightarrow> real \<Rightarrow> real list \<Rightarrow> real list" where
  "push_history hl rps h =
     (let h1 = (if 0 < length h \<or> 0 < rps then h @ [rps] else h)
      in if hl < length h1 then tl h1 else h1)"

definition beacon_session :: "nat \<Rightarrow> string \<times> SessionInfo \<Rightarrow> string \<times> SessionInfo" where
  "beacon_session hl entry =
     (fst entry,
      (snd entry)\<lparr>rps_history :=
         push_history hl (aggregate_rps (workloads (snd entry))) (rps_history (snd entry))\<rparr>)"

text \<open>
  The loop that decides the trigger. \<^verbatim>\<open>rps_history[history_len_ - 1]\<close> is read for
  every session whose history has at least \<open>history_len\<close> samples; with
  \<open>history_len = 0\<close> the index wraps and the read is out of range.
  \<^verbatim>\<open>TotalThroughput()\<close> of \<^verbatim>\<open>SessionInfo\<close> is a parameter.
\<close>

fun check_trigger ::
  "(SessionInfo \<Rightarrow> real) \<Rightarrow> nat \<Rightarrow> (string \<times> SessionInfo) list \<Rightarrow> error + bool" where
  "check_trigger TotalThroughput hl [] = Inr False"
| "check_trigger TotalThroughput hl ((model_sess_id, session_info) # rest) =
     (if length (rps_history session_info) < hl then check_trigger TotalThroughput hl rest
      else if hl = 0 then Inl VectorIndexOutOfRange
      else
        (let estimate_rps = max (rps_history session_info ! (hl - 1)) (1 / 10);
             throughput = TotalThroughput session_info
         in if estimate_rps < throughput * (8 / 10) \<or> throughput * (11 / 10) < estimate_rps
            then Inr True
            else check_trigger TotalThroughput hl rest))"

definition BeaconCheck ::
  "(SessionInfo \<Rightarrow> real) \<Rightarrow> 'b Scheduler \<Rightarrow> error + (bool \<times> 'b Scheduler)" where
  "BeaconCheck TotalThroughput s =
     (let s' = s\<lparr>session_table := map (beacon_session (history_len s)) (session_table s)\<rparr>
      in case check_trigger TotalThroughput (history_len s') (session_table s') of
           Inl e \<Rightarrow> Inl e
         | Inr trigger \<Rightarrow> Inr (trigger, s'))"

text \<open>
  The condition of the specification on one session: its history is full and the
  estimate, the last sample but at least 0.1, is below 0.8 times or above 1.1 times the
  total throughput.
\<close>

definition needs_epoch :: "(SessionInfo \<Rightarrow> real) \<Rightarrow> nat \<Rightarrow> SessionInfo \<Rightarrow> bool" where
  "needs_epoch TotalThroughput hl si \<longleftrightarrow>
     length (rps_history si) = hl \<and>
     (max (last (rps_history si)) (1 / 10) < (8 / 10) * TotalThroughput si \<or>
      (11 / 10) * TotalThroughput si < max (last (rps_history si)) (1 / 10))"

text \<open>
  The history update in the words of the specification: the aggregated rate is appended
  and the history keeps its last \<open>history_len\<close> samples, except that a sample of 0 is
  not appended to an empty history.
\<close>

definition history_spec :: "nat \<Rightarrow> (node_id \<times> real) list \<Rightarrow> real list \<Rightarrow> real list" where
  "history_spec hl wl h =
     (let rps = sum_list (map (\<lambda>wk. max 0 (snd wk)) wl)
      in if h = [] \<and> rps = 0 then []
         else drop (length (h @ [rps]) - hl) (h @ [rps]))"

subsection \<open>EpochSchedule: the adjustment of one session\<close>

text \<open>
  The first loop over \<^verbatim>\<open>backend_weights\<close>: a backend with a static workload
  (\<open>workload_id \<ge> 0\<close>) has its weight subtracted from the estimate, the others are
  collected in \<^verbatim>\<open>adjust_backends\<close>. \<^verbatim>\<open>backends_.at\<close> throws for an unknown id.
\<close>

fun partition_static ::
  "'b BackendOps \<Rightarrow> (node_id \<times> 'b) list \<Rightarrow> (node_id \<times> real) list \<Rightarrow> real
     \<Rightarrow> (node_id \<times> real) list \<Rightarrow> error + (real \<times> (node_id \<times> real) list)" where
  "partition_static ops bs [] estimate_rps adjust_backends = Inr (estimate_rps, adjust_backends)"
| "partition_static ops bs (iter # rest) estimate_rps adjust_backends =
     (case map_of bs (fst iter) of
        None \<Rightarrow> Inl MapKeyNotFound
      | Some backend \<Rightarrow>
          if 0 \<le> bd_workload_id ops backend
          then partition_static ops bs rest (estimate_rps - snd iter) adjust_backends
          else partition_static ops bs rest estimate_rps (adjust_backends @ [iter]))"

text \<open>
  \<^verbatim>\<open>std::sort\<close> with the comparator \<open>a.second > b.second\<close>: descending by weight. The
  order of equal weights is unspecified; the model keeps it.
\<close>

definition sort_desc :: "(node_id \<times> real) list \<Rightarrow> (node_id \<times> real) list" where
  "sort_desc xs = sort_key (\<lambda>p. - snd p) xs"

text \<open>
  The walk of the release branch over the sorted \<^verbatim>\<open>adjust_backends\<close>, on the state
  (estimate, backends, \<^verbatim>\<open>backend_weights\<close> of the session).
\<close>

fun release_walk ::
  "'b BackendOps \<Rightarrow> string \<Rightarrow> (node_id \<times> real) list
     \<Rightarrow> real \<times> (node_id \<times> 'b) list \<times> (node_id \<times> real) list
     \<Rightarrow> error + (real \<times> (node_id \<times> 'b) list \<times> (node_id \<times> real) list)" where
  "release_walk ops model_sess_id [] st = Inr st"
| "release_walk ops model_sess_id (iter # rest) (estimate_rps, bs, weights) =
     (if estimate_rps < 1 / 1000 then
        (case map_of bs (fst iter) of
           None \<Rightarrow> Inl MapKeyNotFound
         | Some backend \<Rightarrow>
             release_walk ops model_sess_id rest
               (estimate_rps,
                AList.update (fst iter) (bd_UnloadModel ops backend model_sess_id) bs,
                AList.delete (fst iter) weights))
      else if estimate_rps < snd iter then
        (case map_of bs (fst iter) of
           None \<Rightarrow> Inl MapKeyNotFound
         | Some backend \<Rightarrow>
             (let res = bd_UpdateModelThroughput ops backend model_sess_id estimate_rps;
                  new_tp = fst res; backend' = snd res
              in release_walk ops model_sess_id rest
                   (estimate_rps - new_tp,
                    AList.update (fst iter) backend' bs,
                    AList.update (fst iter) (bd_GetModelWeight ops backend' model_sess_id)
                      weights)))
      else release_walk ops model_sess_id rest (estimate_rps - snd iter, bs, weights))"

text \<open>
  The walk of the grow branch; it also collects the backends that become overloaded.
\<close>

fun grow_walk ::
  "'b BackendOps \<Rightarrow> string \<Rightarrow> (node_id \<times> real) list
     \<Rightarrow> real \<times> (node_id \<times> 'b) list \<times> (node_id \<times> real) list \<times> node_id list
     \<Rightarrow> error + (real \<times> (node_id \<times> 'b) list \<times> (node_id \<times> real) list \<times> node_id list)" where
  "grow_walk ops model_sess_id [] st = Inr st"
| "grow_walk ops model_sess_id (iter # rest) (estimate_rps, bs, weights, overload_backends) =
     (case map_of bs (fst iter) of
        None \<Rightarrow> Inl MapKeyNotFound
      | Some backend \<Rightarrow>
          if estimate_rps < 1 / 1000 then
            grow_walk ops model_sess_id rest
              (estimate_rps,
               AList.update (fst iter) (bd_UnloadModel ops backend model_sess_id) bs,
               AList.delete (fst iter) weights, overload_backends)
          else
            (let res = bd_UpdateModelThroughput ops backend model_sess_id estimate_rps;
                 new_tp = fst res; backend' = snd res
             in grow_walk ops model_sess_id rest
                  (estimate_rps - new_tp,
                   AList.update (fst iter) backend' bs,
                   AList.update (fst iter) (bd_GetModelWeight ops backend' model_sess_id) weights,
                   if bd_overload ops backend' \<and> 105 / 100 < bd_Occupancy ops backend'
                   then overload_backends @ [fst iter] else overload_backends)))"

text \<open>
  The body of the first loop of \<^verbatim>\<open>EpochSchedule\<close> for one entry of the session
  table. The result is the session, the backends, the overloaded backends and whether
  the session was put into \<^verbatim>\<open>changed_sessions\<close>. The mean and the deviation of the
  history are only logged.
\<close>

definition EpochSchedule_session ::
  "'b BackendOps \<Rightarrow> (SessionInfo \<Rightarrow> real) \<Rightarrow> nat \<Rightarrow> string \<Rightarrow> SessionInfo
     \<Rightarrow> (node_id \<times> 'b) list \<Rightarrow> node_id list
     \<Rightarrow> error + (SessionInfo \<times> (node_id \<times> 'b) list \<times> node_id list \<times> bool)" where
  "EpochSchedule_session ops TotalThroughput hl model_sess_id session_info bs overload_backends =
     (let throughput = TotalThroughput session_info;
          n = length (rps_history session_info)
      in if n < hl then Inr (session_info, bs, overload_backends, False)
         else if n = 0 then Inl VectorIndexOutOfRange
         else
           (let estimate_rps = max (rps_history session_info ! (n - 1)) (1 / 10);
                si1 = session_info\<lparr>unassigned_workload := max 0 (estimate_rps - throughput)\<rparr>
            in if estimate_rps < throughput * (97 / 100) then
                 (case partition_static ops bs (backend_weights si1) estimate_rps [] of
                    Inl e \<Rightarrow> Inl e
                  | Inr (est1, adjust_backends) \<Rightarrow>
                      (case release_walk ops model_sess_id (sort_desc adjust_backends)
                              (est1, bs, backend_weights si1) of
                         Inl e \<Rightarrow> Inl e
                       | Inr (est2, bs', weights') \<Rightarrow>
                           Inr (si1\<lparr>backend_weights := weights'\<rparr>, bs', overload_backends, True)))
               else if throughput < estimate_rps then
                 (case partition_static ops bs (backend_weights si1) estimate_rps [] of
                    Inl e \<Rightarrow> Inl e
                  | Inr (est1, adjust_backends) \<Rightarrow>
                      (case grow_walk ops model_sess_id (sort_desc adjust_backends)
                              (est1, bs, backend_weights si1, overload_backends) of
                         Inl e \<Rightarrow> Inl e
                       | Inr (est2, bs', weights', overload') \<Rightarrow>
                           Inr (si1\<lparr>backend_weights := weights',
                                    unassigned_workload := (if 1 / 1000 < est2 then est2 else 0)\<rparr>,
                                bs', overload', True)))
               else Inr (si1, bs, overload_backends, False)))"

text \<open>
  The release pass in the words of the specification, as a relation between the state
  before and after the walk over the sorted adjustable backends: when the remaining
  estimate is below \<open>1e-3\<close> the model is unloaded from the backend and its weight
  erased; otherwise, when the weight exceeds the remaining estimate,
  \<^verbatim>\<open>UpdateModelThroughput(session, estimate_rps)\<close> is called, the recorded weight
  refreshed and the new throughput subtracted; otherwise the weight is subtracted.
\<close>

inductive release_spec ::
  "'b BackendOps \<Rightarrow> string \<Rightarrow> (node_id \<times> real) list
     \<Rightarrow> real \<times> (node_id \<times> 'b) list \<times> (node_id \<times> real) list
     \<Rightarrow> real \<times> (node_id \<times> 'b) list \<times> (node_id \<times> real) list \<Rightarrow> bool"
  for ops :: "'b BackendOps" and sid :: string where
  release_done: "release_spec ops sid [] st st"
| release_unload:
    "est < 1 / 1000 \<Longrightarrow> map_of bs k = Some backend \<Longrightarrow>
     release_spec ops sid rest
       (est, AList.update k (bd_UnloadModel ops backend sid) bs, AList.delete k weights) st' \<Longrightarrow>
     release_spec ops sid ((k, w) # rest) (est, bs, weights) st'"
| release_shrink:
    "\<not> est < 1 / 1000 \<Longrightarrow> est < w \<Longrightarrow> map_of bs k = Some backend \<Longrightarrow>
     bd_UpdateModelThroughput ops backend sid est = (new_tp, backend') \<Longrightarrow>
     release_spec ops sid rest
       (est - new_tp, AList.update k backend' bs,
        AList.update k (bd_GetModelWeight ops backend' sid) weights) st' \<Longrightarrow>
     release_spec ops sid ((k, w) # rest) (est, bs, weights) st'"
| release_keep:
    "\<not> est < 1 / 1000 \<Longrightarrow> \<not> est < w \<Longrightarrow>
     release_spec ops sid rest (est - w, bs, weights) st' \<Longrightarrow>
     release_spec ops sid ((k, w) # rest) (est, bs, weights) st'"

text \<open>Whether the backend of an entry of \<^verbatim>\<open>backend_weights\<close> is adjustable.\<close>

definition adjustable :: "'b BackendOps \<Rightarrow> (node_id \<times> 'b) list \<Rightarrow> node_id \<times> real \<Rightarrow> bool" where
  "adjustable ops bs iter \<longleftrightarrow>
     (case map_of bs (fst iter) of None \<Rightarrow> False | Some backend \<Rightarrow> bd_workload_id ops backend < 0)"

text \<open>
  ``Some step of the placement loop fails'': with more than \<open>1e-3\<close> of the workload
  left, \<^verbatim>\<open>FindBestBackend\<close> finds no backend, now or after further placements.
\<close>

inductive placement_fails ::
  "'b BackendOps \<Rightarrow> ModelSession \<Rightarrow> (node_id \<times> 'b) list \<Rightarrow> real \<Rightarrow> node_id set \<Rightarrow> bool"
  for ops :: "'b BackendOps" and model_sess :: ModelSession and bs :: "(node_id \<times> 'b) list" where
  fails_now:
    "1 / 1000 < workload \<Longrightarrow> FindBestBackend ops model_sess workload used bs = None \<Longrightarrow>
     placement_fails ops model_sess bs workload used"
| fails_later:
    "1 / 1000 < workload \<Longrightarrow>
     FindBestBackend ops model_sess workload used bs = Some (backend, inst_info) \<Longrightarrow>
     placement_fails ops model_sess bs (workload - inst_throughput inst_info)
       (insert (bd_node_id ops (snd backend)) used) \<Longrightarrow>
     placement_fails ops model_sess bs workload used"

subsection \<open>An example backend delegate for the scheduler\<close>

text \<open>
  A backend with a capacity in requests per second and the list of the sessions loaded
  on it with their throughputs. A placement gets the free capacity, or the requested rate
  when that is smaller; the occupancy is the share of the capacity in use after it.
\<close>

record ExBackend =
  xb_id :: node_id
  xb_wid :: int
  xb_cap :: real
  xb_load :: "(string \<times> real) list"

definition ex_ops :: "ExBackend BackendOps" where
  "ex_ops = \<lparr>
     bd_node_id = xb_id,
     bd_workload_id = xb_wid,
     bd_IsIdle = (\<lambda>b. xb_load b = []),
     bd_PrepareLoadModel = (\<lambda>b ms rate.
        let free = xb_cap b - sum_list (map snd (xb_load b)) in
        if free \<le> 0 then None
        else let tp = (if rate < 1 / 1000 then free else min rate free)
             in Some (\<lparr> inst_model_sessions = [ms], inst_throughput = tp, inst_workload = rate \<rparr>,
                      (xb_cap b - free + tp) / xb_cap b)),
     bd_LoadModel = (\<lambda>b inst. b\<lparr>xb_load := xb_load b @ [(''sess'', inst_throughput inst)]\<rparr>),
     bd_UnloadModel = (\<lambda>b sid. b\<lparr>xb_load := AList.delete sid (xb_load b)\<rparr>),
     bd_UpdateModelThroughput = (\<lambda>b sid rate.
        (min rate (xb_cap b), b\<lparr>xb_load := AList.update sid (min rate (xb_cap b)) (xb_load b)\<rparr>)),
     bd_GetModelWeight = (\<lambda>b sid. case map_of (xb_load b) sid of None \<Rightarrow> 0 | Some w \<Rightarrow> w),
     bd_GetInfo = (\<lambda>b. ex_info (xb_id b)),
     bd_overload = (\<lambda>b. xb_cap b < sum_list (map snd (xb_load b))),
     bd_Occupancy = (\<lambda>b. sum_list (map snd (xb_load b)) / xb_cap b),
     inst_GetWeight = inst_throughput \<rparr>"

definition ex_backend :: "node_id \<Rightarrow> int \<Rightarrow> real \<Rightarrow> (string \<times> real) list \<Rightarrow> ExBackend" where
  "ex_backend n wid cap load = \<lparr> xb_id = n, xb_wid = wid, xb_cap = cap, xb_load = load \<rparr>"

definition ex_sched_frontend :: "node_id \<Rightarrow> SchedFrontend" where
  "ex_sched_frontend n = \<lparr> sf_node_id = n, subscribe_models = {} \<rparr>"

definition ex_session_info :: "(node_id \<times> real) list \<Rightarrow> (node_id \<times> real) list \<Rightarrow> real list \<Rightarrow> SessionInfo" where
  "ex_session_info weights wl h = new_SessionInfo\<lparr>model_sessions := [ex_session],
       backend_weights := weights, workloads := wl, rps_history := h\<rparr>"

definition ex_scheduler ::
  "(node_id \<times> ExBackend) list \<Rightarrow> (string \<times> SessionInfo) list \<Rightarrow> nat \<Rightarrow> ExBackend Scheduler" where
  "ex_scheduler bs table hl = \<lparr> sch_frontends = [5 \<mapsto> ex_sched_frontend 5],
       sch_backends = bs, session_table = table, history_len = hl \<rparr>"

text \<open>\<^verbatim>\<open>TotalThroughput()\<close> as the sum of the recorded weights.\<close>

definition ex_TotalThroughput :: "SessionInfo \<Rightarrow> real" where
  "ex_TotalThroughput si = sum_list (map snd (backend_weights si))"

definition ex_inst :: "real \<Rightarrow> real \<Rightarrow> SchedInstanceInfo" where
  "ex_inst tp rate = \<lparr> inst_model_sessions = [ex_session], inst_throughput = tp, inst_workload = rate \<rparr>"

definition ex_two_backends :: "(node_id \<times> ExBackend) list" where
  "ex_two_backends = [(1, ex_backend 1 (- 1) 100 []), (2, ex_backend 2 (- 1) 50 [])]"

definition ex_lm_request :: "real \<Rightarrow> LoadModelRequest" where
  "ex_lm_request w = \<lparr> lm_node_id = 5, lm_model_session = ex_session, estimate_workload = w \<rparr>"

definition ex_lm_reply :: LoadModelReply where
  "ex_lm_reply = \<lparr> lm_status = CTRL_OK, lm_model_route = ex_proto [] \<rparr>"

text \<open>
  Three backends that hold the session: 1 and 2 are adjustable, 3 is pinned to the static
  workload 0. The session has the recorded weights 60, 30 and 20.
\<close>

definition ex_loaded_backends :: "(node_id \<times> ExBackend) list" where
  "ex_loaded_backends =
     [(1, ex_backend 1 (- 1) 100 [(''sess'', 60)]),
      (2, ex_backend 2 (- 1) 50 [(''sess'', 30)]),
      (3, ex_backend 3 0 50 [(''sess'', 20)])]"

definition ex_loaded_session :: SessionInfo where
  "ex_loaded_session = ex_session_info [(2, 30), (3, 20), (1, 60)] [(5, 50)] [50]"

section \<open>Properties of the DRR route table\<close>

lemma loop_sound:
  "route_wf r \<Longrightarrow>
   (case GetBackend_loop i r of
      Inr (j, b, r') \<Rightarrow> drr_spec r (b, r') \<and> i \<le> j
    | Inl e \<Rightarrow> e = FatalDRRCouldNotDecide)"
proof (induction i r rule: GetBackend_loop.induct)
  case (1 i r)
  let ?b = "backends r ! current_drr_index r"
  let ?k = "node_id (info ?b)"
  from "1.prems" have cur: "current_drr_index r < length (backends r)"
    and ne: "backends r \<noteq> []"
    and dom: "\<forall>b \<in> set (backends r). backend_quanta r (node_id (info b)) \<noteq> None"
    by (simp_all add: route_wf_def)
  from cur dom obtain q where q: "backend_quanta r ?k = Some q"
    by (metis nth_mem not_None_eq)
  show ?case
  proof (cases "min_rate r \<le> q")
    case True
    have "drr_spec r (info ?b, r\<lparr>backend_quanta := (backend_quanta r)(?k \<mapsto> q - min_rate r)\<rparr>)"
      using cur q True by (intro drr_select) simp_all
    then show ?thesis
      using cur q True by (subst GetBackend_loop.simps) (simp add: Let_def)
  next
    case False
    let ?r' = "r\<lparr>backend_quanta := (backend_quanta r)(?k \<mapsto> q + throughput ?b),
                 current_drr_index := (current_drr_index r + 1) mod length (backends r)\<rparr>"
    show ?thesis
    proof (cases "i \<le> length (backends r)")
      case le: True
      have wf': "route_wf ?r'"
        using ne dom by (auto simp: route_wf_def)
      have ih: "case GetBackend_loop (i + 1) ?r' of
                  Inr (j, b, r'') \<Rightarrow> drr_spec ?r' (b, r'') \<and> i + 1 \<le> j
                | Inl e \<Rightarrow> e = FatalDRRCouldNotDecide"
        using "1.IH"[OF _ refl refl q _ le wf'] cur False by simp
      have eq: "GetBackend_loop i r = GetBackend_loop (i + 1) ?r'"
        using cur q False le by (subst GetBackend_loop.simps) (simp add: Let_def)
      show ?thesis
      proof (cases "GetBackend_loop (i + 1) ?r'")
        case (Inl e)
        with ih eq show ?thesis by simp
      next
        case (Inr res)
        obtain j b r'' where res: "res = (j, b, r'')" by (cases res) auto
        from ih Inr res have sp: "drr_spec ?r' (b, r'')" and ij: "i + 1 \<le> j" by simp_all
        have lt: "q < min_rate r" using False by simp
        have "drr_spec r (b, r'')"
          by (rule drr_advance[OF cur refl q lt sp])
        with eq Inr res ij show ?thesis by simp
      qed
    next
      case gt: False
      then show ?thesis
        using cur q False by (subst GetBackend_loop.simps) (simp add: Let_def)
    qed
  qed
qed

lemma inv_select:
  assumes "drr_inv r" and "backend_quanta r k = Some q" and "min_rate r \<le> q"
  shows "drr_inv (r\<lparr>backend_quanta := (backend_quanta r)(k \<mapsto> q - min_rate r)\<rparr>)"
  using assms unfolding drr_inv_def route_wf_def quanta_nonneg_def by auto

lemma inv_advance:
  assumes "drr_inv r" and "backend_quanta r (node_id (info b)) = Some q" and "b \<in> set (backends r)"
  shows "drr_inv (r\<lparr>backend_quanta := (backend_quanta r)(node_id (info b) \<mapsto> q + throughput b),
                   current_drr_index := (current_drr_index r + 1) mod length (backends r)\<rparr>)"
proof -
  from assms have "0 \<le> q" and "0 < throughput b"
    unfolding drr_inv_def quanta_nonneg_def by auto
  then have "0 \<le> q + throughput b" by simp
  with assms show ?thesis
    unfolding drr_inv_def route_wf_def quanta_nonneg_def by auto
qed

lemma loop_progress:
  assumes "drr_inv r"
    and "i + d \<le> length (backends r)"
    and "\<exists>q. backend_quanta r (node_id (info (backends r !
             ((current_drr_index r + d) mod length (backends r))))) = Some q \<and> min_rate r \<le> q"
  shows "\<exists>j b r'. GetBackend_loop i r = Inr (j, b, r') \<and> j \<le> i + d \<and> drr_inv r' \<and>
           backends r' = backends r \<and> min_rate r' = min_rate r \<and> b \<in> info ` set (backends r)"
  using assms
proof (induction d arbitrary: i r)
  case 0
  let ?b = "backends r ! current_drr_index r"
  let ?k = "node_id (info ?b)"
  from "0.prems"(1) have cur: "current_drr_index r < length (backends r)"
    by (simp add: drr_inv_def route_wf_def)
  from "0.prems"(3) cur obtain q where q: "backend_quanta r ?k = Some q" and ge: "min_rate r \<le> q"
    by auto
  have eq: "GetBackend_loop i r =
      Inr (i, info ?b, r\<lparr>backend_quanta := (backend_quanta r)(?k \<mapsto> q - min_rate r)\<rparr>)"
    using cur q ge by (subst GetBackend_loop.simps) (simp add: Let_def)
  have "drr_inv (r\<lparr>backend_quanta := (backend_quanta r)(?k \<mapsto> q - min_rate r)\<rparr>)"
    by (rule inv_select[OF "0.prems"(1) q ge])
  moreover have "info ?b \<in> info ` set (backends r)"
    using cur by simp
  ultimately show ?case using eq by simp
next
  case (Suc d)
  let ?n = "length (backends r)"
  let ?b = "backends r ! current_drr_index r"
  let ?k = "node_id (info ?b)"
  from Suc.prems(1) have cur: "current_drr_index r < ?n"
    and dom: "\<forall>b \<in> set (backends r). backend_quanta r (node_id (info b)) \<noteq> None"
    and nonneg: "\<forall>k q. backend_quanta r k = Some q \<longrightarrow> 0 \<le> q"
    and rates: "\<forall>b \<in> set (backends r). 0 < throughput b \<and> min_rate r \<le> throughput b"
    by (simp_all add: drr_inv_def route_wf_def quanta_nonneg_def)
  have bmem: "?b \<in> set (backends r)" using cur by simp
  from dom bmem obtain q where q: "backend_quanta r ?k = Some q" by blast
  show ?case
  proof (cases "min_rate r \<le> q")
    case True
    have eq: "GetBackend_loop i r =
        Inr (i, info ?b, r\<lparr>backend_quanta := (backend_quanta r)(?k \<mapsto> q - min_rate r)\<rparr>)"
      using cur q True by (subst GetBackend_loop.simps) (simp add: Let_def)
    have "drr_inv (r\<lparr>backend_quanta := (backend_quanta r)(?k \<mapsto> q - min_rate r)\<rparr>)"
      by (rule inv_select[OF Suc.prems(1) q True])
    moreover have "info ?b \<in> info ` set (backends r)" using bmem by simp
    ultimately show ?thesis using eq by simp
  next
    case False
    let ?r' = "r\<lparr>backend_quanta := (backend_quanta r)(?k \<mapsto> q + throughput ?b),
                 current_drr_index := (current_drr_index r + 1) mod ?n\<rparr>"
    from Suc.prems(2) have le: "i \<le> ?n" by simp
    have eq: "GetBackend_loop i r = GetBackend_loop (i + 1) ?r'"
      using cur q False le by (subst GetBackend_loop.simps) (simp add: Let_def)
    have inv': "drr_inv ?r'" by (rule inv_advance[OF Suc.prems(1) q bmem])
    have bound: "(i + 1) + d \<le> length (backends ?r')" using Suc.prems(2) by simp
    have idx: "(current_drr_index ?r' + d) mod length (backends ?r') =
               (current_drr_index r + Suc d) mod ?n"
      by (simp add: mod_add_left_eq)
    let ?t = "backends r ! ((current_drr_index r + Suc d) mod ?n)"
    from Suc.prems(3) obtain qt where qt: "backend_quanta r (node_id (info ?t)) = Some qt"
      and qt_ge: "min_rate r \<le> qt" by blast
    have "0 \<le> q" using nonneg q by blast
    moreover have "min_rate r \<le> throughput ?b" using rates bmem by blast
    ultimately have top: "min_rate r \<le> q + throughput ?b" by simp
    have tgt: "\<exists>q'. backend_quanta ?r' (node_id (info (backends ?r' !
             ((current_drr_index ?r' + d) mod length (backends ?r'))))) = Some q' \<and> min_rate ?r' \<le> q'"
      unfolding idx using qt qt_ge top by simp
    from Suc.IH[OF inv' bound tgt]
    obtain j b r'' where res: "GetBackend_loop (i + 1) ?r' = Inr (j, b, r'')"
      and j: "j \<le> i + 1 + d" and inv'': "drr_inv r''"
      and same: "backends r'' = backends ?r'" "min_rate r'' = min_rate ?r'"
      and mem: "b \<in> info ` set (backends ?r')"
      by blast
    show ?thesis using eq res j inv'' same mem by simp
  qed
qed

lemma GetBackend_loop_returns:
  assumes inv: "drr_inv r"
  shows "\<exists>j b r'. GetBackend_loop 0 r = Inr (j, b, r') \<and> j \<le> length (backends r) \<and> drr_inv r' \<and>
           backends r' = backends r \<and> min_rate r' = min_rate r \<and> b \<in> info ` set (backends r)"
proof -
  let ?n = "length (backends r)"
  let ?b = "backends r ! current_drr_index r"
  let ?k = "node_id (info ?b)"
  from inv have cur: "current_drr_index r < ?n"
    and dom: "\<forall>b \<in> set (backends r). backend_quanta r (node_id (info b)) \<noteq> None"
    and nonneg: "\<forall>k q. backend_quanta r k = Some q \<longrightarrow> 0 \<le> q"
    and rates: "\<forall>b \<in> set (backends r). 0 < throughput b \<and> min_rate r \<le> throughput b"
    by (simp_all add: drr_inv_def route_wf_def quanta_nonneg_def)
  have bmem: "?b \<in> set (backends r)" using cur by simp
  from dom bmem obtain q where q: "backend_quanta r ?k = Some q" by blast
  show ?thesis
  proof (cases "min_rate r \<le> q")
    case True
    have "\<exists>q. backend_quanta r (node_id (info (backends r !
             ((current_drr_index r + 0) mod ?n)))) = Some q \<and> min_rate r \<le> q"
      using cur q True by simp
    from loop_progress[OF inv _ this, of 0] show ?thesis by fastforce
  next
    case False
    let ?r' = "r\<lparr>backend_quanta := (backend_quanta r)(?k \<mapsto> q + throughput ?b),
                 current_drr_index := (current_drr_index r + 1) mod ?n\<rparr>"
    have eq: "GetBackend_loop 0 r = GetBackend_loop (0 + 1) ?r'"
      using cur q False by (subst GetBackend_loop.simps) (simp add: Let_def)
    have inv': "drr_inv ?r'" by (rule inv_advance[OF inv q bmem])
    have bound: "(0 + 1) + (?n - 1) \<le> length (backends ?r')" using cur by simp
    have "(current_drr_index r + 1) mod ?n + (?n - 1) = (current_drr_index r + 1) mod ?n + ?n - 1"
      using cur by simp
    have idx: "(current_drr_index ?r' + (?n - 1)) mod length (backends ?r') = current_drr_index r"
    proof -
      have "((current_drr_index r + 1) mod ?n + (?n - 1)) mod ?n
            = ((current_drr_index r + 1) + (?n - 1)) mod ?n"
        by (simp add: mod_add_left_eq)
      also have "(current_drr_index r + 1) + (?n - 1) = current_drr_index r + ?n"
        using cur by simp
      also have "(current_drr_index r + ?n) mod ?n = current_drr_index r"
        using cur by simp
      finally show ?thesis by simp
    qed
    have "0 \<le> q" using nonneg q by blast
    moreover have "min_rate r \<le> throughput ?b" using rates bmem by blast
    ultimately have top: "min_rate r \<le> q + throughput ?b" by simp
    have tgt: "\<exists>q'. backend_quanta ?r' (node_id (info (backends ?r' !
             ((current_drr_index ?r' + (?n - 1)) mod length (backends ?r'))))) = Some q' \<and> min_rate ?r' \<le> q'"
      unfolding idx using top by simp
    from loop_progress[OF inv' bound tgt]
    obtain j b r'' where res: "GetBackend_loop (0 + 1) ?r' = Inr (j, b, r'')"
      and j: "j \<le> 0 + 1 + (?n - 1)" and inv'': "drr_inv r''"
      and same: "backends r'' = backends ?r'" "min_rate r'' = min_rate ?r'"
      and mem: "b \<in> info ` set (backends ?r')"
      by blast
    from j cur have "j \<le> ?n" by simp
    then show ?thesis using eq res inv'' same mem by simp
  qed
qed

lemma calc_min_rate_Min:
  "calc_min_rate m bs = Min (insert m (throughput ` set bs))"
proof (induction bs arbitrary: m)
  case Nil
  show ?case by simp
next
  case (Cons b bs)
  have "Min (insert (min m (throughput b)) (throughput ` set bs))
        = Min (insert m (insert (throughput b) (throughput ` set bs)))"
  proof (cases "bs = []")
    case True
    then show ?thesis by (simp add: min.commute)
  next
    case False
    then have ne: "throughput ` set bs \<noteq> {}" by simp
    have fin: "finite (throughput ` set bs)" by simp
    show ?thesis
      using ne fin by (simp add: min.assoc)
  qed
  with Cons.IH[of "min m (throughput b)"] show ?case by simp
qed

lemma give_quantum_total:
  "fst (give_quantum bs i (t, Q, I)) = t + sum_list (map throughput bs)"
  by (induction bs arbitrary: i t Q I) (simp_all add: add.assoc)

lemma give_quantum_quanta:
  "fst (snd (give_quantum bs i (t, Q, I))) k =
     (case Q k of Some q \<Rightarrow> Some q | None \<Rightarrow> map_of (rate_pairs bs) k)"
proof (induction bs arbitrary: i t Q I)
  case Nil
  show ?case by (simp add: rate_pairs_def split: option.splits)
next
  case (Cons b bs)
  show ?case
    using Cons.IH[of "i + 1" "t + throughput b" "emplace Q (node_id (info b)) (throughput b)"
                     "emplace I (node_id (info b)) i"]
    by (auto simp: rate_pairs_def emplace_def split: option.splits)
qed

lemma emplace_keep: "m k = Some v \<Longrightarrow> emplace m k' v' k = Some v"
  by (cases "m k'") (auto simp: emplace_def)

lemma emplace_other: "k' \<noteq> k \<Longrightarrow> emplace m k' v' k = m k"
  by (cases "m k'") (auto simp: emplace_def)

lemma emplace_new: "m k = None \<Longrightarrow> emplace m k v k = Some v"
  by (simp add: emplace_def)

lemma give_quantum_idx_keep:
  "I k = Some j \<Longrightarrow> snd (snd (give_quantum bs i (t, Q, I))) k = Some j"
proof (induction bs arbitrary: i t Q I)
  case Nil
  then show ?case by simp
next
  case (Cons b bs)
  have "emplace I (node_id (info b)) i k = Some j"
    using Cons.prems by (simp add: emplace_keep)
  then show ?case using Cons.IH by simp
qed

lemma give_quantum_idx_none:
  "I k = None \<Longrightarrow> k \<notin> (\<lambda>b. node_id (info b)) ` set bs \<Longrightarrow>
   snd (snd (give_quantum bs i (t, Q, I))) k = None"
proof (induction bs arbitrary: i t Q I)
  case Nil
  then show ?case by simp
next
  case (Cons b bs)
  from Cons.prems have "node_id (info b) \<noteq> k" by auto
  with Cons.prems have "emplace I (node_id (info b)) i k = None"
    by (simp add: emplace_other)
  moreover from Cons.prems have "k \<notin> (\<lambda>b. node_id (info b)) ` set bs" by simp
  ultimately show ?case using Cons.IH by simp
qed

lemma give_quantum_idx_first:
  "I k = None \<Longrightarrow> k \<in> (\<lambda>b. node_id (info b)) ` set bs \<Longrightarrow>
   \<exists>j. snd (snd (give_quantum bs i (t, Q, I))) k = Some (i + j) \<and> j < length bs \<and>
       node_id (info (bs ! j)) = k \<and> (\<forall>j' < j. node_id (info (bs ! j')) \<noteq> k)"
proof (induction bs arbitrary: i t Q I)
  case Nil
  then show ?case by simp
next
  case (Cons b bs)
  show ?case
  proof (cases "node_id (info b) = k")
    case True
    then have "emplace I (node_id (info b)) i k = Some i"
      using Cons.prems(1) by (simp add: emplace_new)
    then have "snd (snd (give_quantum (b # bs) i (t, Q, I))) k = Some (i + 0)"
      by (simp add: give_quantum_idx_keep)
    with True show ?thesis by (intro exI[of _ 0]) simp
  next
    case False
    then have none: "emplace I (node_id (info b)) i k = None"
      using Cons.prems(1) by (simp add: emplace_other)
    from False Cons.prems(2) have mem: "k \<in> (\<lambda>b. node_id (info b)) ` set bs" by auto
    have "\<exists>j. snd (snd (give_quantum bs (i + 1) (t + throughput b,
                         emplace Q (node_id (info b)) (throughput b),
                         emplace I (node_id (info b)) i))) k = Some (i + 1 + j) \<and>
      j < length bs \<and> node_id (info (bs ! j)) = k \<and> (\<forall>j' < j. node_id (info (bs ! j')) \<noteq> k)"
      using none mem by (rule Cons.IH)
    then obtain j where j: "snd (snd (give_quantum bs (i + 1) (t + throughput b,
                         emplace Q (node_id (info b)) (throughput b),
                         emplace I (node_id (info b)) i))) k = Some (i + 1 + j)"
      "j < length bs" "node_id (info (bs ! j)) = k" "\<forall>j' < j. node_id (info (bs ! j')) \<noteq> k"
      by blast
    have "\<forall>j' < Suc j. node_id (info ((b # bs) ! j')) \<noteq> k"
      using j(4) False by (auto simp: nth_Cons split: nat.splits)
    with j show ?thesis by (intro exI[of _ "Suc j"]) simp
  qed
qed

lemma DBL_MAX_ge: "x \<le> 1000 \<Longrightarrow> x \<le> DBL_MAX"
proof -
  assume x: "x \<le> 1000"
  have "(1::real) \<le> 2 - 1 / 2 ^ 52" by simp
  moreover have "(1000::real) \<le> 2 ^ 1023" by simp
  ultimately have "1 * 1000 \<le> (2 - 1 / 2 ^ 52) * (2 ^ 1023 :: real)"
    by (intro mult_mono) simp_all
  with x show ?thesis by (simp add: DBL_MAX_def)
qed

lemma Update_fields:
  assumes "backends r = [] \<or> current_drr_index r < length (backends r)"
  shows "\<exists>r' prev. current_drr_backend_id r = Inr prev \<and> Update route r = Inr r' \<and>
     mr_model_session_id r' = model_session_id route \<and>
     backends r' = backend_rate route \<and>
     min_rate r' = calc_min_rate DBL_MAX (backend_rate route) \<and>
     total_throughput r' = sum_list (map throughput (backend_rate route)) \<and>
     (\<forall>k. backend_quanta r' k =
        (if k \<in> route_ids (backend_rate route)
         then (case backend_quanta r k of Some q \<Rightarrow> Some q
               | None \<Rightarrow> map_of (rate_pairs (backend_rate route)) k)
         else None)) \<and>
     (prev \<in> route_ids (backend_rate route) \<longrightarrow>
        current_drr_index r' < length (backend_rate route) \<and>
        node_id (info (backend_rate route ! current_drr_index r')) = prev \<and>
        (\<forall>j < current_drr_index r'. node_id (info (backend_rate route ! j)) \<noteq> prev)) \<and>
     (prev \<notin> route_ids (backend_rate route) \<longrightarrow>
        current_drr_index r' =
          (if backend_rate route = [] then 0
           else current_drr_index r mod length (backend_rate route)))"
proof -
  let ?bs = "backend_rate route"
  from assms have "\<exists>prev. current_drr_backend_id r = Inr prev"
    by (cases "backends r = []") (auto simp: current_drr_backend_id_def)
  then obtain prev where prev: "current_drr_backend_id r = Inr prev" ..
  obtain t Q I where gq: "give_quantum ?bs 0 (0, backend_quanta r, Map.empty) = (t, Q, I)"
    by (cases "give_quantum ?bs 0 (0, backend_quanta r, Map.empty)") auto
  have t: "t = sum_list (map throughput ?bs)"
    using give_quantum_total[of ?bs 0 0 "backend_quanta r" Map.empty] gq by simp
  have Q: "\<And>k. Q k = (case backend_quanta r k of Some q \<Rightarrow> Some q
                        | None \<Rightarrow> map_of (rate_pairs ?bs) k)"
    using give_quantum_quanta[of ?bs 0 0 "backend_quanta r" Map.empty] gq by simp
  have I_none: "\<And>k. k \<notin> route_ids ?bs \<Longrightarrow> I k = None"
    using give_quantum_idx_none[of Map.empty _ ?bs 0 0 "backend_quanta r"] gq
    by (simp add: route_ids_def)
  have I_some: "\<And>k. k \<in> route_ids ?bs \<Longrightarrow>
      \<exists>j. I k = Some j \<and> j < length ?bs \<and> node_id (info (?bs ! j)) = k \<and>
          (\<forall>j' < j. node_id (info (?bs ! j')) \<noteq> k)"
    using give_quantum_idx_first[of Map.empty _ ?bs 0 0 "backend_quanta r"] gq
    by (simp add: route_ids_def)
  let ?idx = "case I prev of Some i \<Rightarrow> i
              | None \<Rightarrow> if ?bs = [] then 0 else current_drr_index r mod length ?bs"
  let ?r' = "\<lparr> mr_model_session_id = model_session_id route, backends = ?bs,
               total_throughput = t, min_rate = calc_min_rate DBL_MAX ?bs,
               backend_quanta = remove_old_quanta Q I, current_drr_index = ?idx \<rparr>"
  have upd: "Update route r = Inr ?r'"
    by (simp add: Update_def prev gq Let_def)
  have quanta: "\<forall>k. backend_quanta ?r' k =
        (if k \<in> route_ids ?bs
         then (case backend_quanta r k of Some q \<Rightarrow> Some q
               | None \<Rightarrow> map_of (rate_pairs ?bs) k)
         else None)"
  proof
    fix k
    show "backend_quanta ?r' k =
        (if k \<in> route_ids ?bs
         then (case backend_quanta r k of Some q \<Rightarrow> Some q
               | None \<Rightarrow> map_of (rate_pairs ?bs) k)
         else None)"
    proof (cases "k \<in> route_ids ?bs")
      case True
      with I_some obtain j where "I k = Some j" by blast
      with True show ?thesis by (simp add: remove_old_quanta_def Q)
    next
      case False
      with I_none have "I k = None" by blast
      with False show ?thesis by (simp add: remove_old_quanta_def)
    qed
  qed
  have idx_in: "prev \<in> route_ids ?bs \<longrightarrow>
        current_drr_index ?r' < length ?bs \<and>
        node_id (info (?bs ! current_drr_index ?r')) = prev \<and>
        (\<forall>j < current_drr_index ?r'. node_id (info (?bs ! j)) \<noteq> prev)"
  proof
    assume "prev \<in> route_ids ?bs"
    with I_some obtain j where "I prev = Some j" "j < length ?bs"
      "node_id (info (?bs ! j)) = prev" "\<forall>j' < j. node_id (info (?bs ! j')) \<noteq> prev"
      by blast
    then show "current_drr_index ?r' < length ?bs \<and>
        node_id (info (?bs ! current_drr_index ?r')) = prev \<and>
        (\<forall>j < current_drr_index ?r'. node_id (info (?bs ! j)) \<noteq> prev)"
      by simp
  qed
  have idx_out: "prev \<notin> route_ids ?bs \<longrightarrow>
        current_drr_index ?r' =
          (if ?bs = [] then 0 else current_drr_index r mod length ?bs)"
    using I_none by simp
  show ?thesis
    using prev upd t quanta idx_in idx_out by (intro exI[of _ ?r'] exI[of _ prev]) simp
qed

lemma drr_inv_single:
  assumes "route_wf r" "backends r = [b]" "0 < throughput b" "min_rate r \<le> throughput b"
    "quanta_nonneg r"
  shows "drr_inv r"
  using assms by (simp add: drr_inv_def)

lemma GetBackend_returns:
  assumes "drr_inv r"
  shows "\<exists>b r'. GetBackend r = Inr (b, r') \<and> drr_inv r' \<and> backends r' = backends r \<and>
           min_rate r' = min_rate r \<and> b \<in> info ` set (backends r)"
proof -
  from GetBackend_loop_returns[OF assms] obtain j b r' where
    "GetBackend_loop 0 r = Inr (j, b, r')" "drr_inv r'" "backends r' = backends r"
    "min_rate r' = min_rate r" "b \<in> info ` set (backends r)" by blast
  then show ?thesis by (simp add: GetBackend_def)
qed

lemma GetBackend_calls_single:
  assumes "drr_inv r" "backends r = [b]"
  shows "\<exists>r'. GetBackend_calls n r = Inr (replicate n (info b), r')"
  using assms
proof (induction n arbitrary: r)
  case 0
  show ?case by simp
next
  case (Suc n)
  from GetBackend_returns[OF Suc.prems(1)] obtain b' r' where
    g: "GetBackend r = Inr (b', r')" and inv': "drr_inv r'" and bs: "backends r' = backends r"
    and mem: "b' \<in> info ` set (backends r)" by blast
  from mem Suc.prems(2) have b': "b' = info b" by simp
  from bs Suc.prems(2) have "backends r' = [b]" by simp
  from Suc.IH[OF inv' this] obtain r'' where
    "GetBackend_calls n r' = Inr (replicate n (info b), r'')" by blast
  with g b' show ?case by simp
qed

lemma loop_select:
  assumes "current_drr_index r < length (backends r)"
    and "backend_quanta r (node_id (info (backends r ! current_drr_index r))) = Some q"
    and "min_rate r \<le> q"
  shows "GetBackend_loop i r =
     Inr (i, info (backends r ! current_drr_index r),
          r\<lparr>backend_quanta := (backend_quanta r)
               (node_id (info (backends r ! current_drr_index r)) \<mapsto> q - min_rate r)\<rparr>)"
  using assms by (subst GetBackend_loop.simps) (simp add: Let_def)

lemma loop_advance:
  assumes "current_drr_index r < length (backends r)"
    and "backend_quanta r (node_id (info (backends r ! current_drr_index r))) = Some q"
    and "q < min_rate r"
    and "i \<le> length (backends r)"
  shows "GetBackend_loop i r =
     GetBackend_loop (i + 1)
       (r\<lparr>backend_quanta := (backend_quanta r)
             (node_id (info (backends r ! current_drr_index r)) \<mapsto>
                q + throughput (backends r ! current_drr_index r)),
          current_drr_index := (current_drr_index r + 1) mod length (backends r)\<rparr>)"
  using assms by (subst GetBackend_loop.simps) (simp add: Let_def)

lemma GetBackend_total_spec:
  assumes "drr_inv r"
  shows "\<exists>res. GetBackend r = Inr res \<and> drr_spec r res"
proof -
  from assms have wf: "route_wf r" by (simp add: drr_inv_def)
  from GetBackend_loop_returns[OF assms] obtain j b r' where
    l: "GetBackend_loop 0 r = Inr (j, b, r')" by blast
  with loop_sound[OF wf, of 0] have "drr_spec r (b, r')" by simp
  with l show ?thesis by (simp add: GetBackend_def)
qed

text \<open>
  Claim C3. On a route with a non-empty backend list (index in range, a quantum entry for
  every listed backend, as \<^verbatim>\<open>Update\<close> leaves it), \<^verbatim>\<open>GetBackend\<close> follows the DRR
  algorithm, step by step and as a whole. The current backend has a quantum \<open>q\<close>. When
  \<open>q\<close> is at least \<open>min_rate\<close>, every iteration of the loop, and so the call, returns
  that backend and leaves \<open>q - min_rate\<close> as its quantum, with the index unchanged (step 1).
  When \<open>q\<close> is below \<open>min_rate\<close>, an iteration within the loop bound adds the backend's
  rate to its quantum, advances the index with wrap-around and repeats on that route
  (step 2). Whatever the call returns is an outcome of steps 1 and 2 of the specification,
  and the only failure left is the fatal check; on a route whose rates are positive, whose
  \<open>min_rate\<close> is at most every rate and whose quanta are not negative, the call does return,
  with such an outcome. For a route with exactly one backend of positive rate, every one of
  \<open>n\<close> successive calls returns that backend.
\<close>

theorem GetBackend_follows_drr:
  assumes "route_wf r"
  shows
    "(\<exists>q. backend_quanta r (node_id (info (backends r ! current_drr_index r))) = Some q) \<and>
     (\<forall>q. backend_quanta r (node_id (info (backends r ! current_drr_index r))) = Some q \<and>
          min_rate r \<le> q \<longrightarrow>
          (\<forall>i. GetBackend_loop i r =
             Inr (i, info (backends r ! current_drr_index r),
                  r\<lparr>backend_quanta := (backend_quanta r)
                       (node_id (info (backends r ! current_drr_index r)) \<mapsto> q - min_rate r)\<rparr>)) \<and>
          GetBackend r =
             Inr (info (backends r ! current_drr_index r),
                  r\<lparr>backend_quanta := (backend_quanta r)
                       (node_id (info (backends r ! current_drr_index r)) \<mapsto> q - min_rate r)\<rparr>)) \<and>
     (\<forall>q. backend_quanta r (node_id (info (backends r ! current_drr_index r))) = Some q \<and>
          q < min_rate r \<longrightarrow>
          (\<forall>i. i \<le> length (backends r) \<longrightarrow>
             GetBackend_loop i r =
               GetBackend_loop (i + 1)
                 (r\<lparr>backend_quanta := (backend_quanta r)
                       (node_id (info (backends r ! current_drr_index r)) \<mapsto>
                          q + throughput (backends r ! current_drr_index r)),
                    current_drr_index := (current_drr_index r + 1) mod length (backends r)\<rparr>))) \<and>
     (case GetBackend r of
        Inr res \<Rightarrow> drr_spec r res
      | Inl e \<Rightarrow> e = FatalDRRCouldNotDecide) \<and>
     (drr_inv r \<longrightarrow> (\<exists>res. GetBackend r = Inr res \<and> drr_spec r res)) \<and>
     (\<forall>b. backends r = [b] \<and> 0 < throughput b \<and> min_rate r \<le> throughput b \<and>
          quanta_nonneg r \<longrightarrow>
          (\<forall>n. \<exists>r'. GetBackend_calls n r = Inr (replicate n (info b), r')))"
proof -
  from assms have cur: "current_drr_index r < length (backends r)"
    and dom: "\<forall>b \<in> set (backends r). backend_quanta r (node_id (info b)) \<noteq> None"
    by (simp_all add: route_wf_def)
  have c1: "\<exists>q. backend_quanta r (node_id (info (backends r ! current_drr_index r))) = Some q"
    using cur dom by (metis nth_mem not_None_eq)
  have c2: "\<forall>q. backend_quanta r (node_id (info (backends r ! current_drr_index r))) = Some q \<and>
          min_rate r \<le> q \<longrightarrow>
          (\<forall>i. GetBackend_loop i r =
             Inr (i, info (backends r ! current_drr_index r),
                  r\<lparr>backend_quanta := (backend_quanta r)
                       (node_id (info (backends r ! current_drr_index r)) \<mapsto> q - min_rate r)\<rparr>)) \<and>
          GetBackend r =
             Inr (info (backends r ! current_drr_index r),
                  r\<lparr>backend_quanta := (backend_quanta r)
                       (node_id (info (backends r ! current_drr_index r)) \<mapsto> q - min_rate r)\<rparr>)"
  proof (intro allI impI)
    fix q
    assume a: "backend_quanta r (node_id (info (backends r ! current_drr_index r))) = Some q \<and>
          min_rate r \<le> q"
    then have l: "\<And>i. GetBackend_loop i r =
             Inr (i, info (backends r ! current_drr_index r),
                  r\<lparr>backend_quanta := (backend_quanta r)
                       (node_id (info (backends r ! current_drr_index r)) \<mapsto> q - min_rate r)\<rparr>)"
      using loop_select[OF cur] by blast
    then show "(\<forall>i. GetBackend_loop i r =
             Inr (i, info (backends r ! current_drr_index r),
                  r\<lparr>backend_quanta := (backend_quanta r)
                       (node_id (info (backends r ! current_drr_index r)) \<mapsto> q - min_rate r)\<rparr>)) \<and>
          GetBackend r =
             Inr (info (backends r ! current_drr_index r),
                  r\<lparr>backend_quanta := (backend_quanta r)
                       (node_id (info (backends r ! current_drr_index r)) \<mapsto> q - min_rate r)\<rparr>)"
      by (simp add: GetBackend_def)
  qed
  have c3: "\<forall>q. backend_quanta r (node_id (info (backends r ! current_drr_index r))) = Some q \<and>
          q < min_rate r \<longrightarrow>
          (\<forall>i. i \<le> length (backends r) \<longrightarrow>
             GetBackend_loop i r =
               GetBackend_loop (i + 1)
                 (r\<lparr>backend_quanta := (backend_quanta r)
                       (node_id (info (backends r ! current_drr_index r)) \<mapsto>
                          q + throughput (backends r ! current_drr_index r)),
                    current_drr_index := (current_drr_index r + 1) mod length (backends r)\<rparr>))"
    using loop_advance[OF cur] by blast
  have c4: "case GetBackend r of Inr res \<Rightarrow> drr_spec r res | Inl e \<Rightarrow> e = FatalDRRCouldNotDecide"
    using loop_sound[OF assms, of 0]
    by (auto simp: GetBackend_def split: sum.splits)
  have c5: "drr_inv r \<longrightarrow> (\<exists>res. GetBackend r = Inr res \<and> drr_spec r res)"
    using GetBackend_total_spec by blast
  have c6: "\<forall>b. backends r = [b] \<and> 0 < throughput b \<and> min_rate r \<le> throughput b \<and>
              quanta_nonneg r \<longrightarrow>
              (\<forall>n. \<exists>r'. GetBackend_calls n r = Inr (replicate n (info b), r'))"
    using assms drr_inv_single GetBackend_calls_single by blast
  from c1 c2 c3 c4 c5 c6 show ?thesis by (intro conjI)
qed


lemma ex_two_wf0: "route_wf (ex_route [ex_rate 1 2, ex_rate 2 1] [1 \<mapsto> 0, 2 \<mapsto> 1] 1 0)"
  by (simp add: route_wf_def ex_route_def ex_rate_def ex_info_def)

lemma ex_two_wf1: "route_wf (ex_route [ex_rate 1 2, ex_rate 2 1] [1 \<mapsto> 2, 2 \<mapsto> 1] 1 1)"
  by (simp add: route_wf_def ex_route_def ex_rate_def ex_info_def)

lemma ex_single_wf: "route_wf (ex_route [ex_rate 7 3] [7 \<mapsto> 1] 3 0)"
  by (simp add: route_wf_def ex_route_def ex_rate_def ex_info_def)

text \<open>
  Witness for C3: on backends 1 (rate 2, quantum 0) and 2 (rate 1, quantum 1) with
  \<open>min_rate = 1\<close>, the call passes backend 1, raising its quantum to 2, and returns
  backend 2 with quantum 0 and index 1; and a single backend 7 of rate 3 whose quantum is 1
  is returned five times in a row.
\<close>

theorem GetBackend_follows_drr_witness:
  "route_wf (ex_route [ex_rate 1 2, ex_rate 2 1] [1 \<mapsto> 0, 2 \<mapsto> 1] 1 0) \<and>
   GetBackend (ex_route [ex_rate 1 2, ex_rate 2 1] [1 \<mapsto> 0, 2 \<mapsto> 1] 1 0)
     = Inr (ex_info 2, ex_route [ex_rate 1 2, ex_rate 2 1] [1 \<mapsto> 2, 2 \<mapsto> 0] 1 1) \<and>
   drr_spec (ex_route [ex_rate 1 2, ex_rate 2 1] [1 \<mapsto> 0, 2 \<mapsto> 1] 1 0)
     (ex_info 2, ex_route [ex_rate 1 2, ex_rate 2 1] [1 \<mapsto> 2, 2 \<mapsto> 0] 1 1) \<and>
   route_wf (ex_route [ex_rate 7 3] [7 \<mapsto> 1] 3 0) \<and>
   (\<exists>r'. GetBackend_calls 5 (ex_route [ex_rate 7 3] [7 \<mapsto> 1] 3 0)
            = Inr (replicate 5 (ex_info 7), r'))"
proof -
  let ?r0 = "ex_route [ex_rate 1 2, ex_rate 2 1] [1 \<mapsto> 0, 2 \<mapsto> 1] 1 0"
  let ?r1 = "ex_route [ex_rate 1 2, ex_rate 2 1] [1 \<mapsto> 2, 2 \<mapsto> 1] 1 1"
  let ?r2 = "ex_route [ex_rate 1 2, ex_rate 2 1] [1 \<mapsto> 2, 2 \<mapsto> 0] 1 1"
  let ?s = "ex_route [ex_rate 7 3] [7 \<mapsto> 1] 3 0"
  note m0 = GetBackend_follows_drr[OF ex_two_wf0]
  note m1 = GetBackend_follows_drr[OF ex_two_wf1]
  note ms = GetBackend_follows_drr[OF ex_single_wf]
  have q0: "backend_quanta ?r0 (node_id (info (backends ?r0 ! current_drr_index ?r0))) = Some 0 \<and>
      0 < min_rate ?r0"
    by (simp add: ex_route_def ex_rate_def ex_info_def)
  have i0: "(0::nat) \<le> length (backends ?r0)" by simp
  have e1: "?r0\<lparr>backend_quanta := (backend_quanta ?r0)
                 (node_id (info (backends ?r0 ! current_drr_index ?r0)) \<mapsto>
                    0 + throughput (backends ?r0 ! current_drr_index ?r0)),
              current_drr_index := (current_drr_index ?r0 + 1) mod length (backends ?r0)\<rparr> = ?r1"
    by (simp add: ex_route_def ex_rate_def ex_info_def fun_upd_twist)
  from m0 q0 i0 have "GetBackend_loop 0 ?r0 =
      GetBackend_loop (0 + 1)
        (?r0\<lparr>backend_quanta := (backend_quanta ?r0)
                 (node_id (info (backends ?r0 ! current_drr_index ?r0)) \<mapsto>
                    0 + throughput (backends ?r0 ! current_drr_index ?r0)),
              current_drr_index := (current_drr_index ?r0 + 1) mod length (backends ?r0)\<rparr>)"
    by blast
  then have step0: "GetBackend_loop 0 ?r0 = GetBackend_loop (0 + 1) ?r1"
    unfolding e1 .
  have q1: "backend_quanta ?r1 (node_id (info (backends ?r1 ! current_drr_index ?r1))) = Some 1 \<and>
      min_rate ?r1 \<le> 1"
    by (simp add: ex_route_def ex_rate_def ex_info_def)
  have e2: "?r1\<lparr>backend_quanta := (backend_quanta ?r1)
                 (node_id (info (backends ?r1 ! current_drr_index ?r1)) \<mapsto> 1 - min_rate ?r1)\<rparr> = ?r2"
    by (simp add: ex_route_def ex_rate_def ex_info_def fun_upd_twist)
  have b1: "info (backends ?r1 ! current_drr_index ?r1) = ex_info 2"
    by (simp add: ex_route_def ex_rate_def)
  from m1 q1 have "GetBackend_loop (0 + 1) ?r1 =
      Inr (0 + 1, info (backends ?r1 ! current_drr_index ?r1),
           ?r1\<lparr>backend_quanta := (backend_quanta ?r1)
                 (node_id (info (backends ?r1 ! current_drr_index ?r1)) \<mapsto> 1 - min_rate ?r1)\<rparr>)"
    by blast
  then have "GetBackend_loop (0 + 1) ?r1 =
      Inr (0 + 1, info (backends ?r1 ! current_drr_index ?r1), ?r2)"
    unfolding e2 .
  then have step1: "GetBackend_loop (0 + 1) ?r1 = Inr (0 + 1, ex_info 2, ?r2)"
    unfolding b1 .
  have g: "GetBackend ?r0 = Inr (ex_info 2, ?r2)"
    unfolding GetBackend_def step0 step1 by simp
  have spec: "drr_spec ?r0 (ex_info 2, ?r2)"
    using m0 g by simp
  have single: "backends ?s = [ex_rate 7 3] \<and> 0 < throughput (ex_rate 7 3) \<and>
      min_rate ?s \<le> throughput (ex_rate 7 3) \<and> quanta_nonneg ?s"
    by (simp add: ex_route_def ex_rate_def quanta_nonneg_def)
  have "\<exists>r'. GetBackend_calls 5 ?s = Inr (replicate 5 (info (ex_rate 7 3)), r')"
    using ms single by blast
  then have calls: "\<exists>r'. GetBackend_calls 5 ?s = Inr (replicate 5 (ex_info 7), r')"
    by (simp add: ex_rate_def)
  from ex_two_wf0 g spec ex_single_wf calls show ?thesis by (intro conjI)
qed

lemma Update_establishes_inv:
  assumes nn: "quanta_nonneg r"
    and cur: "backends r = [] \<or> current_drr_index r < length (backends r)"
    and pos: "\<forall>b \<in> set (backend_rate route). 0 < throughput b"
  shows "\<exists>r'. Update route r = Inr r' \<and> quanta_nonneg r' \<and>
           (backend_rate route \<noteq> [] \<longrightarrow> drr_inv r')"
proof -
  let ?bs = "backend_rate route"
  from Update_fields[OF cur, of route] obtain r' prev where
    upd: "Update route r = Inr r'" and bs: "backends r' = ?bs"
    and mr: "min_rate r' = calc_min_rate DBL_MAX ?bs"
    and q: "\<forall>k. backend_quanta r' k =
        (if k \<in> route_ids ?bs
         then (case backend_quanta r k of Some q \<Rightarrow> Some q
               | None \<Rightarrow> map_of (rate_pairs ?bs) k)
         else None)"
    and idx_in: "prev \<in> route_ids ?bs \<longrightarrow> current_drr_index r' < length ?bs"
    and idx_out: "prev \<notin> route_ids ?bs \<longrightarrow>
        current_drr_index r' = (if ?bs = [] then 0 else current_drr_index r mod length ?bs)"
    by blast
  have pairs_pos: "\<And>k v. map_of (rate_pairs ?bs) k = Some v \<Longrightarrow> 0 \<le> v"
  proof -
    fix k v assume "map_of (rate_pairs ?bs) k = Some v"
    then have "(k, v) \<in> set (rate_pairs ?bs)" by (rule map_of_SomeD)
    then obtain b where "b \<in> set ?bs" "v = throughput b" by (auto simp: rate_pairs_def)
    with pos show "0 \<le> v" by force
  qed
  have nn': "quanta_nonneg r'"
    unfolding quanta_nonneg_def
  proof (intro allI impI)
    fix k v assume kv: "backend_quanta r' k = Some v"
    show "0 \<le> v"
    proof (cases "backend_quanta r k")
      case None
      with kv q have "map_of (rate_pairs ?bs) k = Some v"
        by (auto split: if_splits)
      then show ?thesis by (rule pairs_pos)
    next
      case (Some q0)
      with kv q have "v = q0" by (auto split: if_splits)
      with Some nn show ?thesis by (auto simp: quanta_nonneg_def)
    qed
  qed
  have inv: "drr_inv r'" if ne: "?bs \<noteq> []"
  proof -
    have c: "current_drr_index r' < length ?bs"
    proof (cases "prev \<in> route_ids ?bs")
      case True with idx_in show ?thesis by blast
    next
      case False with idx_out ne show ?thesis by simp
    qed
    have dom: "\<forall>b \<in> set ?bs. backend_quanta r' (node_id (info b)) \<noteq> None"
    proof
      fix b assume b: "b \<in> set ?bs"
      then have mem: "node_id (info b) \<in> route_ids ?bs" by (simp add: route_ids_def)
      have "node_id (info b) \<in> fst ` set (rate_pairs ?bs)"
        using b by (force simp: rate_pairs_def)
      then have "map_of (rate_pairs ?bs) (node_id (info b)) \<noteq> None"
        by (simp add: map_of_eq_None_iff)
      with mem q show "backend_quanta r' (node_id (info b)) \<noteq> None"
        by (cases "backend_quanta r (node_id (info b))") auto
    qed
    have minr: "\<forall>b \<in> set ?bs. min_rate r' \<le> throughput b"
      unfolding mr calc_min_rate_Min by (auto intro: Min_le)
    show ?thesis
      unfolding drr_inv_def route_wf_def
      using ne c dom nn' minr pos bs by simp
  qed
  from upd nn' inv show ?thesis by blast
qed

text \<open>
  Claim C10. On a route with a non-empty backend list, positive throughputs and nonnegative
  quanta, in the state \<^verbatim>\<open>Update\<close> establishes (\<open>drr_inv\<close>), \<^verbatim>\<open>GetBackend\<close> returns with
  the loop variable \<open>i\<close> at most \<open>|backends|\<close>, that is within \<open>|backends| + 1\<close>
  iterations; it does not reach the fatal check, and the invariant, with the nonnegativity
  of every quantum, holds again afterwards. \<^verbatim>\<open>Update\<close> with a route of positive
  throughputs keeps every quantum nonnegative and establishes the invariant when the new
  route is not empty.
\<close>

theorem GetBackend_terminates_quanta_nonneg:
  "(drr_inv r \<longrightarrow>
      (\<exists>i b r'. GetBackend_loop 0 r = Inr (i, b, r') \<and> GetBackend r = Inr (b, r') \<and>
         i + 1 \<le> length (backends r) + 1 \<and> drr_inv r' \<and> quanta_nonneg r')) \<and>
   (quanta_nonneg r \<and> (backends r = [] \<or> current_drr_index r < length (backends r)) \<and>
    (\<forall>b \<in> set (backend_rate route). 0 < throughput b) \<longrightarrow>
      (\<exists>r'. Update route r = Inr r' \<and> quanta_nonneg r' \<and>
         (backend_rate route \<noteq> [] \<longrightarrow> drr_inv r')))"
proof (intro conjI impI)
  assume inv: "drr_inv r"
  from GetBackend_loop_returns[OF inv] obtain j b r' where
    l: "GetBackend_loop 0 r = Inr (j, b, r')" and j: "j \<le> length (backends r)"
    and inv': "drr_inv r'" by blast
  from l have "GetBackend r = Inr (b, r')" by (simp add: GetBackend_def)
  moreover from inv' have "quanta_nonneg r'" by (simp add: drr_inv_def)
  ultimately show "\<exists>i b r'. GetBackend_loop 0 r = Inr (i, b, r') \<and> GetBackend r = Inr (b, r') \<and>
         i + 1 \<le> length (backends r) + 1 \<and> drr_inv r' \<and> quanta_nonneg r'"
    using l j inv' by auto
next
  assume "quanta_nonneg r \<and> (backends r = [] \<or> current_drr_index r < length (backends r)) \<and>
    (\<forall>b \<in> set (backend_rate route). 0 < throughput b)"
  then show "\<exists>r'. Update route r = Inr r' \<and> quanta_nonneg r' \<and>
         (backend_rate route \<noteq> [] \<longrightarrow> drr_inv r')"
    using Update_establishes_inv by blast
qed

lemma ex_two_inv: "drr_inv (ex_route [ex_rate 1 2, ex_rate 2 1] [1 \<mapsto> 0, 2 \<mapsto> 0] 1 0)"
  by (auto simp: drr_inv_def route_wf_def quanta_nonneg_def ex_route_def ex_rate_def ex_info_def
           split: if_splits)

text \<open>Witness for C10: two backends of rates 2 and 1 with exhausted quanta (the call takes
  three iterations), and the first \<^verbatim>\<open>Update\<close> of an empty route.\<close>

theorem GetBackend_terminates_quanta_nonneg_witness:
  "drr_inv (ex_route [ex_rate 1 2, ex_rate 2 1] [1 \<mapsto> 0, 2 \<mapsto> 0] 1 0) \<and>
   (\<exists>r'. GetBackend_loop 0 (ex_route [ex_rate 1 2, ex_rate 2 1] [1 \<mapsto> 0, 2 \<mapsto> 0] 1 0)
           = Inr (2, ex_info 1, r') \<and> drr_inv r') \<and>
   quanta_nonneg new_ModelRoute \<and>
   (\<exists>r'. Update (ex_proto [ex_rate 1 2, ex_rate 2 1]) new_ModelRoute = Inr r' \<and> drr_inv r')"
proof -
  let ?r = "ex_route [ex_rate 1 2, ex_rate 2 1] [1 \<mapsto> 0, 2 \<mapsto> 0] 1 0"
  let ?r1 = "?r\<lparr>backend_quanta := [1 \<mapsto> 2, 2 \<mapsto> 0], current_drr_index := 1\<rparr>"
  let ?r2 = "?r\<lparr>backend_quanta := [1 \<mapsto> 2, 2 \<mapsto> 1], current_drr_index := 0\<rparr>"
  let ?r3 = "?r\<lparr>backend_quanta := [1 \<mapsto> 1, 2 \<mapsto> 1], current_drr_index := 0\<rparr>"
  have inv: "drr_inv ?r" by (rule ex_two_inv)
  have l0: "GetBackend_loop 0 ?r = GetBackend_loop 1 ?r1"
    by (subst GetBackend_loop.simps)
       (simp add: ex_route_def ex_rate_def ex_info_def fun_upd_twist)
  have l1: "GetBackend_loop 1 ?r1 = GetBackend_loop (1 + 1) ?r2"
    by (subst GetBackend_loop.simps)
       (simp add: ex_route_def ex_rate_def ex_info_def)
  have l2: "GetBackend_loop (1 + 1) ?r2 = Inr (2, ex_info 1, ?r3)"
    by (subst GetBackend_loop.simps)
       (simp add: ex_route_def ex_rate_def ex_info_def fun_upd_twist)
  from GetBackend_terminates_quanta_nonneg[of ?r] inv
  obtain i b r' where "GetBackend_loop 0 ?r = Inr (i, b, r')" "drr_inv r'" by blast
  with l0 l1 l2 have a: "\<exists>r'. GetBackend_loop 0 ?r = Inr (2, ex_info 1, r') \<and> drr_inv r'"
    by simp
  have nn: "quanta_nonneg new_ModelRoute"
    by (simp add: quanta_nonneg_def new_ModelRoute_def)
  have h: "quanta_nonneg new_ModelRoute \<and>
      (backends new_ModelRoute = [] \<or>
       current_drr_index new_ModelRoute < length (backends new_ModelRoute)) \<and>
      (\<forall>b \<in> set (backend_rate (ex_proto [ex_rate 1 2, ex_rate 2 1])). 0 < throughput b)"
    using nn by (simp add: new_ModelRoute_def ex_proto_def ex_rate_def)
  have ne: "backend_rate (ex_proto [ex_rate 1 2, ex_rate 2 1]) \<noteq> []"
    by (simp add: ex_proto_def)
  from GetBackend_terminates_quanta_nonneg[of new_ModelRoute "ex_proto [ex_rate 1 2, ex_rate 2 1]"]
    h ne
  have b: "\<exists>r'. Update (ex_proto [ex_rate 1 2, ex_rate 2 1]) new_ModelRoute = Inr r' \<and> drr_inv r'"
    by blast
  from inv a nn b show ?thesis by blast
qed

text \<open>
  Claim C8, as amended. After \<^verbatim>\<open>Update(route)\<close>: the backend list is that of the
  route, \<open>min_rate\<close> is the minimum throughput of a non-empty list and \<open>total_throughput\<close>
  the sum; a backend id new in the route gets the rate of its (first) entry as quantum; an
  id no longer in the route has no quantum entry; the quantum of a surviving backend is
  kept as it was (it is not reset); the index points at the first entry of the previously
  selected backend when that is still present, and is otherwise reduced modulo the new
  size (0 for an empty route).
\<close>

theorem Update_effect:
  assumes "backends r = [] \<or> current_drr_index r < length (backends r)"
  shows "\<exists>r'. Update route r = Inr r' \<and>
     backends r' = backend_rate route \<and>
     (backend_rate route \<noteq> [] \<and> (\<forall>b \<in> set (backend_rate route). throughput b \<le> DBL_MAX) \<longrightarrow>
        min_rate r' = Min (throughput ` set (backend_rate route))) \<and>
     total_throughput r' = sum_list (map throughput (backend_rate route)) \<and>
     (\<forall>k. k \<in> route_ids (backend_rate route) \<and> backend_quanta r k = None \<longrightarrow>
          backend_quanta r' k = map_of (rate_pairs (backend_rate route)) k) \<and>
     (distinct (map fst (rate_pairs (backend_rate route))) \<longrightarrow>
        (\<forall>b \<in> set (backend_rate route). backend_quanta r (node_id (info b)) = None \<longrightarrow>
            backend_quanta r' (node_id (info b)) = Some (throughput b))) \<and>
     (\<forall>k. k \<notin> route_ids (backend_rate route) \<longrightarrow> backend_quanta r' k = None) \<and>
     (\<forall>k. k \<in> route_ids (backend_rate route) \<and> backend_quanta r k \<noteq> None \<longrightarrow>
          backend_quanta r' k = backend_quanta r k) \<and>
     (backends r \<noteq> [] \<longrightarrow>
        (node_id (info (backends r ! current_drr_index r)) \<in> route_ids (backend_rate route) \<longrightarrow>
           current_drr_index r' < length (backend_rate route) \<and>
           node_id (info (backend_rate route ! current_drr_index r'))
             = node_id (info (backends r ! current_drr_index r)) \<and>
           (\<forall>j < current_drr_index r'. node_id (info (backend_rate route ! j))
             \<noteq> node_id (info (backends r ! current_drr_index r)))) \<and>
        (node_id (info (backends r ! current_drr_index r)) \<notin> route_ids (backend_rate route) \<longrightarrow>
           current_drr_index r' =
             (if backend_rate route = [] then 0
              else current_drr_index r mod length (backend_rate route)))) \<and>
     (backends r = [] \<and> 0 \<notin> route_ids (backend_rate route) \<longrightarrow>
        current_drr_index r' =
          (if backend_rate route = [] then 0
           else current_drr_index r mod length (backend_rate route)))"
proof -
  let ?bs = "backend_rate route"
  from Update_fields[OF assms, of route] obtain r' prev where
    prev: "current_drr_backend_id r = Inr prev"
    and upd: "Update route r = Inr r'" and bs: "backends r' = ?bs"
    and mr: "min_rate r' = calc_min_rate DBL_MAX ?bs"
    and tt: "total_throughput r' = sum_list (map throughput ?bs)"
    and q: "\<forall>k. backend_quanta r' k =
        (if k \<in> route_ids ?bs
         then (case backend_quanta r k of Some q \<Rightarrow> Some q
               | None \<Rightarrow> map_of (rate_pairs ?bs) k)
         else None)"
    and idx_in: "prev \<in> route_ids ?bs \<longrightarrow>
        current_drr_index r' < length ?bs \<and>
        node_id (info (?bs ! current_drr_index r')) = prev \<and>
        (\<forall>j < current_drr_index r'. node_id (info (?bs ! j)) \<noteq> prev)"
    and idx_out: "prev \<notin> route_ids ?bs \<longrightarrow>
        current_drr_index r' = (if ?bs = [] then 0 else current_drr_index r mod length ?bs)"
    by blast
  have c_min: "?bs \<noteq> [] \<and> (\<forall>b \<in> set ?bs. throughput b \<le> DBL_MAX) \<longrightarrow>
        min_rate r' = Min (throughput ` set ?bs)"
  proof
    assume a: "?bs \<noteq> [] \<and> (\<forall>b \<in> set ?bs. throughput b \<le> DBL_MAX)"
    then have ne: "throughput ` set ?bs \<noteq> {}" by simp
    have "Min (throughput ` set ?bs) \<le> DBL_MAX"
    proof -
      from a obtain b where b: "b \<in> set ?bs" by (cases ?bs) auto
      then have "Min (throughput ` set ?bs) \<le> throughput b" by (intro Min_le) auto
      also have "\<dots> \<le> DBL_MAX" using a b by blast
      finally show ?thesis .
    qed
    moreover have "Min (insert DBL_MAX (throughput ` set ?bs))
        = min DBL_MAX (Min (throughput ` set ?bs))"
      using ne by (intro Min_insert) simp_all
    ultimately show "min_rate r' = Min (throughput ` set ?bs)"
      unfolding mr calc_min_rate_Min by (simp add: min_absorb2)
  qed
  have c_new: "\<forall>k. k \<in> route_ids ?bs \<and> backend_quanta r k = None \<longrightarrow>
          backend_quanta r' k = map_of (rate_pairs ?bs) k"
    using q by simp
  have c_new_distinct: "distinct (map fst (rate_pairs ?bs)) \<longrightarrow>
        (\<forall>b \<in> set ?bs. backend_quanta r (node_id (info b)) = None \<longrightarrow>
            backend_quanta r' (node_id (info b)) = Some (throughput b))"
  proof (intro impI ballI)
    fix b assume d: "distinct (map fst (rate_pairs ?bs))" and b: "b \<in> set ?bs"
      and n: "backend_quanta r (node_id (info b)) = None"
    from b have "(node_id (info b), throughput b) \<in> set (rate_pairs ?bs)"
      by (force simp: rate_pairs_def)
    with d have "map_of (rate_pairs ?bs) (node_id (info b)) = Some (throughput b)"
      by simp
    moreover from b have "node_id (info b) \<in> route_ids ?bs" by (simp add: route_ids_def)
    ultimately show "backend_quanta r' (node_id (info b)) = Some (throughput b)"
      using q n by simp
  qed
  have c_rem: "\<forall>k. k \<notin> route_ids ?bs \<longrightarrow> backend_quanta r' k = None"
    using q by simp
  have c_keep: "\<forall>k. k \<in> route_ids ?bs \<and> backend_quanta r k \<noteq> None \<longrightarrow>
          backend_quanta r' k = backend_quanta r k"
    using q by auto
  have c_idx: "backends r \<noteq> [] \<longrightarrow>
        (node_id (info (backends r ! current_drr_index r)) \<in> route_ids ?bs \<longrightarrow>
           current_drr_index r' < length ?bs \<and>
           node_id (info (?bs ! current_drr_index r'))
             = node_id (info (backends r ! current_drr_index r)) \<and>
           (\<forall>j < current_drr_index r'. node_id (info (?bs ! j))
             \<noteq> node_id (info (backends r ! current_drr_index r)))) \<and>
        (node_id (info (backends r ! current_drr_index r)) \<notin> route_ids ?bs \<longrightarrow>
           current_drr_index r' =
             (if ?bs = [] then 0 else current_drr_index r mod length ?bs))"
  proof
    assume ne: "backends r \<noteq> []"
    with assms have "current_drr_index r < length (backends r)" by simp
    with ne prev have "prev = node_id (info (backends r ! current_drr_index r))"
      by (simp add: current_drr_backend_id_def)
    with idx_in idx_out show "(node_id (info (backends r ! current_drr_index r)) \<in> route_ids ?bs \<longrightarrow>
           current_drr_index r' < length ?bs \<and>
           node_id (info (?bs ! current_drr_index r'))
             = node_id (info (backends r ! current_drr_index r)) \<and>
           (\<forall>j < current_drr_index r'. node_id (info (?bs ! j))
             \<noteq> node_id (info (backends r ! current_drr_index r)))) \<and>
        (node_id (info (backends r ! current_drr_index r)) \<notin> route_ids ?bs \<longrightarrow>
           current_drr_index r' =
             (if ?bs = [] then 0 else current_drr_index r mod length ?bs))"
      by simp
  qed
  have c_idx0: "backends r = [] \<and> 0 \<notin> route_ids ?bs \<longrightarrow>
        current_drr_index r' = (if ?bs = [] then 0 else current_drr_index r mod length ?bs)"
  proof
    assume a: "backends r = [] \<and> 0 \<notin> route_ids ?bs"
    with prev have "prev = 0" by (simp add: current_drr_backend_id_def)
    with a idx_out show "current_drr_index r' =
        (if ?bs = [] then 0 else current_drr_index r mod length ?bs)" by simp
  qed
  from upd bs c_min tt c_new c_new_distinct c_rem c_keep c_idx c_idx0
  show ?thesis by blast
qed

text \<open>Witness for C8: backend 1 survives, backend 2 leaves, backend 3 is new.\<close>

theorem Update_effect_witness:
  "(backends (ex_route [ex_rate 1 2, ex_rate 2 1] [1 \<mapsto> 0, 2 \<mapsto> 1] 1 0) = [] \<or>
    current_drr_index (ex_route [ex_rate 1 2, ex_rate 2 1] [1 \<mapsto> 0, 2 \<mapsto> 1] 1 0)
      < length (backends (ex_route [ex_rate 1 2, ex_rate 2 1] [1 \<mapsto> 0, 2 \<mapsto> 1] 1 0))) \<and>
   (\<exists>r'. Update (ex_proto [ex_rate 3 5, ex_rate 1 4])
            (ex_route [ex_rate 1 2, ex_rate 2 1] [1 \<mapsto> 0, 2 \<mapsto> 1] 1 0) = Inr r' \<and>
      backends r' = [ex_rate 3 5, ex_rate 1 4] \<and> min_rate r' = 4 \<and> total_throughput r' = 9 \<and>
      backend_quanta r' 3 = Some 5 \<and> backend_quanta r' 2 = None \<and>
      backend_quanta r' 1 = Some 0 \<and> current_drr_index r' = 1)"
proof -
  let ?r = "ex_route [ex_rate 1 2, ex_rate 2 1] [1 \<mapsto> 0, 2 \<mapsto> 1] 1 0"
  let ?p = "ex_proto [ex_rate 3 5, ex_rate 1 4]"
  have h: "backends ?r = [] \<or> current_drr_index ?r < length (backends ?r)"
    by (simp add: ex_route_def)
  have ids: "route_ids (backend_rate ?p) = {3, 1}"
    by (simp add: route_ids_def ex_proto_def ex_rate_def ex_info_def)
  have big: "\<forall>b \<in> set (backend_rate ?p). throughput b \<le> DBL_MAX"
    using DBL_MAX_ge[of 5] DBL_MAX_ge[of 4] by (simp add: ex_proto_def ex_rate_def)
  from Update_effect[OF h, of ?p] obtain r' where
    upd: "Update ?p ?r = Inr r'" and bs: "backends r' = backend_rate ?p"
    and mr: "backend_rate ?p \<noteq> [] \<and> (\<forall>b \<in> set (backend_rate ?p). throughput b \<le> DBL_MAX) \<longrightarrow>
        min_rate r' = Min (throughput ` set (backend_rate ?p))"
    and tt: "total_throughput r' = sum_list (map throughput (backend_rate ?p))"
    and new: "\<forall>k. k \<in> route_ids (backend_rate ?p) \<and> backend_quanta ?r k = None \<longrightarrow>
          backend_quanta r' k = map_of (rate_pairs (backend_rate ?p)) k"
    and rem: "\<forall>k. k \<notin> route_ids (backend_rate ?p) \<longrightarrow> backend_quanta r' k = None"
    and keep: "\<forall>k. k \<in> route_ids (backend_rate ?p) \<and> backend_quanta ?r k \<noteq> None \<longrightarrow>
          backend_quanta r' k = backend_quanta ?r k"
    and idx: "backends ?r \<noteq> [] \<longrightarrow>
        (node_id (info (backends ?r ! current_drr_index ?r)) \<in> route_ids (backend_rate ?p) \<longrightarrow>
           current_drr_index r' < length (backend_rate ?p) \<and>
           node_id (info (backend_rate ?p ! current_drr_index r'))
             = node_id (info (backends ?r ! current_drr_index ?r)))"
    by blast
  have a1: "backends r' = [ex_rate 3 5, ex_rate 1 4]" using bs by (simp add: ex_proto_def)
  have a2: "min_rate r' = 4"
    using mr big by (simp add: ex_proto_def ex_rate_def)
  have a3: "total_throughput r' = 9" using tt by (simp add: ex_proto_def ex_rate_def)
  have a4: "backend_quanta r' 3 = Some 5"
    using new ids by (simp add: ex_route_def ex_proto_def ex_rate_def ex_info_def rate_pairs_def)
  have a5: "backend_quanta r' 2 = None" using rem ids by simp
  have a6: "backend_quanta r' 1 = Some 0" using keep ids by (simp add: ex_route_def)
  have prev: "node_id (info (backends ?r ! current_drr_index ?r)) = 1"
    by (simp add: ex_route_def ex_rate_def ex_info_def)
  from idx prev ids have c: "current_drr_index r' < 2"
    and d: "node_id (info ([ex_rate 3 5, ex_rate 1 4] ! current_drr_index r')) = 1"
    by (simp_all add: ex_route_def ex_proto_def)
  have a7: "current_drr_index r' = 1"
  proof (rule ccontr)
    assume "current_drr_index r' \<noteq> 1"
    with c have "current_drr_index r' = 0" by simp
    with d show False by (simp add: ex_rate_def ex_info_def)
  qed
  from h upd a1 a2 a3 a4 a5 a6 a7 show ?thesis by blast
qed

text \<open>
  Counterexample for C8 as stated. Backend 1 of rate 2 has spent its quantum (the state
  after \<^verbatim>\<open>Update\<close> and one \<^verbatim>\<open>GetBackend\<close>); updating with the same route leaves the
  quantum at 0, it is not reset to the rate 2.
\<close>

theorem Update_keeps_surviving_quanta_counterexample:
  "\<not> isl (Update (ex_proto [ex_rate 1 2]) (ex_route [ex_rate 1 2] [1 \<mapsto> 0] 2 0)) \<and>
   backend_quanta (projr (Update (ex_proto [ex_rate 1 2]) (ex_route [ex_rate 1 2] [1 \<mapsto> 0] 2 0))) 1
     = Some 0 \<and>
   throughput (ex_rate 1 2) = 2"
  by (simp add: Update_def current_drr_backend_id_def ex_proto_def ex_route_def ex_rate_def
        ex_info_def emplace_def remove_old_quanta_def Let_def)

section \<open>Properties of the dispatcher and of registration\<close>

lemma GetBackend_empty: "backends r = [] \<Longrightarrow> GetBackend r = Inl VectorIndexOutOfRange"
  by (simp add: GetBackend_def GetBackend_loop.simps)

lemma HandleLoadModel_no_backends:
  "HandleLoadModel ex_env ex_session ex_dispatcher
     = Inr (CTRL_OK, ex_dispatcher\<lparr>models := [''sess'' \<mapsto> (new_ModelRoute\<lparr>mr_model_session_id := ''sess'', min_rate := DBL_MAX\<rparr>)],
          d_sessions := [(''sess'', \<lparr>ctx_model_session = ex_session, ctx_instances = Map.empty\<rparr>)]\<rparr>)"
  apply (simp add: HandleLoadModel_def ex_env_def ex_dispatcher_def Update_def current_drr_backend_id_def new_ModelRoute_def Let_def remove_old_quanta_def)
  done

text \<open>
  Claim C1 (the code at the failing input). \<^verbatim>\<open>HandleLoadModel\<close> on a dispatcher
  without backends stores a route with an empty backend list for the session. A
  \<^verbatim>\<open>DispatchRequest\<close> for that session finds the route and calls \<^verbatim>\<open>GetBackend\<close>,
  which reads \<^verbatim>\<open>backends_[0]\<close> of the empty vector: the call leaves defined behaviour,
  and no reply with \<^verbatim>\<open>MODEL_NOT_FOUND\<close> is produced.
\<close>

theorem DispatchRequest_empty_route:
  "DispatchRequest ex_env 5 6 7 ex_query ex_reply
     (snd (projr (HandleLoadModel ex_env ex_session ex_dispatcher)))
   = Inl VectorIndexOutOfRange"
  unfolding HandleLoadModel_no_backends
  by (simp add: DispatchRequest_def ex_query_def ex_dispatcher_def
        GetBackend_empty new_ModelRoute_def)

text \<open>
  The exponent computed with \<^const>\<open>bitlen\<close> is the exponent of the binade, which is
  \<open>\<lfloor>log 2 \<bar>x\<bar>\<rfloor>\<close>.
\<close>

lemma bitlen_eqI:
  assumes "2 ^ n \<le> m" "m < 2 ^ (n + 1)"
  shows "bitlen m = int n + 1"
proof -
  from assms(2) have a: "bitlen m \<le> int n + 1"
    by (simp add: bitlen_le_iff_power nat_add_distrib)
  from assms(1) have "\<not> bitlen m \<le> int n"
    by (simp add: bitlen_le_iff_power)
  with a show ?thesis by linarith
qed

lemma fp_exponent_eqI:
  assumes lo: "2 powi e \<le> \<bar>x\<bar>" and hi: "\<bar>x\<bar> < 2 powi (e + 1)"
  shows "fp_exponent x = e"
proof (cases "0 \<le> e")
  case True
  define n where "n = nat e"
  with True have e: "e = int n" by simp
  from lo have lo': "(2::real) ^ n \<le> \<bar>x\<bar>" by (simp add: e)
  from hi have hi': "\<bar>x\<bar> < (2::real) ^ (n + 1)" by (simp add: e power_int_add)
  have "(1::real) \<le> 2 ^ n" by simp
  with lo' have one: "1 \<le> \<bar>x\<bar>" by linarith
  from lo' have "real_of_int (2 ^ n) \<le> \<bar>x\<bar>" by simp
  then have a: "2 ^ n \<le> \<lfloor>\<bar>x\<bar>\<rfloor>" by (simp only: le_floor_iff)
  from hi' have "\<bar>x\<bar> < real_of_int (2 ^ (n + 1))" by simp
  then have b: "\<lfloor>\<bar>x\<bar>\<rfloor> < 2 ^ (n + 1)" by (simp only: floor_less_iff)
  from bitlen_eqI[OF a b] one show ?thesis by (simp add: fp_exponent_def e)
next
  case False
  define k where "k = nat (- e) - 1"
  with False have e: "e = - int (k + 1)" and e1: "e + 1 = - int k" by simp_all
  have p: "(2::real) powi e = 1 / 2 ^ (k + 1)"
    unfolding e power_int_minus power_int_of_nat by (simp add: inverse_eq_divide)
  have p1: "(2::real) powi (e + 1) = 1 / 2 ^ k"
    unfolding e1 power_int_minus power_int_of_nat by (simp add: inverse_eq_divide)
  from lo have lo': "1 / (2::real) ^ (k + 1) \<le> \<bar>x\<bar>"
    unfolding p .
  from hi have hi': "\<bar>x\<bar> < 1 / (2::real) ^ k"
    unfolding p1 .
  have "1 / (2::real) ^ k \<le> 1" by simp
  with hi' have lt: "\<not> 1 \<le> \<bar>x\<bar>" by linarith
  have "0 < 1 / (2::real) ^ (k + 1)" by simp
  with lo' have pos: "0 < \<bar>x\<bar>" by linarith
  from lo' pos have "1 / \<bar>x\<bar> \<le> (2::real) ^ (k + 1)"
    by (simp add: field_simps)
  then have "1 / \<bar>x\<bar> \<le> real_of_int (2 ^ (k + 1))" by simp
  then have a: "\<lceil>1 / \<bar>x\<bar>\<rceil> \<le> 2 ^ (k + 1)" by (simp only: ceiling_le_iff)
  from hi' pos have "(2::real) ^ k < 1 / \<bar>x\<bar>"
    by (simp add: field_simps)
  then have "real_of_int (2 ^ k) < 1 / \<bar>x\<bar>" by simp
  then have b: "2 ^ k < \<lceil>1 / \<bar>x\<bar>\<rceil>" by (simp only: less_ceiling_iff)
  from a have a': "\<lceil>1 / \<bar>x\<bar>\<rceil> - 1 < 2 ^ (k + 1)" by linarith
  from b have b': "2 ^ k \<le> \<lceil>1 / \<bar>x\<bar>\<rceil> - 1" by linarith
  from bitlen_eqI[OF b' a'] lt show ?thesis by (simp add: fp_exponent_def e)
qed

lemma fp_exponent_log:
  assumes "x \<noteq> 0"
  shows "fp_exponent x = \<lfloor>log 2 \<bar>x\<bar>\<rfloor>"
proof -
  from assms have pos: "0 < \<bar>x\<bar>" by simp
  define e where "e = \<lfloor>log 2 \<bar>x\<bar>\<rfloor>"
  have c: "(2::real) powr real_of_int e = 2 powi e"
    and c1: "(2::real) powr (real_of_int e + 1) = 2 powi (e + 1)"
    using powr_real_of_int'[of 2 e] powr_real_of_int'[of 2 "e + 1"] by simp_all
  from pos have "2 powr real_of_int e \<le> \<bar>x\<bar> \<and> \<bar>x\<bar> < 2 powr (real_of_int e + 1)"
    using floor_log_eq_powr_iff[of "\<bar>x\<bar>" 2 e] by (simp add: e_def)
  then have "2 powi e \<le> \<bar>x\<bar>" and "\<bar>x\<bar> < 2 powi (e + 1)"
    unfolding c c1 by simp_all
  from fp_exponent_eqI[OF this] show ?thesis by (simp add: e_def)
qed


lemma fp_round_binary64_exec:
  "fp_round binary64 1700000000005000123 = 1700000000005000192"
proof -
  have e: "fp_exponent 1700000000005000123 = 60"
    by (rule fp_exponent_eqI) simp_all
  show ?thesis
    by (simp add: fp_round_def fp_ulp_def e binary64_def round_even_def Let_def)
qed

lemma fp_round_binary64_elapse: "fp_round binary64 2500000 = 2500000"
proof -
  have e: "fp_exponent 2500000 = 21"
    by (rule fp_exponent_eqI) simp_all
  show ?thesis
    by (simp add: fp_round_def fp_ulp_def e binary64_def round_even_def Let_def)
qed

lemma fp_round_binary64_finish:
  "fp_round binary64 1700000000007500192 = 1700000000007500288"
proof -
  have e: "fp_exponent 1700000000007500192 = 60"
    by (rule fp_exponent_eqI) simp_all
  show ?thesis
    by (simp add: fp_round_def fp_ulp_def e binary64_def round_even_def Let_def)
qed

lemma fp_round_binary32_exec:
  "fp_round binary32 1700000000005000123 = 1700000007681212416"
proof -
  have e: "fp_exponent 1700000000005000123 = 60"
    by (rule fp_exponent_eqI) simp_all
  show ?thesis
    by (simp add: fp_round_def fp_ulp_def e binary32_def round_even_def Let_def)
qed

lemma fp_round_binary32_elapse: "fp_round binary32 2500000 = 2500000"
proof -
  have e: "fp_exponent 2500000 = 21"
    by (rule fp_exponent_eqI) simp_all
  show ?thesis
    by (simp add: fp_round_def fp_ulp_def e binary32_def round_even_def Let_def)
qed

lemma fp_round_binary32_finish:
  "fp_round binary32 1700000007683712416 = 1700000007681212416"
proof -
  have e: "fp_exponent 1700000007683712416 = 60"
    by (rule fp_exponent_eqI) simp_all
  show ?thesis
    by (simp add: fp_round_def fp_ulp_def e binary32_def round_even_def Let_def)
qed

text \<open>
  Whenever a batch plan is built, its execution time and its deadline are exact integer
  sums, and its expected finish time is the truncation of the floating-point sum.
\<close>

lemma build_and_enqueue_times:
  assumes "build_and_enqueue env now t_dispatch query pid backend = Inr backend'"
  shows "\<exists>inst plan.
           instances backend (q_model_session_id query) = Some inst \<and>
           backend' = backend\<lparr>enqueued := enqueued backend @ [plan]\<rparr> \<and>
           exec_time_ns plan = now + 5 * 1000000 \<and>
           deadline_ns plan = frontend_recv_ns (clock query)
             + int (unat (latency_sla (ParseModelSession env (q_model_session_id query)))) * 1000 \<and>
           double_to_int64
             (fp_round (forward_latency_type env)
                (fp_round (forward_latency_type env) (real_of_int (exec_time_ns plan))
                 + fp_round (forward_latency_type env)
                     (GetForwardLatency (profile inst) 1 * 1000)))
             = Inr (expected_finish_time_ns plan)"
  using assms
  by (auto simp: build_and_enqueue_def int64_def kNetworkLatency_ns_def Let_def
           split: option.splits sum.splits if_splits)

lemma ex_GetBackend:
  "GetBackend (ex_route [ex_rate 1 1] [1 \<mapsto> 1] 1 0)
     = Inr (ex_info 1, ex_route [ex_rate 1 1] [1 \<mapsto> 0] 1 0)"
  unfolding GetBackend_def
  by (subst GetBackend_loop.simps) (simp add: ex_route_def ex_rate_def ex_info_def)

lemma ex_build_and_enqueue_binary64:
  "build_and_enqueue ex_env 1700000000000000123 1700000000000000500
       (ex_query_epoch\<lparr>clock := (clock ex_query_epoch)\<lparr>dispatcher_sched_ns := 1700000000000000100\<rparr>,
                        global_id := 0\<rparr>)
       0 (ex_backend_delegate 1)
     = Inr ((ex_backend_delegate 1)\<lparr>enqueued :=
         [\<lparr> plan_id = 0, bp_model_session_id = ''sess'',
            queries_without_input =
              [ex_query_epoch\<lparr>clock := (clock ex_query_epoch)
                   \<lparr>dispatcher_sched_ns := 1700000000000000100,
                    dispatcher_dispatch_ns := 1700000000000000500\<rparr>, global_id := 0\<rparr>],
            exec_time_ns = 1700000000005000123,
            deadline_ns = 1700000000100000000,
            expected_finish_time_ns = 1700000000007500288 \<rparr>]\<rparr>)"
  by (simp add: build_and_enqueue_def ex_backend_delegate_def ex_query_epoch_def ex_env_def
        ex_session_def ex_profile_def new_InstanceInfo_def int64_def double_to_int64_def
        kNetworkLatency_ns_def Let_def
        fp_round_binary64_exec fp_round_binary64_elapse fp_round_binary64_finish)

lemma ex_build_and_enqueue_binary32:
  "build_and_enqueue (ex_env\<lparr>forward_latency_type := binary32\<rparr>)
       1700000000000000123 1700000000000000500
       (ex_query_epoch\<lparr>clock := (clock ex_query_epoch)\<lparr>dispatcher_sched_ns := 1700000000000000100\<rparr>,
                        global_id := 0\<rparr>)
       0 (ex_backend_delegate 1)
     = Inr ((ex_backend_delegate 1)\<lparr>enqueued :=
         [\<lparr> plan_id = 0, bp_model_session_id = ''sess'',
            queries_without_input =
              [ex_query_epoch\<lparr>clock := (clock ex_query_epoch)
                   \<lparr>dispatcher_sched_ns := 1700000000000000100,
                    dispatcher_dispatch_ns := 1700000000000000500\<rparr>, global_id := 0\<rparr>],
            exec_time_ns = 1700000000005000123,
            deadline_ns = 1700000000100000000,
            expected_finish_time_ns = 1700000007681212416 \<rparr>]\<rparr>)"
  by (simp add: build_and_enqueue_def ex_backend_delegate_def ex_query_epoch_def ex_env_def
        ex_session_def ex_profile_def new_InstanceInfo_def int64_def double_to_int64_def
        kNetworkLatency_ns_def Let_def
        fp_round_binary32_exec fp_round_binary32_elapse fp_round_binary32_finish)

text \<open>
  Claim C4 (the code at the failing input). A successfully dispatched query whose plan
  does not have \<open>expected_finish_time_ns = exec_time_ns + forward_latency(batch=1)\<close>.
  The query is received at 1700000000000000000 ns with an SLA of 100 ms and dispatched at
  \<open>now = 1700000000000000123\<close> ns to backend 1, whose forward latency for batch 1 is
  2500 microseconds. \<^verbatim>\<open>DispatchRequest\<close> replies \<^verbatim>\<open>CTRL_OK\<close> and enqueues one plan with
  \<open>exec_time_ns = now + 5 ms\<close> and \<open>deadline_ns = frontend_recv_ns + latency_sla_us * 1000\<close>,
  but the expected finish time went through the floating-point type of the latency: it is
  165 ns after \<open>exec_time_ns + 2500000\<close> when that type is \<^verbatim>\<open>double\<close>, and 7673712293 ns
  (7.67 s) after it when that type is \<^verbatim>\<open>float\<close>.
\<close>

theorem DispatchRequest_finish_time_rounded:
  "(\<exists>d' plan.
      DispatchRequest ex_env 1700000000000000100 1700000000000000123 1700000000000000500
          ex_query_epoch ex_reply ex_dispatcher1
        = Inr (ex_reply\<lparr>dr_status := CTRL_OK\<rparr>, d') \<and>
      map_of (d_backends d') 1 = Some ((ex_backend_delegate 1)\<lparr>enqueued := [plan]\<rparr>) \<and>
      exec_time_ns plan = 1700000000000000123 + 5 * 1000000 \<and>
      deadline_ns plan = 1700000000000000000 + 100000 * 1000 \<and>
      GetForwardLatency ex_profile 1 * 1000 = 2500000 \<and>
      expected_finish_time_ns plan = exec_time_ns plan + 2500000 + 165) \<and>
   (\<exists>d' plan.
      DispatchRequest (ex_env\<lparr>forward_latency_type := binary32\<rparr>)
          1700000000000000100 1700000000000000123 1700000000000000500
          ex_query_epoch ex_reply ex_dispatcher1
        = Inr (ex_reply\<lparr>dr_status := CTRL_OK\<rparr>, d') \<and>
      map_of (d_backends d') 1 = Some ((ex_backend_delegate 1)\<lparr>enqueued := [plan]\<rparr>) \<and>
      exec_time_ns plan = 1700000000000000123 + 5 * 1000000 \<and>
      deadline_ns plan = 1700000000000000000 + 100000 * 1000 \<and>
      expected_finish_time_ns plan = exec_time_ns plan + 2500000 + 7673712293)"
proof -
  let ?q = "ex_query_epoch\<lparr>clock := (clock ex_query_epoch)
               \<lparr>dispatcher_sched_ns := 1700000000000000100,
                dispatcher_dispatch_ns := 1700000000000000500\<rparr>, global_id := 0\<rparr>"
  let ?plan64 = "\<lparr> plan_id = 0, bp_model_session_id = ''sess'',
            queries_without_input = [?q],
            exec_time_ns = 1700000000005000123,
            deadline_ns = 1700000000100000000,
            expected_finish_time_ns = 1700000000007500288 \<rparr>"
  let ?plan32 = "\<lparr> plan_id = 0, bp_model_session_id = ''sess'',
            queries_without_input = [?q],
            exec_time_ns = 1700000000005000123,
            deadline_ns = 1700000000100000000,
            expected_finish_time_ns = 1700000007681212416 \<rparr>"
  let ?d = "\<lambda>plan. ex_dispatcher1
       \<lparr>models := [''sess'' \<mapsto> ex_route [ex_rate 1 1] [1 \<mapsto> 0] 1 0],
        d_backends := [(1, (ex_backend_delegate 1)\<lparr>enqueued := [plan]\<rparr>)],
        next_global_id := 1, next_plan_id := 1\<rparr>"
  have sid: "q_model_session_id ex_query_epoch = ''sess''" by (simp add: ex_query_epoch_def)
  have d64: "DispatchRequest ex_env 1700000000000000100 1700000000000000123 1700000000000000500
          ex_query_epoch ex_reply ex_dispatcher1
        = Inr (ex_reply\<lparr>dr_status := CTRL_OK\<rparr>, ?d ?plan64)"
    by (simp add: DispatchRequest_def sid ex_dispatcher1_def ex_GetBackend ex_info_def
          ex_build_and_enqueue_binary64 Let_def)
  have d32: "DispatchRequest (ex_env\<lparr>forward_latency_type := binary32\<rparr>)
          1700000000000000100 1700000000000000123 1700000000000000500
          ex_query_epoch ex_reply ex_dispatcher1
        = Inr (ex_reply\<lparr>dr_status := CTRL_OK\<rparr>, ?d ?plan32)"
    by (simp add: DispatchRequest_def sid ex_dispatcher1_def ex_GetBackend ex_info_def
          ex_build_and_enqueue_binary32 Let_def)
  have lat: "GetForwardLatency ex_profile 1 * 1000 = 2500000" by (simp add: ex_profile_def)
  have a: "\<exists>d' plan.
      DispatchRequest ex_env 1700000000000000100 1700000000000000123 1700000000000000500
          ex_query_epoch ex_reply ex_dispatcher1
        = Inr (ex_reply\<lparr>dr_status := CTRL_OK\<rparr>, d') \<and>
      map_of (d_backends d') 1 = Some ((ex_backend_delegate 1)\<lparr>enqueued := [plan]\<rparr>) \<and>
      exec_time_ns plan = 1700000000000000123 + 5 * 1000000 \<and>
      deadline_ns plan = 1700000000000000000 + 100000 * 1000 \<and>
      GetForwardLatency ex_profile 1 * 1000 = 2500000 \<and>
      expected_finish_time_ns plan = exec_time_ns plan + 2500000 + 165"
    unfolding d64 using lat by (intro exI[of _ "?d ?plan64"] exI[of _ ?plan64]) simp
  have b: "\<exists>d' plan.
      DispatchRequest (ex_env\<lparr>forward_latency_type := binary32\<rparr>)
          1700000000000000100 1700000000000000123 1700000000000000500
          ex_query_epoch ex_reply ex_dispatcher1
        = Inr (ex_reply\<lparr>dr_status := CTRL_OK\<rparr>, d') \<and>
      map_of (d_backends d') 1 = Some ((ex_backend_delegate 1)\<lparr>enqueued := [plan]\<rparr>) \<and>
      exec_time_ns plan = 1700000000000000123 + 5 * 1000000 \<and>
      deadline_ns plan = 1700000000000000000 + 100000 * 1000 \<and>
      expected_finish_time_ns plan = exec_time_ns plan + 2500000 + 7673712293"
    unfolding d32 by (intro exI[of _ "?d ?plan32"] exI[of _ ?plan32]) simp
  from a b show ?thesis by (rule conjI)
qed

text \<open>
  Claim C9, as amended. A registration with a node id that is already registered: the
  dispatcher's \<^verbatim>\<open>HandleRegister\<close> sets the conflict status of the node type in the reply
  and leaves the dispatcher unchanged; the scheduler's \<^verbatim>\<open>RegisterFrontend\<close> and
  \<^verbatim>\<open>RegisterBackend\<close> fail their \<^verbatim>\<open>CHECK\<close>, which aborts the process.
\<close>

theorem Register_conflict:
  "(rq_node_type request = FRONTEND_NODE \<and> d_frontends d (rq_node_id request) \<noteq> None \<longrightarrow>
      HandleRegister env beacon peer_ip request reply d
        = (reply\<lparr>rr_status := CTRL_FRONTEND_NODE_ID_CONFLICT\<rparr>, d)) \<and>
   (rq_node_type request = BACKEND_NODE \<and> map_of (d_backends d) (rq_node_id request) \<noteq> None \<longrightarrow>
      HandleRegister env beacon peer_ip request reply d
        = (reply\<lparr>rr_status := CTRL_BACKEND_NODE_ID_CONFLICT\<rparr>, d)) \<and>
   (sch_frontends s (sf_node_id frontend) \<noteq> None \<longrightarrow>
      RegisterFrontend frontend s = Inl FatalCheckFailed) \<and>
   (map_of (sch_backends s) (bd_node_id ops backend) \<noteq> None \<longrightarrow>
      RegisterBackend ops AddBackend backend s = Inl FatalCheckFailed)"
proof (intro conjI impI)
  assume "rq_node_type request = FRONTEND_NODE \<and> d_frontends d (rq_node_id request) \<noteq> None"
  then show "HandleRegister env beacon peer_ip request reply d
        = (reply\<lparr>rr_status := CTRL_FRONTEND_NODE_ID_CONFLICT\<rparr>, d)"
    by (auto simp: HandleRegister_def Let_def)
next
  assume "rq_node_type request = BACKEND_NODE \<and> map_of (d_backends d) (rq_node_id request) \<noteq> None"
  then show "HandleRegister env beacon peer_ip request reply d
        = (reply\<lparr>rr_status := CTRL_BACKEND_NODE_ID_CONFLICT\<rparr>, d)"
    by (auto simp: HandleRegister_def Let_def)
next
  assume "sch_frontends s (sf_node_id frontend) \<noteq> None"
  then show "RegisterFrontend frontend s = Inl FatalCheckFailed"
    by (simp add: RegisterFrontend_def)
next
  assume "map_of (sch_backends s) (bd_node_id ops backend) \<noteq> None"
  then show "RegisterBackend ops AddBackend backend s = Inl FatalCheckFailed"
    by (simp add: RegisterBackend_def)
qed

text \<open>Witness for C9: frontend 5 and backend 1 are registered at the dispatcher and at
  the scheduler, and register again.\<close>

theorem Register_conflict_witness:
  "HandleRegister ex_env 1 ''10.0.0.9'' (ex_register FRONTEND_NODE 5) ex_register_reply ex_dispatcher1
     = (ex_register_reply\<lparr>rr_status := CTRL_FRONTEND_NODE_ID_CONFLICT\<rparr>, ex_dispatcher1) \<and>
   HandleRegister ex_env 1 ''10.0.0.1'' (ex_register BACKEND_NODE 1) ex_register_reply ex_dispatcher1
     = (ex_register_reply\<lparr>rr_status := CTRL_BACKEND_NODE_ID_CONFLICT\<rparr>, ex_dispatcher1) \<and>
   RegisterFrontend (ex_sched_frontend 5) (ex_scheduler [(1, ex_backend 1 (- 1) 100 [])] [] 30)
     = Inl FatalCheckFailed \<and>
   RegisterBackend ex_ops (\<lambda>b s. Inr s) (ex_backend 1 (- 1) 100 [])
       (ex_scheduler [(1, ex_backend 1 (- 1) 100 [])] [] 30)
     = Inl FatalCheckFailed"
proof -
  have f: "rq_node_type (ex_register FRONTEND_NODE 5) = FRONTEND_NODE \<and>
      d_frontends ex_dispatcher1 (rq_node_id (ex_register FRONTEND_NODE 5)) \<noteq> None"
    by (simp add: ex_register_def ex_dispatcher1_def)
  have b: "rq_node_type (ex_register BACKEND_NODE 1) = BACKEND_NODE \<and>
      map_of (d_backends ex_dispatcher1) (rq_node_id (ex_register BACKEND_NODE 1)) \<noteq> None"
    by (simp add: ex_register_def ex_dispatcher1_def)
  have sf: "sch_frontends (ex_scheduler [(1, ex_backend 1 (- 1) 100 [])] [] 30)
        (sf_node_id (ex_sched_frontend 5)) \<noteq> None"
    by (simp add: ex_scheduler_def ex_sched_frontend_def)
  have sb: "map_of (sch_backends (ex_scheduler [(1, ex_backend 1 (- 1) 100 [])] [] 30))
        (bd_node_id ex_ops (ex_backend 1 (- 1) 100 [])) \<noteq> None"
    by (simp add: ex_scheduler_def ex_ops_def ex_backend_def)
  note 1 = Register_conflict[of "ex_register FRONTEND_NODE 5" ex_dispatcher1 ex_env 1 "''10.0.0.9''"
      ex_register_reply, THEN conjunct1, THEN mp, OF f]
  note 2 = Register_conflict[of "ex_register BACKEND_NODE 1" ex_dispatcher1 ex_env 1 "''10.0.0.1''"
      ex_register_reply, THEN conjunct2, THEN conjunct1, THEN mp, OF b]
  note 3 = Register_conflict[where s = "ex_scheduler [(1, ex_backend 1 (- 1) 100 [])] [] 30"
      and frontend = "ex_sched_frontend 5", THEN conjunct2, THEN conjunct2, THEN conjunct1,
      THEN mp, OF sf]
  note 4 = Register_conflict[where s = "ex_scheduler [(1, ex_backend 1 (- 1) 100 [])] [] 30"
      and ops = ex_ops and backend = "ex_backend 1 (- 1) 100 []" and AddBackend = "\<lambda>b s. Inr s",
      THEN conjunct2, THEN conjunct2, THEN conjunct2, THEN mp, OF sb]
  from 1 2 3 4 show ?thesis by blast
qed

text \<open>
  Counterexample for C9 as stated: the scheduler's \<^verbatim>\<open>RegisterFrontend\<close> with the id of
  the registered frontend 5 ends in the failed check; there is no reply that could carry
  an error status.
\<close>

theorem RegisterFrontend_duplicate_counterexample:
  "RegisterFrontend (ex_sched_frontend 5) (ex_scheduler [(1, ex_backend 1 (- 1) 100 [])] [] 30)
     = Inl FatalCheckFailed"
  by (simp add: RegisterFrontend_def ex_scheduler_def ex_sched_frontend_def)

section \<open>Properties of the scheduler\<close>

text \<open>
  Claim C7. \<^verbatim>\<open>FindBestBackend\<close> finds no backend exactly when there is no candidate.
  The backend it returns is a candidate: a backend of the list with \<open>workload_id < 0\<close>
  that is not in the skip set, that is idle when the request rate is about 0, and for
  which \<^verbatim>\<open>PrepareLoadModel\<close> gave the returned instance. It has the maximal throughput
  among the candidates when the request rate is about 0 or when every candidate's
  throughput is below the request rate, and the maximal occupancy otherwise.
\<close>

theorem FindBestBackend_policy:
  "(FindBestBackend ops ms rate skips bs = None \<longleftrightarrow> candidates ops ms rate skips bs = []) \<and>
   (\<forall>entry inst. FindBestBackend ops ms rate skips bs = Some (entry, inst) \<longrightarrow>
      (\<exists>oc. (entry, inst, oc) \<in> set (candidates ops ms rate skips bs) \<and>
         entry \<in> set bs \<and> bd_workload_id ops (snd entry) < 0 \<and>
         bd_node_id ops (snd entry) \<notin> skips \<and>
         (\<bar>rate\<bar> < 1 / 1000 \<longrightarrow> bd_IsIdle ops (snd entry)) \<and>
         bd_PrepareLoadModel ops (snd entry) ms rate = Some (inst, oc) \<and>
         (if \<bar>rate\<bar> < 1 / 1000 \<or>
             (\<forall>c \<in> set (candidates ops ms rate skips bs). inst_throughput (fst (snd c)) < rate)
          then \<forall>c \<in> set (candidates ops ms rate skips bs).
                 inst_throughput (fst (snd c)) \<le> inst_throughput inst
          else \<forall>c \<in> set (candidates ops ms rate skips bs). snd (snd c) \<le> oc)))"
proof -
  let ?cs = "candidates ops ms rate skips bs"
  let ?loads = "foldl (consider_backend ops ms rate skips) (None, None) bs"
  note inv = fold_consider_backend[of ops ms rate skips bs]
  have tp_none: "fst ?loads = None \<longleftrightarrow> ?cs = []"
    using inv by (cases "fst ?loads") auto
  have occ_none: "snd ?loads = None \<longleftrightarrow> ?cs = []"
    using inv by (cases "snd ?loads") auto
  have tp_some: "\<And>t. fst ?loads = Some t \<Longrightarrow> t \<in> set ?cs \<and>
        (\<forall>c \<in> set ?cs. inst_throughput (fst (snd c)) \<le> inst_throughput (fst (snd t)))"
    using inv by auto
  have occ_some: "\<And>t. snd ?loads = Some t \<Longrightarrow> t \<in> set ?cs \<and>
        (\<forall>c \<in> set ?cs. snd (snd c) \<le> snd (snd t))"
    using inv by auto
  have none: "FindBestBackend ops ms rate skips bs = None \<longleftrightarrow> ?cs = []"
  proof (cases "fst ?loads")
    case None
    with tp_none show ?thesis by (simp add: FindBestBackend_def Let_def)
  next
    case (Some t)
    with tp_none have ne: "?cs \<noteq> []" by simp
    with occ_none obtain u where u: "snd ?loads = Some u" by (cases "snd ?loads") auto
    from Some u ne show ?thesis
      by (auto simp: FindBestBackend_def Let_def split: prod.splits)
  qed
  have some: "\<exists>oc. (entry, inst, oc) \<in> set ?cs \<and>
         entry \<in> set bs \<and> bd_workload_id ops (snd entry) < 0 \<and>
         bd_node_id ops (snd entry) \<notin> skips \<and>
         (\<bar>rate\<bar> < 1 / 1000 \<longrightarrow> bd_IsIdle ops (snd entry)) \<and>
         bd_PrepareLoadModel ops (snd entry) ms rate = Some (inst, oc) \<and>
         (if \<bar>rate\<bar> < 1 / 1000 \<or> (\<forall>c \<in> set ?cs. inst_throughput (fst (snd c)) < rate)
          then \<forall>c \<in> set ?cs. inst_throughput (fst (snd c)) \<le> inst_throughput inst
          else \<forall>c \<in> set ?cs. snd (snd c) \<le> oc)"
    if fb: "FindBestBackend ops ms rate skips bs = Some (entry, inst)" for entry inst
  proof -
    from fb none have ne: "?cs \<noteq> []" by auto
    with tp_none obtain t where t: "fst ?loads = Some t" by (cases "fst ?loads") auto
    from ne occ_none obtain u where u: "snd ?loads = Some u" by (cases "snd ?loads") auto
    obtain tb ti toc where t3: "t = (tb, ti, toc)" by (cases t) auto
    obtain ub ui uoc where u3: "u = (ub, ui, uoc)" by (cases u) auto
    from tp_some[OF t] t3 have tmem: "(tb, ti, toc) \<in> set ?cs"
      and tmax: "\<forall>c \<in> set ?cs. inst_throughput (fst (snd c)) \<le> inst_throughput ti" by simp_all
    from occ_some[OF u] u3 have umem: "(ub, ui, uoc) \<in> set ?cs"
      and umax: "\<forall>c \<in> set ?cs. snd (snd c) \<le> uoc" by simp_all
    show ?thesis
    proof (cases "\<bar>rate\<bar> < 1 / 1000 \<or> inst_throughput ti < rate")
      case True
      with fb t t3 have eq: "entry = tb" "inst = ti"
        by (auto simp: FindBestBackend_def Let_def split: if_splits)
      have cond: "\<bar>rate\<bar> < 1 / 1000 \<or> (\<forall>c \<in> set ?cs. inst_throughput (fst (snd c)) < rate)"
      proof (cases "\<bar>rate\<bar> < 1 / 1000")
        case True then show ?thesis by simp
      next
        case False
        with True have "inst_throughput ti < rate" by simp
        with tmax show ?thesis by fastforce
      qed
      from candidates_mem[OF tmem] tmem tmax cond eq show ?thesis
        by (intro exI[of _ toc]) simp
    next
      case False
      with fb t t3 u u3 have eq: "entry = ub" "inst = ui"
        by (auto simp: FindBestBackend_def Let_def split: if_splits)
      have ncond: "\<not> (\<bar>rate\<bar> < 1 / 1000 \<or> (\<forall>c \<in> set ?cs. inst_throughput (fst (snd c)) < rate))"
      proof -
        from False have "\<not> inst_throughput ti < rate" by simp
        with tmem have "\<not> (\<forall>c \<in> set ?cs. inst_throughput (fst (snd c)) < rate)"
          by force
        with False show ?thesis by simp
      qed
      from candidates_mem[OF umem] umem umax ncond eq show ?thesis
        by (intro exI[of _ uoc]) (simp, blast)
    qed
  qed
  from none some show ?thesis by blast
qed

lemma ex_candidates:
  "candidates ex_ops ex_session 30 {} ex_two_backends
     = [((1, ex_backend 1 (- 1) 100 []), ex_inst 30 30, 3 / 10),
        ((2, ex_backend 2 (- 1) 50 []), ex_inst 30 30, 3 / 5)]"
  by (simp add: candidates_def map_filter_simps candidate_def ex_ops_def ex_two_backends_def
        ex_backend_def ex_inst_def Let_def)

lemma ex_FindBestBackend:
  "FindBestBackend ex_ops ex_session 30 {} ex_two_backends
     = Some ((2, ex_backend 2 (- 1) 50 []), ex_inst 30 30)"
  by (simp add: FindBestBackend_def consider_backend_def ex_ops_def ex_two_backends_def
        ex_backend_def ex_inst_def Let_def)

text \<open>Witness for C7: two idle backends of capacity 100 and 50 and a request rate of 30;
  both can serve it, and the smaller backend has the higher occupancy.\<close>

theorem FindBestBackend_policy_witness:
  "FindBestBackend ex_ops ex_session 30 {} ex_two_backends
     = Some ((2, ex_backend 2 (- 1) 50 []), ex_inst 30 30) \<and>
   candidates ex_ops ex_session 30 {} ex_two_backends
     = [((1, ex_backend 1 (- 1) 100 []), ex_inst 30 30, 3 / 10),
        ((2, ex_backend 2 (- 1) 50 []), ex_inst 30 30, 3 / 5)] \<and>
   list_all (\<lambda>c. snd (snd c) \<le> 3 / 5) (candidates ex_ops ex_session 30 {} ex_two_backends)"
proof -
  let ?cs = "candidates ex_ops ex_session 30 {} ex_two_backends"
  let ?e = "(2 :: node_id, ex_backend 2 (- 1) 50 [])"
  note pol = FindBestBackend_policy[of ex_ops ex_session 30 "{}" ex_two_backends]
  from pol ex_FindBestBackend obtain oc where
    prep: "bd_PrepareLoadModel ex_ops (snd ?e) ex_session 30 = Some (ex_inst 30 30, oc)"
    and sel: "if \<bar>30 :: real\<bar> < 1 / 1000 \<or> (\<forall>c \<in> set ?cs. inst_throughput (fst (snd c)) < 30)
          then \<forall>c \<in> set ?cs. inst_throughput (fst (snd c)) \<le> inst_throughput (ex_inst 30 30)
          else \<forall>c \<in> set ?cs. snd (snd c) \<le> oc"
    by blast
  from prep have oc: "oc = 3 / 5"
    by (simp add: ex_ops_def ex_backend_def ex_inst_def Let_def)
  have ncond: "\<not> (\<bar>30 :: real\<bar> < 1 / 1000 \<or> (\<forall>c \<in> set ?cs. inst_throughput (fst (snd c)) < 30))"
    by (simp add: ex_candidates ex_inst_def)
  from sel have "\<forall>c \<in> set ?cs. snd (snd c) \<le> oc"
    by (simp only: ncond if_False)
  then have "list_all (\<lambda>c. snd (snd c) \<le> 3 / 5) ?cs"
    unfolding oc by (simp only: list_all_iff)
  with ex_FindBestBackend ex_candidates show ?thesis by blast
qed

lemma place_loop_fails:
  "place_loop ops ms bs w used acc = None \<Longrightarrow> placement_fails ops ms bs w used"
proof (induction ops ms bs w used acc rule: place_loop.induct)
  case (1 ops ms bs w used acc)
  from "1.prems" have big: "1 / 1000 < w"
    by (subst (asm) place_loop.simps) (simp split: if_splits)
  show ?case
  proof (cases "FindBestBackend ops ms w used bs")
    case None
    with big show ?thesis by (rule fails_now)
  next
    case (Some r)
    obtain backend inst where r: "r = (backend, inst)" by (cases r) auto
    from "1.prems" big Some r
    have rec: "place_loop ops ms bs (w - inst_throughput inst)
                 (insert (bd_node_id ops (snd backend)) used) (acc @ [(backend, inst)]) = None"
      by (subst (asm) place_loop.simps) simp
    have "placement_fails ops ms bs (w - inst_throughput inst)
            (insert (bd_node_id ops (snd backend)) used)"
      using "1.IH"[OF big Some r[symmetric] rec] .
    with big Some r show ?thesis by (auto intro: fails_later)
  qed
qed

lemma fails_place_loop:
  "placement_fails ops ms bs w used \<Longrightarrow> place_loop ops ms bs w used acc = None"
proof (induction arbitrary: acc rule: placement_fails.induct)
  case (fails_now workload used)
  then show ?case by (subst place_loop.simps) simp
next
  case (fails_later workload used backend inst_info)
  then show ?case by (subst place_loop.simps) simp
qed

lemma LoadModel_status_cases:
  assumes "LoadModel ops env request reply s = Inr (reply', s')"
    and "lm_status reply' = NOT_ENOUGH_BACKENDS"
  shows "s' = s"
  using assms
  by (auto simp: LoadModel_def Let_def split: option.splits sum.splits prod.splits)

text \<open>
  Claim C2. Whenever \<^verbatim>\<open>LoadModel\<close> replies \<^verbatim>\<open>NOT_ENOUGH_BACKENDS\<close> the scheduler is
  unchanged: no backend's loaded models, no entry of the session table, no subscription
  of a frontend and no backend weight differ. For a request of a known model from a
  registered frontend for a session that is not loaded yet, if some step of the placement
  fails (the single \<^verbatim>\<open>FindBestBackend\<close> for workload 0, or a round of the loop
  otherwise), the reply is \<^verbatim>\<open>NOT_ENOUGH_BACKENDS\<close> and the scheduler is unchanged.
\<close>

theorem LoadModel_not_enough_backends:
  "(\<forall>reply' s'. LoadModel ops env request reply s = Inr (reply', s') \<and>
        lm_status reply' = NOT_ENOUGH_BACKENDS \<longrightarrow> s' = s) \<and>
   (\<forall>model_info frontend.
      GetModelInfo env (ModelSessionToModelID env (lm_model_session request)) = Some model_info \<and>
      sch_frontends s (lm_node_id request) = Some frontend \<and>
      map_of (session_table s)
        (ModelSessionToString env (default_image_size model_info (lm_model_session request))) = None \<and>
      (if estimate_workload request = 0
       then FindBestBackend ops (default_image_size model_info (lm_model_session request))
              0 {} (sch_backends s) = None
       else placement_fails ops (default_image_size model_info (lm_model_session request))
              (sch_backends s) (estimate_workload request) {}) \<longrightarrow>
      LoadModel ops env request reply s = Inr (reply\<lparr>lm_status := NOT_ENOUGH_BACKENDS\<rparr>, s))"
proof (intro conjI allI impI)
  fix reply' s'
  assume "LoadModel ops env request reply s = Inr (reply', s') \<and>
        lm_status reply' = NOT_ENOUGH_BACKENDS"
  then show "s' = s" using LoadModel_status_cases by blast
next
  fix model_info frontend
  let ?ms = "default_image_size model_info (lm_model_session request)"
  assume a: "GetModelInfo env (ModelSessionToModelID env (lm_model_session request)) = Some model_info \<and>
      sch_frontends s (lm_node_id request) = Some frontend \<and>
      map_of (session_table s) (ModelSessionToString env ?ms) = None \<and>
      (if estimate_workload request = 0
       then FindBestBackend ops ?ms 0 {} (sch_backends s) = None
       else placement_fails ops ?ms (sch_backends s) (estimate_workload request) {})"
  have "find_assign_backends ops ?ms (estimate_workload request) (sch_backends s) = None"
  proof (cases "estimate_workload request = 0")
    case True
    with a show ?thesis by (simp add: find_assign_backends_def)
  next
    case False
    with a have "placement_fails ops ?ms (sch_backends s) (estimate_workload request) {}" by simp
    from fails_place_loop[OF this] False show ?thesis by (simp add: find_assign_backends_def)
  qed
  with a show "LoadModel ops env request reply s = Inr (reply\<lparr>lm_status := NOT_ENOUGH_BACKENDS\<rparr>, s)"
    by (simp add: LoadModel_def Let_def)
qed

lemma ex_find_first:
  "FindBestBackend ex_ops ex_session 150 {} [(1, ex_backend 1 (- 1) 100 [])]
     = Some ((1, ex_backend 1 (- 1) 100 []), ex_inst 100 150)"
  by (simp add: FindBestBackend_def consider_backend_def ex_ops_def ex_backend_def ex_inst_def
        Let_def)

lemma ex_find_second:
  "FindBestBackend ex_ops ex_session 50 {1} [(1, ex_backend 1 (- 1) 100 [])] = None"
  by (simp add: FindBestBackend_def consider_backend_def ex_ops_def ex_backend_def Let_def)

lemma ex_placement_fails:
  "placement_fails ex_ops ex_session [(1, ex_backend 1 (- 1) 100 [])] 150 {}"
proof -
  have big1: "(1::real) / 1000 < 50" by simp
  have big2: "(1::real) / 1000 < 150" by simp
  have f2: "placement_fails ex_ops ex_session [(1, ex_backend 1 (- 1) 100 [])] 50 {1}"
    by (rule fails_now[OF big1 ex_find_second])
  have w: "150 - inst_throughput (ex_inst 100 150) = 50"
    by (simp add: ex_inst_def)
  have u: "insert (bd_node_id ex_ops (snd (1 :: node_id, ex_backend 1 (- 1) 100 []))) {} = {1}"
    by (simp add: ex_ops_def ex_backend_def)
  show ?thesis
    by (rule fails_later[OF big2 ex_find_first]) (simp only: w u f2)
qed

text \<open>Witness for C2: a workload of 150 with a single backend of capacity 100; the first
  round places 100 on it, the second finds no backend.\<close>

theorem LoadModel_not_enough_backends_witness:
  "placement_fails ex_ops ex_session [(1, ex_backend 1 (- 1) 100 [])] 150 {} \<and>
   LoadModel ex_ops ex_env (ex_lm_request 150) ex_lm_reply
       (ex_scheduler [(1, ex_backend 1 (- 1) 100 [])] [] 30)
     = Inr (ex_lm_reply\<lparr>lm_status := NOT_ENOUGH_BACKENDS\<rparr>,
            ex_scheduler [(1, ex_backend 1 (- 1) 100 [])] [] 30)"
proof -
  let ?s = "ex_scheduler [(1, ex_backend 1 (- 1) 100 [])] [] 30"
  let ?mi = "\<lparr> resizable = None, mi_image_height = 0, mi_image_width = 0 \<rparr>"
  have ms: "default_image_size ?mi (lm_model_session (ex_lm_request 150)) = ex_session"
    by (simp add: default_image_size_def ex_lm_request_def)
  have h: "GetModelInfo ex_env (ModelSessionToModelID ex_env (lm_model_session (ex_lm_request 150)))
        = Some ?mi \<and>
      sch_frontends ?s (lm_node_id (ex_lm_request 150)) = Some (ex_sched_frontend 5) \<and>
      map_of (session_table ?s)
        (ModelSessionToString ex_env
           (default_image_size ?mi (lm_model_session (ex_lm_request 150)))) = None \<and>
      (if estimate_workload (ex_lm_request 150) = 0
       then FindBestBackend ex_ops (default_image_size ?mi (lm_model_session (ex_lm_request 150)))
              0 {} (sch_backends ?s) = None
       else placement_fails ex_ops (default_image_size ?mi (lm_model_session (ex_lm_request 150)))
              (sch_backends ?s) (estimate_workload (ex_lm_request 150)) {})"
    unfolding ms using ex_placement_fails
    by (simp add: ex_env_def ex_scheduler_def ex_lm_request_def)
  from LoadModel_not_enough_backends[of ex_ops ex_env "ex_lm_request 150" ex_lm_reply ?s,
      THEN conjunct2, rule_format, OF h]
  show ?thesis using ex_placement_fails by simp
qed

lemma foldl_add_sum:
  "foldl (\<lambda>a w. a + f w) a wl = a + sum_list (map f wl)"
  by (induction wl arbitrary: a) (simp_all add: add.assoc)

lemma aggregate_rps_sum:
  "aggregate_rps wl = sum_list (map (\<lambda>wk. max 0 (snd wk)) wl)"
  unfolding aggregate_rps_def using foldl_add_sum[of "\<lambda>wk. max 0 (snd wk)" 0 wl] by simp

lemma aggregate_rps_nonneg: "0 \<le> aggregate_rps wl"
  unfolding aggregate_rps_sum by (rule sum_list_nonneg) auto

lemma push_history_spec:
  assumes "0 < hl" and "length h \<le> hl"
  shows "push_history hl (aggregate_rps wl) h = history_spec hl wl h"
proof -
  let ?rps = "aggregate_rps wl"
  have nn: "0 \<le> ?rps" by (rule aggregate_rps_nonneg)
  show ?thesis
  proof (cases "h = [] \<and> ?rps = 0")
    case True
    then show ?thesis
      by (simp add: push_history_def history_spec_def aggregate_rps_sum[symmetric])
  next
    case False
    then have push: "0 < length h \<or> 0 < ?rps" using nn by auto
    show ?thesis
    proof (cases "length h = hl")
      case True
      then have "hl < length (h @ [?rps])" by simp
      moreover have "length (h @ [?rps]) - hl = Suc 0" using True by simp
      then have "drop (length (h @ [?rps]) - hl) (h @ [?rps]) = tl (h @ [?rps])"
        by (simp only: drop_Suc drop_0)
      moreover note this
      ultimately show ?thesis
        using push False
        by (simp add: push_history_def history_spec_def aggregate_rps_sum[symmetric] Let_def)
    next
      case ne: False
      with assms(2) have "length h < hl" by simp
      then have "\<not> hl < length (h @ [?rps])" by simp
      moreover from \<open>length h < hl\<close> have "length (h @ [?rps]) - hl = 0" by simp
      ultimately show ?thesis
        using push False
        by (simp add: push_history_def history_spec_def aggregate_rps_sum[symmetric] Let_def)
    qed
  qed
qed

lemma history_spec_length: "length (history_spec hl wl h) \<le> hl"
  by (auto simp: history_spec_def Let_def)

lemma check_trigger_iff:
  assumes "0 < hl" and "\<forall>e \<in> set tbl. length (rps_history (snd e)) \<le> hl"
  shows "check_trigger TT hl tbl = Inr (\<exists>e \<in> set tbl. needs_epoch TT hl (snd e))"
  using assms(2)
proof (induction tbl)
  case Nil
  show ?case by simp
next
  case (Cons e tbl)
  obtain sid si where e: "e = (sid, si)" by (cases e) auto
  from Cons.prems have le: "length (rps_history si) \<le> hl"
    and rest: "\<forall>e \<in> set tbl. length (rps_history (snd e)) \<le> hl" using e by simp_all
  note ih = Cons.IH[OF rest]
  show ?case
  proof (cases "length (rps_history si) < hl")
    case True
    then have "\<not> needs_epoch TT hl si" by (simp add: needs_epoch_def)
    with True ih e show ?thesis by simp
  next
    case False
    with le have full: "length (rps_history si) = hl" by simp
    with assms(1) have ne: "rps_history si \<noteq> []" by auto
    have last: "rps_history si ! (hl - 1) = last (rps_history si)"
      using last_conv_nth[OF ne] full by simp
    have c: "needs_epoch TT hl si \<longleftrightarrow>
        (max (rps_history si ! (hl - 1)) (1 / 10) < TT si * (8 / 10) \<or>
         TT si * (11 / 10) < max (rps_history si ! (hl - 1)) (1 / 10))"
      unfolding needs_epoch_def last using full by (simp add: mult.commute)
    show ?thesis
    proof (cases "needs_epoch TT hl si")
      case True
      with c False assms(1) e show ?thesis by (simp add: Let_def)
    next
      case nb: False
      with c have "\<not> (max (rps_history si ! (hl - 1)) (1 / 10) < TT si * (8 / 10) \<or>
         TT si * (11 / 10) < max (rps_history si ! (hl - 1)) (1 / 10))" by simp
      with False assms(1) e nb ih show ?thesis by (simp add: Let_def)
    qed
  qed
qed

text \<open>
  Claim C5. With a positive \<open>history_len\<close> and histories of at most \<open>history_len\<close>
  samples (which a tick preserves), \<^verbatim>\<open>BeaconCheck\<close> updates the history of every
  session as the specification says: the sum over the frontends of \<open>max(0, rate)\<close> is
  appended and the last \<open>history_len\<close> samples are kept, except that a sample of 0 is
  not appended to an empty history. It returns \<open>trigger = true\<close> exactly when some
  session has \<open>history_len\<close> samples and its estimate, the last sample but at least
  0.1, is below 0.8 times or above 1.1 times its total throughput.
\<close>

theorem BeaconCheck_trigger_and_history:
  assumes "0 < history_len s"
    and "\<forall>e \<in> set (session_table s). length (rps_history (snd e)) \<le> history_len s"
  shows "\<exists>trigger s'. BeaconCheck TT s = Inr (trigger, s') \<and>
      (trigger \<longleftrightarrow> (\<exists>e \<in> set (session_table s'). needs_epoch TT (history_len s) (snd e))) \<and>
      s' = s\<lparr>session_table :=
              map (\<lambda>e. (fst e, (snd e)\<lparr>rps_history :=
                     history_spec (history_len s) (workloads (snd e)) (rps_history (snd e))\<rparr>))
                (session_table s)\<rparr> \<and>
      (\<forall>e \<in> set (session_table s'). length (rps_history (snd e)) \<le> history_len s)"
proof -
  let ?hl = "history_len s"
  let ?f = "\<lambda>e. (fst e, (snd e)\<lparr>rps_history :=
                     history_spec ?hl (workloads (snd e)) (rps_history (snd e))\<rparr>)"
  let ?s' = "s\<lparr>session_table := map ?f (session_table s)\<rparr>"
  have m: "map (beacon_session ?hl) (session_table s) = map ?f (session_table s)"
  proof (rule map_cong[OF refl])
    fix e assume "e \<in> set (session_table s)"
    with assms(2) have "length (rps_history (snd e)) \<le> ?hl" by blast
    from push_history_spec[OF assms(1) this]
    show "beacon_session ?hl e = ?f e" by (simp add: beacon_session_def)
  qed
  have b: "\<forall>e \<in> set (session_table ?s'). length (rps_history (snd e)) \<le> ?hl"
    by (auto simp: history_spec_length)
  from check_trigger_iff[OF assms(1) b, of TT]
  have ct: "check_trigger TT ?hl (session_table ?s')
      = Inr (\<exists>e \<in> set (session_table ?s'). needs_epoch TT ?hl (snd e))" .
  have "BeaconCheck TT s
      = Inr (\<exists>e \<in> set (session_table ?s'). needs_epoch TT ?hl (snd e), ?s')"
    unfolding BeaconCheck_def Let_def m using ct by simp
  with b show ?thesis by blast
qed

text \<open>Witness for C5: \<open>history_len = 2\<close>, one session of total throughput 100 with the
  history [40] and reported rates 50 and -3; the history becomes [40, 50] and the
  estimate 50 is below 80.\<close>

theorem BeaconCheck_trigger_and_history_witness:
  "0 < history_len (ex_scheduler ex_two_backends
         [(''sess'', ex_session_info [(1, 100)] [(5, 50), (6, - 3)] [40])] 2) \<and>
   BeaconCheck ex_TotalThroughput
     (ex_scheduler ex_two_backends
         [(''sess'', ex_session_info [(1, 100)] [(5, 50), (6, - 3)] [40])] 2)
   = Inr (True, ex_scheduler ex_two_backends
         [(''sess'', ex_session_info [(1, 100)] [(5, 50), (6, - 3)] [40, 50])] 2)"
proof -
  let ?s = "ex_scheduler ex_two_backends
         [(''sess'', ex_session_info [(1, 100)] [(5, 50), (6, - 3)] [40])] 2"
  let ?t = "ex_scheduler ex_two_backends
         [(''sess'', ex_session_info [(1, 100)] [(5, 50), (6, - 3)] [40, 50])] 2"
  have h1: "0 < history_len ?s" by (simp add: ex_scheduler_def)
  have h2: "\<forall>e \<in> set (session_table ?s). length (rps_history (snd e)) \<le> history_len ?s"
    by (simp add: ex_scheduler_def ex_session_info_def)
  from BeaconCheck_trigger_and_history[OF h1 h2, of ex_TotalThroughput]
  obtain trigger s' where
    bc: "BeaconCheck ex_TotalThroughput ?s = Inr (trigger, s')"
    and tr: "trigger \<longleftrightarrow> (\<exists>e \<in> set (session_table s'). needs_epoch ex_TotalThroughput (history_len ?s) (snd e))"
    and s': "s' = ?s\<lparr>session_table :=
              map (\<lambda>e. (fst e, (snd e)\<lparr>rps_history :=
                     history_spec (history_len ?s) (workloads (snd e)) (rps_history (snd e))\<rparr>))
                (session_table ?s)\<rparr>"
    by blast
  from s' have eq: "s' = ?t"
    by (simp add: ex_scheduler_def ex_session_info_def history_spec_def Let_def)
  have "needs_epoch ex_TotalThroughput 2 (ex_session_info [(1, 100)] [(5, 50), (6, - 3)] [40, 50])"
    by (simp add: needs_epoch_def ex_TotalThroughput_def ex_session_info_def)
  with tr eq have "trigger" by (simp add: ex_scheduler_def)
  with bc eq h1 show ?thesis by simp
qed

lemma partition_static_result:
  assumes "\<forall>iter \<in> set ws. map_of bs (fst iter) \<noteq> None"
  shows "partition_static ops bs ws est adj =
     Inr (est - sum_list (map snd (filter (\<lambda>i. \<not> adjustable ops bs i) ws)),
          adj @ filter (adjustable ops bs) ws)"
  using assms
proof (induction ws arbitrary: est adj)
  case Nil
  show ?case by simp
next
  case (Cons iter ws)
  from Cons.prems obtain backend where b: "map_of bs (fst iter) = Some backend" by auto
  from Cons.prems have rest: "\<forall>iter \<in> set ws. map_of bs (fst iter) \<noteq> None" by simp
  show ?case
  proof (cases "0 \<le> bd_workload_id ops backend")
    case True
    then have na: "\<not> adjustable ops bs iter" using b by (simp add: adjustable_def)
    from True b Cons.IH[OF rest, of "est - snd iter" adj] na
    show ?thesis by (simp add: algebra_simps)
  next
    case False
    then have a: "adjustable ops bs iter" using b by (simp add: adjustable_def)
    from False b Cons.IH[OF rest, of est "adj @ [iter]"] a
    show ?thesis by simp
  qed
qed

lemma sort_desc_mset: "mset (sort_desc xs) = mset xs"
  by (simp add: sort_desc_def)

lemma sort_desc_sorted: "sorted_wrt (\<lambda>a b. snd b \<le> snd a) (sort_desc xs)"
proof -
  have "sorted (map (\<lambda>p. - snd p) (sort_desc xs))"
    unfolding sort_desc_def by (rule sorted_sort_key)
  then show ?thesis by (simp add: sorted_map)
qed

lemma release_walk_spec:
  assumes "\<forall>iter \<in> set adj. map_of bs (fst iter) \<noteq> None"
  shows "\<exists>st'. release_walk ops sid adj (est, bs, weights) = Inr st' \<and>
               release_spec ops sid adj (est, bs, weights) st'"
  using assms
proof (induction adj arbitrary: est bs weights)
  case Nil
  show ?case by (auto intro: release_done)
next
  case (Cons iter adj)
  obtain k w where iter: "iter = (k, w)" by (cases iter) auto
  from Cons.prems iter obtain backend where b: "map_of bs k = Some backend" by auto
  from Cons.prems have rest: "\<forall>iter \<in> set adj. map_of bs (fst iter) \<noteq> None" by simp
  have rest_upd: "\<And>v. \<forall>iter \<in> set adj. map_of (AList.update k v bs) (fst iter) \<noteq> None"
    using rest by (simp add: update_conv')
  show ?case
  proof (cases "est < 1 / 1000")
    case True
    let ?bs' = "AList.update k (bd_UnloadModel ops backend sid) bs"
    have "\<exists>st'. release_walk ops sid adj (est, ?bs', AList.delete k weights) = Inr st' \<and>
               release_spec ops sid adj (est, ?bs', AList.delete k weights) st'"
      by (rule Cons.IH) (rule rest_upd)
    then obtain st' where w: "release_walk ops sid adj (est, ?bs', AList.delete k weights) = Inr st'"
      and s: "release_spec ops sid adj (est, ?bs', AList.delete k weights) st'" by blast
    have "release_spec ops sid ((k, w) # adj) (est, bs, weights) st'"
      by (rule release_unload[OF True b s])
    with True b w iter show ?thesis by simp
  next
    case False
    show ?thesis
    proof (cases "est < w")
      case True
      obtain new_tp backend' where u: "bd_UpdateModelThroughput ops backend sid est = (new_tp, backend')"
        by (cases "bd_UpdateModelThroughput ops backend sid est") auto
      let ?bs' = "AList.update k backend' bs"
      let ?w' = "AList.update k (bd_GetModelWeight ops backend' sid) weights"
      have "\<exists>st'. release_walk ops sid adj (est - new_tp, ?bs', ?w') = Inr st' \<and>
               release_spec ops sid adj (est - new_tp, ?bs', ?w') st'"
        by (rule Cons.IH) (rule rest_upd)
      then obtain st' where w: "release_walk ops sid adj (est - new_tp, ?bs', ?w') = Inr st'"
        and s: "release_spec ops sid adj (est - new_tp, ?bs', ?w') st'" by blast
      have "release_spec ops sid ((k, w) # adj) (est, bs, weights) st'"
        by (rule release_shrink[OF False True b u s])
      with False True b u w iter show ?thesis by (simp add: Let_def)
    next
      case nw: False
      have "\<exists>st'. release_walk ops sid adj (est - w, bs, weights) = Inr st' \<and>
               release_spec ops sid adj (est - w, bs, weights) st'"
        by (rule Cons.IH) (rule rest)
      then obtain st' where w: "release_walk ops sid adj (est - w, bs, weights) = Inr st'"
        and s: "release_spec ops sid adj (est - w, bs, weights) st'" by blast
      have "release_spec ops sid ((k, w) # adj) (est, bs, weights) st'"
        by (rule release_keep[OF False nw s])
      with False nw w iter show ?thesis by simp
    qed
  qed
qed

text \<open>
  Claim C6. For a session with a full history whose estimate, the last sample but at
  least 0.1, is below 0.97 times its total throughput, and whose backends are all
  registered, \<^verbatim>\<open>EpochSchedule\<close> takes the release branch: the walked list holds exactly
  the adjustable backends (those with \<open>workload_id < 0\<close>) of the session, sorted by
  recorded weight in descending order; the estimate it starts from is reduced by the
  weights of the statically pinned backends; and the walk is the release pass of the
  specification: unload and erase the weight when the remaining estimate is below
  \<open>1e-3\<close>, else \<^verbatim>\<open>UpdateModelThroughput(session, estimate_rps)\<close> and refresh the weight
  when the weight exceeds the remaining estimate, else subtract the weight.
\<close>

theorem EpochSchedule_release_pass:
  assumes full: "hl \<le> length (rps_history si)"
    and ne: "rps_history si \<noteq> []"
    and low: "max (last (rps_history si)) (1 / 10) < (97 / 100) * TT si"
    and known: "\<forall>iter \<in> set (backend_weights si). map_of bs (fst iter) \<noteq> None"
  shows "\<exists>adjust est1 est2 bs' weights'.
      EpochSchedule_session ops TT hl sid si bs overload
        = Inr (si\<lparr>unassigned_workload := max 0 (max (last (rps_history si)) (1 / 10) - TT si),
                  backend_weights := weights'\<rparr>, bs', overload, True) \<and>
      mset adjust = mset (filter (adjustable ops bs) (backend_weights si)) \<and>
      sorted_wrt (\<lambda>a b. snd b \<le> snd a) adjust \<and>
      est1 = max (last (rps_history si)) (1 / 10)
             - sum_list (map snd (filter (\<lambda>i. \<not> adjustable ops bs i) (backend_weights si))) \<and>
      release_spec ops sid adjust (est1, bs, backend_weights si) (est2, bs', weights')"
proof -
  let ?est0 = "max (last (rps_history si)) (1 / 10)"
  let ?n = "length (rps_history si)"
  let ?adj0 = "filter (adjustable ops bs) (backend_weights si)"
  let ?est1 = "?est0 - sum_list (map snd (filter (\<lambda>i. \<not> adjustable ops bs i) (backend_weights si)))"
  let ?si1 = "si\<lparr>unassigned_workload := max 0 (?est0 - TT si)\<rparr>"
  have n0: "?n \<noteq> 0" using ne by simp
  have last: "rps_history si ! (?n - Suc 0) = last (rps_history si)"
    using last_conv_nth[OF ne] by simp
  have low': "?est0 < TT si * (97 / 100)" using low by (simp add: mult.commute)
  have ps: "partition_static ops bs (backend_weights ?si1) ?est0 [] = Inr (?est1, ?adj0)"
    using partition_static_result[OF known, of ops ?est0 "[]"] by simp
  have known_adj: "\<forall>iter \<in> set (sort_desc ?adj0). map_of bs (fst iter) \<noteq> None"
  proof
    fix iter assume "iter \<in> set (sort_desc ?adj0)"
    then have "iter \<in># mset (sort_desc ?adj0)" by simp
    then have "iter \<in> set ?adj0" unfolding sort_desc_mset by simp
    with known show "map_of bs (fst iter) \<noteq> None" by simp
  qed
  from release_walk_spec[OF known_adj, of ops sid ?est1 "backend_weights si"]
  obtain st' where rw: "release_walk ops sid (sort_desc ?adj0) (?est1, bs, backend_weights si) = Inr st'"
    and rs: "release_spec ops sid (sort_desc ?adj0) (?est1, bs, backend_weights si) st'" by blast
  obtain est2 bs' weights' where st': "st' = (est2, bs', weights')" by (cases st') auto
  have "EpochSchedule_session ops TT hl sid si bs overload
        = Inr (?si1\<lparr>backend_weights := weights'\<rparr>, bs', overload, True)"
    using full n0 low' ps rw st'
    by (simp add: EpochSchedule_session_def Let_def last)
  moreover have "?si1\<lparr>backend_weights := weights'\<rparr>
      = si\<lparr>unassigned_workload := max 0 (?est0 - TT si), backend_weights := weights'\<rparr>"
    by simp
  ultimately show ?thesis
    using sort_desc_mset[of ?adj0] sort_desc_sorted[of ?adj0] rs st'
    by (intro exI[of _ "sort_desc ?adj0"] exI[of _ ?est1] exI[of _ est2] exI[of _ bs']
          exI[of _ weights']) simp
qed

lemma ex_release_direct:
  "EpochSchedule_session ex_ops ex_TotalThroughput 1 ''sess'' ex_loaded_session
       ex_loaded_backends []
     = Inr (ex_loaded_session\<lparr>unassigned_workload := 0,
                                backend_weights := [(3, 20), (1, 30)]\<rparr>,
            [(1, ex_backend 1 (- 1) 100 [(''sess'', 30)]),
             (2, ex_backend 2 (- 1) 50 []),
             (3, ex_backend 3 0 50 [(''sess'', 20)])],
            [], True)"
  by (simp add: EpochSchedule_session_def ex_loaded_session_def ex_loaded_backends_def
        ex_session_info_def new_SessionInfo_def ex_TotalThroughput_def ex_ops_def
        ex_backend_def sort_desc_def Let_def)

text \<open>Witness for C6: an estimate of 50 against a total throughput of 110. The pinned
  backend 3 takes 20; backend 1 of weight 60 is shrunk to the remaining 30, and backend 2
  of weight 30 is unloaded.\<close>

theorem EpochSchedule_release_pass_witness:
  "1 \<le> length (rps_history ex_loaded_session) \<and>
   max (last (rps_history ex_loaded_session)) (1 / 10)
     < (97 / 100) * ex_TotalThroughput ex_loaded_session \<and>
   EpochSchedule_session ex_ops ex_TotalThroughput 1 ''sess'' ex_loaded_session
       ex_loaded_backends []
     = Inr (ex_loaded_session\<lparr>unassigned_workload := 0,
                                backend_weights := [(3, 20), (1, 30)]\<rparr>,
            [(1, ex_backend 1 (- 1) 100 [(''sess'', 30)]),
             (2, ex_backend 2 (- 1) 50 []),
             (3, ex_backend 3 0 50 [(''sess'', 20)])],
            [], True) \<and>
   (\<exists>adjust est2.
      mset adjust = {#(1, 60), (2, 30)#} \<and>
      release_spec ex_ops ''sess'' adjust (30, ex_loaded_backends, [(2, 30), (3, 20), (1, 60)])
        (est2,
         [(1, ex_backend 1 (- 1) 100 [(''sess'', 30)]),
          (2, ex_backend 2 (- 1) 50 []),
          (3, ex_backend 3 0 50 [(''sess'', 20)])],
         [(3, 20), (1, 30)]))"
proof -
  let ?si = ex_loaded_session
  have full: "1 \<le> length (rps_history ?si)"
    by (simp add: ex_loaded_session_def ex_session_info_def)
  have ne: "rps_history ?si \<noteq> []"
    by (simp add: ex_loaded_session_def ex_session_info_def)
  have low: "max (last (rps_history ?si)) (1 / 10) < (97 / 100) * ex_TotalThroughput ?si"
    by (simp add: ex_loaded_session_def ex_session_info_def ex_TotalThroughput_def)
  have known: "\<forall>iter \<in> set (backend_weights ?si). map_of ex_loaded_backends (fst iter) \<noteq> None"
    by (simp add: ex_loaded_session_def ex_session_info_def ex_loaded_backends_def)
  have w: "backend_weights ?si = [(2, 30), (3, 20), (1, 60)]"
    by (simp add: ex_loaded_session_def ex_session_info_def)
  have adj: "filter (adjustable ex_ops ex_loaded_backends) (backend_weights ?si) = [(2, 30), (1, 60)]"
    unfolding w
    by (simp add: adjustable_def ex_loaded_backends_def ex_ops_def ex_backend_def)
  have nadj: "filter (\<lambda>i. \<not> adjustable ex_ops ex_loaded_backends i) (backend_weights ?si) = [(3, 20)]"
    unfolding w
    by (simp add: adjustable_def ex_loaded_backends_def ex_ops_def ex_backend_def)
  have est0: "max (last (rps_history ?si)) (1 / 10) = 50"
    by (simp add: ex_loaded_session_def ex_session_info_def)
  from EpochSchedule_release_pass[where TT = ex_TotalThroughput and si = ?si and hl = 1
      and bs = ex_loaded_backends and ops = ex_ops and sid = "''sess''" and overload = "[]",
      OF full ne low known]
  obtain adjust est1 est2 bs' weights' where
    e: "EpochSchedule_session ex_ops ex_TotalThroughput 1 ''sess'' ?si ex_loaded_backends []
        = Inr (?si\<lparr>unassigned_workload :=
                      max 0 (max (last (rps_history ?si)) (1 / 10) - ex_TotalThroughput ?si),
                    backend_weights := weights'\<rparr>, bs', [], True)"
    and m: "mset adjust = mset (filter (adjustable ex_ops ex_loaded_backends) (backend_weights ?si))"
    and e1: "est1 = max (last (rps_history ?si)) (1 / 10)
             - sum_list (map snd (filter (\<lambda>i. \<not> adjustable ex_ops ex_loaded_backends i)
                                    (backend_weights ?si)))"
    and rs: "release_spec ex_ops ''sess'' adjust (est1, ex_loaded_backends, backend_weights ?si)
               (est2, bs', weights')"
    by blast
  from e ex_release_direct have
    bs': "bs' = [(1, ex_backend 1 (- 1) 100 [(''sess'', 30)]),
                 (2, ex_backend 2 (- 1) 50 []),
                 (3, ex_backend 3 0 50 [(''sess'', 20)])]"
    and eqsi: "?si\<lparr>unassigned_workload :=
                      max 0 (max (last (rps_history ?si)) (1 / 10) - ex_TotalThroughput ?si),
                    backend_weights := weights'\<rparr>
               = ?si\<lparr>unassigned_workload := 0, backend_weights := [(3, 20), (1, 30)]\<rparr>"
    by simp_all
  from arg_cong[OF eqsi, of backend_weights] have weights': "weights' = [(3, 20), (1, 30)]"
    by simp
  from e1 have est1: "est1 = 30" unfolding est0 nadj by simp
  from m have m': "mset adjust = {#(1, 60), (2, 30)#}" unfolding adj by (simp add: add_mset_commute)
  from rs have "release_spec ex_ops ''sess'' adjust
        (30, ex_loaded_backends, [(2, 30), (3, 20), (1, 60)])
        (est2,
         [(1, ex_backend 1 (- 1) 100 [(''sess'', 30)]),
          (2, ex_backend 2 (- 1) 50 []),
          (3, ex_backend 3 0 50 [(''sess'', 20)])],
         [(3, 20), (1, 30)])"
    unfolding est1 w bs' weights' .
  with m' full low ex_release_direct show ?thesis by blast
qed

end
